(* ===== verification/ITC_Prelude.thy ===== *)
theory ITC_Prelude
  imports Main "HOL-Library.Word"
begin

text \<open>
  Shared vocabulary of the model of \<open>src/scripts/itc.py\<close>: bytes as \<open>8 word\<close>
  lists (Python 2 \<open>str\<close> values are byte strings), Python's exceptions as an
  \<open>error\<close> datatype, results as \<open>error + 'a\<close> threaded with \<open>rbind\<close>, the
  big-endian integer encodings of the \<open>struct\<close> module (\<open>'!L'\<close>, \<open>'!Q'\<close>,
  \<open>'!I'\<close>, \<open>'4s'\<close>) with their round-trip laws, Python's list indexing, and a
  sequence of file writes that stops at the first exception.
\<close>

named_theorems itc_simps \<open>unfolding rules for evaluating the model on concrete inputs\<close>

type_synonym byte = "8 word"
type_synonym bytes = "byte list"

text \<open>A file system: file name to its contents.\<close>
type_synonym fs = "string \<Rightarrow> bytes option"

definition bstr :: "string \<Rightarrow> bytes" where
  "bstr s = map of_char s"

subsection \<open>Python exceptions\<close>

datatype itc_exception = UnhandledExtension | NoFilename | InvalidFormat | InvalidMethod

datatype itc_warning = NoImageData nat | MultipleLibraryIds | MultipleTrackIds

datatype error =
    StructError
  | IOError
  | IndexError
  | TypeError
  | AttributeError
  | ITCException itc_exception
  | ITCWarning itc_warning

definition rbind :: "error + 'a \<Rightarrow> ('a \<Rightarrow> error + 'b) \<Rightarrow> error + 'b" where
  "rbind m f = (case m of Inl e \<Rightarrow> Inl e | Inr x \<Rightarrow> f x)"

subsection \<open>Big-endian byte encodings\<close>

text \<open>\<open>be_bytes k n\<close>: the \<open>k\<close> low base-256 digits of \<open>n\<close>, most significant first.\<close>

fun be_bytes :: "nat \<Rightarrow> nat \<Rightarrow> bytes" where
  "be_bytes 0 n = []"
| "be_bytes (Suc k) n = be_bytes k (n div 256) @ [word_of_nat (n mod 256)]"

definition be_val :: "bytes \<Rightarrow> nat" where
  "be_val bs = foldl (\<lambda>a b. a * 256 + unat b) 0 bs"

subsection \<open>The \<open>struct\<close> module\<close>

text \<open>
  \<open>struct.pack\<close> of an unsigned standard-size code (\<open>'!B'\<close>, \<open>'!L'\<close>, \<open>'!I'\<close>,
  \<open>'!Q'\<close>: 1, 4, 4, 8 bytes) raises \<open>struct.error\<close> when the Python integer is
  out of range; \<open>struct.unpack\<close> raises it unless the string has exactly the
  format's size. A value that is no integer (the empty string the reader leaves in
  \<open>library\<close>) is \<open>None\<close> here and raises as well.
\<close>

definition pack_uint :: "nat \<Rightarrow> int \<Rightarrow> error + bytes" where
  "pack_uint k v = (if 0 \<le> v \<and> v < 256 ^ k then Inr (be_bytes k (nat v)) else Inl StructError)"

abbreviation pack_u32 :: "int \<Rightarrow> error + bytes" where
  "pack_u32 \<equiv> pack_uint 4"

abbreviation pack_u64 :: "int \<Rightarrow> error + bytes" where
  "pack_u64 \<equiv> pack_uint 8"

definition pack_opt_u64 :: "nat option \<Rightarrow> error + bytes" where
  "pack_opt_u64 v = (case v of None \<Rightarrow> Inl StructError | Some n \<Rightarrow> pack_u64 (int n))"

definition unpack_uint :: "nat \<Rightarrow> bytes \<Rightarrow> error + nat" where
  "unpack_uint k bs = (if length bs = k then Inr (be_val bs) else Inl StructError)"

text \<open>\<open>'Ns'\<close>: a string truncated or padded with NUL bytes to exactly \<open>N\<close> bytes.\<close>

definition pack_str :: "nat \<Rightarrow> bytes \<Rightarrow> bytes" where
  "pack_str k s = take k s @ replicate (k - length s) 0"

definition unpack_str :: "nat \<Rightarrow> bytes \<Rightarrow> error + bytes" where
  "unpack_str k bs = (if length bs = k then Inr bs else Inl StructError)"

text \<open>\<open>'\0' * k\<close> for a Python integer \<open>k\<close>: empty when \<open>k \<le> 0\<close>.\<close>

definition nuls :: "int \<Rightarrow> bytes" where
  "nuls k = replicate (nat k) 0"

subsection \<open>Python list indexing\<close>

text \<open>\<open>xs[i]\<close>: negative indices count from the end; out of range raises.\<close>

definition py_index :: "'a list \<Rightarrow> int \<Rightarrow> error + 'a" where
  "py_index xs i =
     (if 0 \<le> i then (if nat i < length xs then Inr (xs ! nat i) else Inl IndexError)
      else if nat (- i) \<le> length xs then Inr (xs ! (length xs - nat (- i)))
      else Inl IndexError)"

subsection \<open>Loops that append and stop at the first exception\<close>

text \<open>
  \<open>for x in xs: out += f(x)\<close>, where \<open>f\<close> may raise: the concatenation of the
  pieces, or the first exception.
\<close>

fun rconcat_map :: "('a \<Rightarrow> error + bytes) \<Rightarrow> 'a list \<Rightarrow> error + bytes" where
  "rconcat_map f [] = Inr []"
| "rconcat_map f (x # xs) = rbind (f x) (\<lambda>b. rbind (rconcat_map f xs) (\<lambda>bs. Inr (b @ bs)))"

text \<open>
  A sequence of \<open>fp.write(...)\<close> calls on one open file, each of whose argument
  may raise while it is computed: the bytes that reached the file, and the
  exception that stopped the sequence, if any.
\<close>

fun run_writes :: "(error + bytes) list \<Rightarrow> bytes \<times> error option" where
  "run_writes [] = ([], None)"
| "run_writes (Inl e # ws) = ([], Some e)"
| "run_writes (Inr b # ws) = (let (out, err) = run_writes ws in (b @ out, err))"

section \<open>Lemmas\<close>

lemma rbind_Inl [simp]: "rbind (Inl e) f = Inl e"
  by (simp add: rbind_def)

lemma rbind_Inr [simp]: "rbind (Inr x) f = f x"
  by (simp add: rbind_def)

lemma rbind_assoc [simp]: "rbind (rbind m f) g = rbind m (\<lambda>x. rbind (f x) g)"
  by (cases m) simp_all

lemma rbind_eq_Inr_iff: "rbind m f = Inr y \<longleftrightarrow> (\<exists>x. m = Inr x \<and> f x = Inr y)"
  by (cases m) simp_all

lemma rbind_eq_Inl_iff:
  "rbind m f = Inl e \<longleftrightarrow> m = Inl e \<or> (\<exists>x. m = Inr x \<and> f x = Inl e)"
  by (cases m) simp_all

lemma rbind_cong [fundef_cong]:
  "m = m' \<Longrightarrow> (\<And>x. m' = Inr x \<Longrightarrow> f x = g x) \<Longrightarrow> rbind m f = rbind m' g"
  unfolding rbind_def by (auto split: sum.split)

lemma unat_byte_lt [simp]: "unat (b :: byte) < 256"
  using unsigned_less [of b] by simp

lemma be_val_Nil [simp]: "be_val [] = 0"
  by (simp add: be_val_def)

lemma be_val_snoc [simp]: "be_val (xs @ [b]) = be_val xs * 256 + unat b"
  by (simp add: be_val_def)

lemma length_be_bytes [simp]: "length (be_bytes k n) = k"
  by (induction k arbitrary: n) simp_all

lemma be_val_be_bytes [simp]: "be_val (be_bytes k n) = n mod 256 ^ k"
proof (induction k arbitrary: n)
  case 0
  then show ?case by simp
next
  case (Suc k)
  have u: "unat (word_of_nat (n mod 256) :: byte) = n mod 256"
    by (simp add: unat_of_nat)
  have "n mod 256 ^ Suc k = 256 * (n div 256 mod 256 ^ k) + n mod 256"
    by (simp add: mod_mult2_eq)
  then show ?case using Suc.IH u by simp
qed

lemma be_bytes_be_val [simp]: "be_bytes (length bs) (be_val bs) = bs"
proof (induction bs rule: rev_induct)
  case Nil
  then show ?case by simp
next
  case (snoc b bs)
  have "unat b div 256 = 0" and "unat b mod 256 = unat b"
    using unat_byte_lt [of b] by simp_all
  then show ?case using snoc.IH by simp
qed

lemma be_val_lt: "be_val bs < 256 ^ length bs"
  by (metis be_bytes_be_val be_val_be_bytes mod_less_divisor zero_less_numeral zero_less_power)

lemma be_val_append:
  "be_val (xs @ ys) = be_val xs * 256 ^ length ys + be_val ys"
proof (induction ys rule: rev_induct)
  case Nil
  then show ?case by simp
next
  case (snoc y ys)
  then show ?case
    by (simp flip: append_assoc add: algebra_simps)
qed

lemma length_pack_str [simp]: "length (pack_str k s) = k"
  by (simp add: pack_str_def)

lemma pack_str_id [simp]: "length s = k \<Longrightarrow> pack_str k s = s"
  by (simp add: pack_str_def)

lemma pack_uint_Inr:
  "pack_uint k v = Inr bs \<longleftrightarrow> 0 \<le> v \<and> v < 256 ^ k \<and> bs = be_bytes k (nat v)"
  by (auto simp add: pack_uint_def)

lemma pack_uint_length: "pack_uint k v = Inr bs \<Longrightarrow> length bs = k"
  by (simp add: pack_uint_Inr)

lemma unpack_pack_uint:
  "pack_uint k v = Inr bs \<Longrightarrow> unpack_uint k bs = Inr (nat v)"
proof -
  assume "pack_uint k v = Inr bs"
  then have v: "0 \<le> v" "v < 256 ^ k" and bs: "bs = be_bytes k (nat v)"
    by (simp_all add: pack_uint_Inr)
  from v have "nat v < 256 ^ k"
    by (metis nat_less_iff of_nat_numeral of_nat_power)
  with bs show ?thesis by (simp add: unpack_uint_def)
qed

lemma pack_unpack_uint:
  "unpack_uint k bs = Inr n \<Longrightarrow> pack_uint k (int n) = Inr bs"
proof -
  assume "unpack_uint k bs = Inr n"
  then have k: "length bs = k" and n: "n = be_val bs"
    by (simp_all add: unpack_uint_def split: if_splits)
  have "int n < 256 ^ k"
    using be_val_lt [of bs] k n by (metis of_nat_less_iff of_nat_numeral of_nat_power)
  moreover have "be_bytes k (be_val bs) = bs"
    using k be_bytes_be_val [of bs] by simp
  ultimately show ?thesis using n by (simp add: pack_uint_def)
qed

lemma py_index_nat [simp]:
  "py_index xs (int i) = (if i < length xs then Inr (xs ! i) else Inl IndexError)"
  by (simp add: py_index_def)

lemma rconcat_map_Inr:
  "(\<And>x. x \<in> set xs \<Longrightarrow> f x = Inr (g x)) \<Longrightarrow> rconcat_map f xs = Inr (concat (map g xs))"
  by (induction xs) simp_all

lemma rconcat_map_map [simp]: "rconcat_map f (map g xs) = rconcat_map (\<lambda>x. f (g x)) xs"
  by (induction xs) simp_all

lemma rconcat_map_isl:
  "isl (rconcat_map f xs) \<longleftrightarrow> (\<exists>x\<in>set xs. isl (f x))"
  by (induction xs) (auto simp: rbind_def split: sum.splits)

lemma run_writes_all_Inr [simp]: "run_writes (map Inr bs) = (concat bs, None)"
  by (induction bs) simp_all

lemma run_writes_append_Inr [simp]:
  "run_writes (map Inr bs @ ws) = (concat bs @ fst (run_writes ws), snd (run_writes ws))"
  by (induction bs) (simp_all add: case_prod_beta)

lemma upto_int_nat: "[0..int n - 1] = map int [0..<n]"
  by (induction n) (simp_all add: upto_rec2)

lemma rconcat_map_Inl_same:
  "(\<And>x e. x \<in> set xs \<Longrightarrow> f x = Inl e \<Longrightarrow> e = E) \<Longrightarrow> y \<in> set xs \<Longrightarrow> isl (f y) \<Longrightarrow>
   rconcat_map f xs = Inl E"
proof (induction xs)
  case Nil
  then show ?case by simp
next
  case (Cons x xs)
  show ?case
  proof (cases "f x")
    case (Inl e)
    then show ?thesis using Cons.prems(1) [of x e] by simp
  next
    case (Inr b)
    with Cons.prems(2,3) have y: "y \<in> set xs" by auto
    have "\<And>z e. z \<in> set xs \<Longrightarrow> f z = Inl e \<Longrightarrow> e = E"
      using Cons.prems(1) by (metis list.set_intros(2))
    with Inr Cons.IH [OF _ y Cons.prems(3)] show ?thesis by simp
  qed
qed

lemma rconcat_map_Inl_from:
  "rconcat_map f xs = Inl e \<Longrightarrow> \<exists>x\<in>set xs. f x = Inl e"
  by (induction xs) (auto simp: rbind_eq_Inl_iff)

lemma be_bytes_numeral:
  "be_bytes (numeral k) n = be_bytes (pred_numeral k) (n div 256) @ [word_of_nat (n mod 256)]"
  by (simp only: numeral_eq_Suc [of k] be_bytes.simps(2))

lemma py_index_shift:
  "k + j < length d \<Longrightarrow> py_index d (int k + int j) = Inr (d ! (k + j))"
  by (simp add: py_index_def nat_add_distrib)

end
