(* ===== verification/ITC_Stream.thy ===== *)
theory ITC_Stream
  imports ITC_Prelude
begin

text \<open>
  The Python 2 file object the reader walks (\<open>self._rs\<close> in
  \<open>ITCFile.read\<close>): the whole file and a position. \<open>read(n)\<close> returns at most
  \<open>n\<close> bytes from the position (all the rest when \<open>n < 0\<close>, nothing past the end)
  and advances by what it returned; \<open>seek\<close> may go past the end but raises
  \<open>IOError\<close> for a negative position.
\<close>

record stream =
  content :: bytes
  pos :: nat

definition py_read :: "int \<Rightarrow> stream \<Rightarrow> bytes \<times> stream" where
  "py_read n s =
     (let avail = drop (pos s) (content s);
          r = (if n < 0 then avail else take (nat n) avail)
      in (r, s\<lparr>pos := pos s + length r\<rparr>))"

definition py_seek :: "int \<Rightarrow> stream \<Rightarrow> error + stream" where
  "py_seek p s = (if p < 0 then Inl IOError else Inr (s\<lparr>pos := nat p\<rparr>))"

definition py_seek_cur :: "int \<Rightarrow> stream \<Rightarrow> error + stream" where
  "py_seek_cur d s = py_seek (int (pos s) + d) s"

lemma py_read_content [simp]: "content (snd (py_read n s)) = content s"
  by (simp add: py_read_def Let_def)

lemma py_read_pos: "pos (snd (py_read n s)) = pos s + length (fst (py_read n s))"
  by (simp add: py_read_def Let_def)

lemma py_read_length: "0 \<le> n \<Longrightarrow> length (fst (py_read n s)) \<le> nat n"
  by (simp add: py_read_def Let_def)

lemma py_read_pos_le: "pos (snd (py_read n s)) \<le> max (pos s) (length (content s))"
  by (auto simp add: py_read_def Let_def min_def max_def)

text \<open>Reading \<open>n\<close> bytes where the file holds at least \<open>n\<close> more.\<close>

lemma py_read_at:
  assumes "drop (pos s) (content s) = xs @ ys" and "length xs = n"
  shows "py_read (int n) s = (xs, s\<lparr>pos := pos s + n\<rparr>)"
  using assms by (simp add: py_read_def Let_def)

lemma py_read_at_numeral:
  assumes "drop (pos s) (content s) = xs @ ys" and "length xs = numeral k"
  shows "py_read (numeral k) s = (xs, s\<lparr>pos := pos s + numeral k\<rparr>)"
  using py_read_at [OF assms] by simp

lemma py_read_all:
  assumes "drop (pos s) (content s) = xs"
  shows "py_read n s = (if n < 0 then xs else take (nat n) xs,
                        s\<lparr>pos := pos s + length (if n < 0 then xs else take (nat n) xs)\<rparr>)"
  using assms by (simp add: py_read_def Let_def)

lemma py_seek_cur_nonneg [simp]:
  "0 \<le> d \<Longrightarrow> py_seek_cur d s = Inr (s\<lparr>pos := pos s + nat d\<rparr>)"
  by (simp add: py_seek_cur_def py_seek_def nat_add_distrib)

lemma py_seek_nat [simp]: "py_seek (int p) s = Inr (s\<lparr>pos := p\<rparr>)"
  by (simp add: py_seek_def)

lemma drop_pos_shift:
  "drop p c = xs @ ys \<Longrightarrow> length xs = n \<Longrightarrow> drop (p + n) c = ys"
  by (metis add.commute append_eq_conv_conj drop_drop)

end
