(* ===== verification/ITC_Model.thy ===== *)
theory ITC_Model
  imports ITC_Prelude
begin

text \<open>
  The container record model of \<open>ITCFile\<close> (\<open>src/scripts/itc.py\<close>): the two
  layout constants, the image tuple \<open>(width, height, data, format, method,
  length)\<close> as a record whose format and method are the source's string values
  as datatypes, the object's attributes as the record \<open>itc\<close>, the tag
  translations of \<open>_parse_item\<close> and \<open>_write_image\<close>, and the operations that
  touch the image list outside reading and writing: \<open>add_image\<close>, the
  \<open>_ImageData\<close> proxy and \<open>can_handle\<close>.
\<close>

subsection \<open>Constants and tags\<close>

definition ITUNES_9 :: int where "ITUNES_9 = 208"
definition ITUNES_OLD :: int where "ITUNES_OLD = 216"

definition tag_itch :: bytes where "tag_itch = bstr ''itch''"
definition tag_artw :: bytes where "tag_artw = bstr ''artw''"
definition tag_item :: bytes where "tag_item = bstr ''item''"
definition tag_data :: bytes where "tag_data = bstr ''data''"
definition tag_locl :: bytes where "tag_locl = bstr ''locl''"
definition tag_down :: bytes where "tag_down = bstr ''down''"
definition tag_PNGf :: bytes where "tag_PNGf = bstr ''PNGf''"
definition tag_ARGb :: bytes where "tag_ARGb = bstr ''ARGb''"
definition tag_png_num :: bytes where "tag_png_num = [0, 0, 0, 0x0e]"
definition tag_jpeg_num :: bytes where "tag_jpeg_num = [0, 0, 0, 0x0d]"

lemmas itc_tags [itc_simps] = tag_itch_def tag_artw_def tag_item_def tag_data_def
  tag_locl_def tag_down_def tag_PNGf_def tag_ARGb_def tag_png_num_def tag_jpeg_num_def
  ITUNES_9_def ITUNES_OLD_def bstr_def

subsection \<open>Images and the container object\<close>

text \<open>
  \<open>format_\<close> takes the values \<open>'PNG'\<close>, \<open>'JPEG'\<close>, \<open>'ARGB'\<close>, \<open>''\<close> in the
  reader and \<open>'JPG'\<close>, \<open>'PNG'\<close> in \<open>add_image\<close>; \<open>method\<close> takes \<open>'local'\<close>,
  \<open>'download'\<close>, \<open>''\<close>.
\<close>

datatype image_format = FmtPNG | FmtJPEG | FmtJPG | FmtARGB | FmtNone

datatype image_method = Local | Download | MethodNone

record image =
  img_width :: int
  img_height :: int
  img_data :: "bytes option"
  img_format :: image_format
  img_method :: image_method
  img_len :: int

text \<open>
  The attributes of an \<open>ITCFile\<close>. \<open>library\<close> and \<open>track\<close> hold \<open>''\<close>
  (here \<open>None\<close>) until an image record sets them; \<open>info_preamble\<close> does not
  exist (\<open>None\<close>) until \<open>_parse_item\<close> reads one.
\<close>

record itc =
  itc_filename :: string
  library :: "nat option"
  track :: "nat option"
  images :: "image list"
  image_offset :: int
  info_preamble :: "bytes option"
  quiet :: bool

definition itc_init :: "int \<Rightarrow> bool \<Rightarrow> itc" where
  "itc_init mode q =
     \<lparr>itc_filename = [], library = None, track = None, images = [],
      image_offset = mode, info_preamble = None, quiet = q\<rparr>"

subsection \<open>Tag translations\<close>

text \<open>\<open>_parse_item\<close>: the storage tag and the format tag to the record's values.\<close>

definition decode_method :: "bytes \<Rightarrow> image_method" where
  "decode_method imethod =
     (if imethod = tag_locl then Local
      else if imethod = tag_down then Download
      else MethodNone)"

definition decode_format :: "bytes \<Rightarrow> image_format" where
  "decode_format iformat =
     (if iformat = tag_PNGf \<or> iformat = tag_png_num then FmtPNG
      else if iformat = tag_jpeg_num then FmtJPEG
      else if iformat = tag_ARGb then FmtARGB
      else FmtNone)"

text \<open>\<open>_write_image\<close>: the record's values to the tags it writes, or its exception.\<close>

fun encode_format :: "image_format \<Rightarrow> error + bytes" where
  "encode_format FmtPNG = Inr tag_PNGf"
| "encode_format FmtJPG = Inr tag_jpeg_num"
| "encode_format FmtARGB = Inr []"
| "encode_format _ = Inl (ITCException InvalidFormat)"

fun encode_method :: "image_method \<Rightarrow> error + bytes" where
  "encode_method Local = Inr tag_locl"
| "encode_method Download = Inr tag_down"
| "encode_method MethodNone = Inl (ITCException InvalidMethod)"

subsection \<open>Adding an image\<close>

text \<open>
  \<open>os.path.splitext\<close> (POSIX): the extension is the part of the last path
  component from its last dot on, provided something other than dots precedes
  that dot in the component; \<open>str.lower\<close> on ASCII.
\<close>

definition path_basename :: "string \<Rightarrow> string" where
  "path_basename p = rev (takeWhile (\<lambda>c. c \<noteq> CHR ''/'') (rev p))"

definition splitext_ext :: "string \<Rightarrow> string" where
  "splitext_ext p =
     (let b = path_basename p;
          stem = rev (dropWhile (\<lambda>c. c \<noteq> CHR ''.'') (rev b))
      in if stem \<noteq> [] \<and> (\<exists>c\<in>set (butlast stem). c \<noteq> CHR ''.'')
         then drop (length stem - 1) b else [])"

definition py_lower :: "string \<Rightarrow> string" where
  "py_lower s = map (\<lambda>c. let n = (of_char c :: nat) in
                          if 65 \<le> n \<and> n \<le> 90 then char_of (n + 32) else c) s"

definition add_image :: "fs \<Rightarrow> string \<Rightarrow> int \<Rightarrow> int \<Rightarrow> itc \<Rightarrow> error + itc" where
  "add_image fs filename width height st =
     (let ext = py_lower (splitext_ext filename) in
      if ext = ''.jpg'' \<or> ext = ''.png'' then
        (case fs filename of
           None \<Rightarrow> Inl IOError
         | Some data \<Rightarrow>
             Inr (st\<lparr>images := images st @
                    [\<lparr>img_width = width, img_height = height, img_data = Some data,
                      img_format = (if ext = ''.jpg'' then FmtJPG else FmtPNG),
                      img_method = Local, img_len = int (length data)\<rparr>]\<rparr>))
      else Inl (ITCException UnhandledExtension))"

subsection \<open>The \<open>_ImageData\<close> proxy\<close>

text \<open>
  \<open>itc.image_data[i]\<close> reads the data field of the \<open>i\<close>-th tuple. Assigning to it
  indexes the list first and then assigns into a tuple, which Python refuses with a
  \<open>TypeError\<close>: every image tuple the class builds is immutable.
\<close>

definition image_data_get :: "itc \<Rightarrow> int \<Rightarrow> error + bytes option" where
  "image_data_get st i = rbind (py_index (images st) i) (\<lambda>img. Inr (img_data img))"

definition image_data_set :: "itc \<Rightarrow> int \<Rightarrow> bytes \<Rightarrow> error + itc" where
  "image_data_set st i d = rbind (py_index (images st) i) (\<lambda>img. Inl TypeError)"

subsection \<open>Recognising a container\<close>

text \<open>
  \<open>can_handle\<close> opens the file (\<open>IOError\<close> when it does not exist), reads
  the 4 bytes after the first 4 (fewer near the end of the file) and answers
  \<open>'itc'\<close> (here \<open>True\<close>) when they are \<open>itch\<close>, \<open>None\<close> (\<open>False\<close>)
  otherwise.
\<close>

definition can_handle :: "fs \<Rightarrow> string \<Rightarrow> error + bool" where
  "can_handle fs filename =
     (case fs filename of None \<Rightarrow> Inl IOError | Some c \<Rightarrow> Inr (take 4 (drop 4 c) = tag_itch))"

end
