(* ===== verification/ITC_Reader.thy ===== *)
theory ITC_Reader
  imports ITC_Stream ITC_Model
begin

text \<open>
  The container reader of \<open>ITCFile\<close> (\<open>read\<close>, \<open>_read_frame\<close>,
  \<open>_handle_frame\<close>, \<open>_parse_itch\<close>, \<open>_parse_artw\<close>, \<open>_parse_item\<close>): each
  operation takes the object and the file position and returns both updated, or
  the exception the source raises. \<open>_parse_itch\<close> dispatches its sub-tag through
  \<open>_handle_frame\<close> again, which terminates because every nested \<open>itch\<close> consumes
  20 bytes of the file. The loop of \<open>read\<close> has no such bound (an \<open>item\<close> frame
  can send the position back to its own start), so it is a
  \<open>partial_function (option)\<close>: \<open>None\<close> is the loop that never returns.
\<close>

subsection \<open>Decoding one image record\<close>

definition read_preamble :: "int \<Rightarrow> itc \<Rightarrow> stream \<Rightarrow> itc \<times> stream" where
  "read_preamble off st s =
     (if off = ITUNES_9 then
        (let (p, s') = py_read 16 s in (st\<lparr>info_preamble := Some p\<rparr>, s'))
      else if off = ITUNES_OLD then
        (let (p, s') = py_read 20 s in (st\<lparr>info_preamble := Some p\<rparr>, s'))
      else (st, s))"

text \<open>\<open>struct.unpack('!QQ0004s0004s', ...)\<close> and \<open>struct.unpack('!LL', ...)\<close>.\<close>

definition unpack_item_ids :: "bytes \<Rightarrow> error + (nat \<times> nat \<times> bytes \<times> bytes)" where
  "unpack_item_ids b =
     (if length b = 24
      then Inr (be_val (take 8 b), be_val (take 8 (drop 8 b)), take 4 (drop 16 b), drop 20 b)
      else Inl StructError)"

definition unpack_wh :: "bytes \<Rightarrow> error + (nat \<times> nat)" where
  "unpack_wh b =
     (if length b = 8 then Inr (be_val (take 4 b), be_val (drop 4 b)) else Inl StructError)"

text \<open>The first library (track) id wins; a different later one raises \<open>ITCWarning\<close>.\<close>

definition reconcile_library :: "nat \<Rightarrow> itc \<Rightarrow> error + itc" where
  "reconcile_library l st =
     (case library st of
        None \<Rightarrow> Inr (st\<lparr>library := Some l\<rparr>)
      | Some l0 \<Rightarrow> if l0 = l then Inr st else Inl (ITCWarning MultipleLibraryIds))"

definition reconcile_track :: "nat \<Rightarrow> itc \<Rightarrow> error + itc" where
  "reconcile_track t st =
     (case track st of
        None \<Rightarrow> Inr (st\<lparr>track := Some t\<rparr>)
      | Some t0 \<Rightarrow> if t0 = t then Inr st else Inl (ITCWarning MultipleTrackIds))"

text \<open>
  The payload: skipped with a relative seek in list-only mode, read otherwise
  (\<open>read\<close> of a negative size reads to the end of the file).
\<close>

definition read_payload :: "bool \<Rightarrow> int \<Rightarrow> stream \<Rightarrow> error + (bytes option \<times> stream)" where
  "read_payload list_only data_size s =
     (if list_only then rbind (py_seek_cur data_size s) (\<lambda>s'. Inr (None, s'))
      else (let (d, s') = py_read data_size s in Inr (Some d, s')))"

definition parse_item :: "bool \<Rightarrow> nat \<Rightarrow> itc \<Rightarrow> stream \<Rightarrow> error + (itc \<times> stream)" where
  "parse_item list_only fsize st s0 =
     (let start = pos s0;
          (b, s1) = py_read 4 s0 in
      rbind (unpack_uint 4 b) (\<lambda>off.
      let (st1, s2) = read_preamble (int off) (st\<lparr>image_offset := int off\<rparr>) s1;
          (b2, s3) = py_read 24 s2 in
      rbind (unpack_item_ids b2) (\<lambda>(lib, trk, imethod, iformat).
      rbind (reconcile_library lib st1) (\<lambda>st2.
      rbind (reconcile_track trk st2) (\<lambda>st3.
      let method = decode_method imethod;
          format = decode_format iformat in
      rbind (py_seek_cur 4 s3) (\<lambda>s4.
      let (b3, s5) = py_read 8 s4 in
      rbind (unpack_wh b3) (\<lambda>(width, height).
      let image_pos = int start + image_offset st3 - 8 in
      rbind (py_seek image_pos s5) (\<lambda>s6.
      let data_size = int fsize - image_offset st3 in
      rbind (read_payload list_only data_size s6) (\<lambda>(data, s7).
      Inr (st3\<lparr>images := images st3 @
             [\<lparr>img_width = int width, img_height = int height, img_data = data,
               img_format = format, img_method = method, img_len = data_size\<rparr>]\<rparr>,
           s7))))))))))"

subsection \<open>Frame dispatch\<close>

definition parse_artw :: "itc \<Rightarrow> stream \<Rightarrow> error + (itc \<times> stream)" where
  "parse_artw st s = rbind (py_seek_cur 256 s) (\<lambda>s1. Inr (st, s1))"

function handle_frame :: "bool \<Rightarrow> bytes \<Rightarrow> nat \<Rightarrow> itc \<Rightarrow> stream \<Rightarrow> error + (itc \<times> stream)"
  and parse_itch :: "bool \<Rightarrow> bytes \<Rightarrow> nat \<Rightarrow> itc \<Rightarrow> stream \<Rightarrow> error + (itc \<times> stream)" where
  "handle_frame list_only frame fsize st s =
     (if frame = tag_itch then parse_itch list_only frame fsize st s
      else if frame = tag_artw then parse_artw st s
      else if frame = tag_item then parse_item list_only fsize st s
      else Inr (st, s))"
| "parse_itch list_only frame fsize st s =
     rbind (py_seek_cur 16 s) (\<lambda>s1.
     rbind (unpack_str 4 (fst (py_read 4 s1))) (\<lambda>subframe.
     handle_frame list_only subframe fsize st (snd (py_read 4 s1))))"
  by pat_completeness auto
termination
proof (relation "measure (\<lambda>x. case x of
          Inl (lo, f, sz, st, s) \<Rightarrow> 2 * (length (content s) - pos s) + 1
        | Inr (lo, f, sz, st, s) \<Rightarrow> 2 * (length (content s) - pos s))")
  fix list_only frame fsize st s s1 subframe
  assume seek: "py_seek_cur 16 s = Inr s1"
    and tag: "unpack_str 4 (fst (py_read 4 s1)) = Inr subframe"
  have s1: "s1 = s\<lparr>pos := pos s + 16\<rparr>"
    using seek by simp
  then have c1: "content s1 = content s"
    by simp
  have four: "length (fst (py_read 4 s1)) = 4"
    using tag by (simp add: unpack_str_def split: if_splits)
  then have "pos s1 + 4 \<le> length (content s1)"
    by (simp add: py_read_def Let_def)
  moreover have "pos (snd (py_read 4 s1)) = pos s1 + 4"
    using four py_read_pos [of 4 s1] by simp
  ultimately show "(Inl (list_only, subframe, fsize, st, snd (py_read 4 s1)),
                    Inr (list_only, frame, fsize, st, s))
                   \<in> measure (\<lambda>x. case x of
                        Inl (lo, f, sz, st, s) \<Rightarrow> 2 * (length (content s) - pos s) + 1
                      | Inr (lo, f, sz, st, s) \<Rightarrow> 2 * (length (content s) - pos s))"
    using s1 c1 by simp
qed simp_all

definition unpack_frame_header :: "bytes \<Rightarrow> error + (nat \<times> bytes)" where
  "unpack_frame_header b =
     (if length b = 8 then Inr (be_val (take 4 b), drop 4 b) else Inl StructError)"

text \<open>\<open>_read_frame\<close>: \<open>True\<close> when fewer than 8 bytes were left (the loop ends).\<close>

definition read_frame :: "bool \<Rightarrow> itc \<Rightarrow> stream \<Rightarrow> error + (bool \<times> itc \<times> stream)" where
  "read_frame list_only st s =
     (let (data, s1) = py_read 8 s in
      if length data = 8 then
        rbind (unpack_frame_header data) (\<lambda>(fsize, frame).
        rbind (handle_frame list_only frame fsize st s1) (\<lambda>(st', s'). Inr (False, st', s')))
      else Inr (True, st, s1))"

subsection \<open>The read loop\<close>

partial_function (option) read_loop ::
  "bool \<Rightarrow> itc \<Rightarrow> stream \<Rightarrow> (error + itc \<times> stream) option" where
  "read_loop list_only st s =
     (case read_frame list_only st s of
        Inl e \<Rightarrow> Some (Inl e)
      | Inr (done, st', s') \<Rightarrow> if done then Some (Inr (st', s')) else read_loop list_only st' s')"

declare read_loop.simps [code]

text \<open>
  \<open>read(filename, list_only)\<close>: the attributes it resets, the file opened
  (\<open>IOError\<close> if it does not exist), the loop. \<open>None\<close>: the call never returns.
\<close>

definition itc_read :: "fs \<Rightarrow> string \<Rightarrow> bool \<Rightarrow> itc \<Rightarrow> (error + itc) option" where
  "itc_read fs filename list_only st =
     (let st0 = st\<lparr>itc_filename := filename, library := None, track := None, images := []\<rparr> in
      case fs filename of
        None \<Rightarrow> Some (Inl IOError)
      | Some c \<Rightarrow> map_option (map_sum id fst) (read_loop list_only st0 \<lparr>content = c, pos = 0\<rparr>))"

section \<open>Characteristic equations of the reader\<close>

lemma tag_neqs [simp]: "tag_item \<noteq> tag_itch" "tag_item \<noteq> tag_artw" "tag_artw \<noteq> tag_itch"
  by (simp_all add: itc_tags)

lemma handle_frame_artw [simp]:
  "handle_frame lo tag_artw fsize st s = Inr (st, s\<lparr>pos := pos s + 256\<rparr>)"
  by (simp add: handle_frame.simps parse_artw_def)

lemma handle_frame_item [simp]:
  "handle_frame lo tag_item fsize st s = parse_item lo fsize st s"
  by (simp add: handle_frame.simps)

lemma handle_frame_other:
  "frame \<noteq> tag_itch \<Longrightarrow> frame \<noteq> tag_artw \<Longrightarrow> frame \<noteq> tag_item \<Longrightarrow>
   handle_frame lo frame fsize st s = Inr (st, s)"
  by (simp add: handle_frame.simps)

lemma unpack_frame_header_be:
  "length frame = 4 \<Longrightarrow> fsize < 2 ^ 32 \<Longrightarrow>
   unpack_frame_header (be_bytes 4 fsize @ frame) = Inr (fsize, frame)"
  by (simp add: unpack_frame_header_def)

declare handle_frame.simps [simp del] parse_itch.simps [simp del]

lemma read_frame_at:
  assumes "drop (pos s) (content s) = be_bytes 4 fsize @ frame @ rest"
    and "length frame = 4" and "fsize < 2 ^ 32"
  shows "read_frame lo st s =
         rbind (handle_frame lo frame fsize st (s\<lparr>pos := pos s + 8\<rparr>)) (\<lambda>(st', s'). Inr (False, st', s'))"
proof -
  have "py_read 8 s = (be_bytes 4 fsize @ frame, s\<lparr>pos := pos s + 8\<rparr>)"
    using py_read_at_numeral [of s "be_bytes 4 fsize @ frame" rest] assms by simp
  with assms show ?thesis
    by (simp add: read_frame_def unpack_frame_header_be)
qed

lemma read_frame_end:
  assumes "length (content s) < pos s + 8"
  shows "read_frame lo st s = Inr (True, st, snd (py_read 8 s))"
proof -
  have "length (fst (py_read 8 s)) \<noteq> 8"
    using assms by (simp add: py_read_def Let_def)
  then show ?thesis
    by (simp add: read_frame_def case_prod_beta)
qed

lemma read_loop_continue:
  "read_frame lo st s = Inr (False, st', s') \<Longrightarrow> read_loop lo st s = read_loop lo st' s'"
  by (subst read_loop.simps) simp

lemma read_loop_stop:
  "read_frame lo st s = Inr (True, st', s') \<Longrightarrow> read_loop lo st s = Some (Inr (st', s'))"
  by (subst read_loop.simps) simp

lemma read_loop_error:
  "read_frame lo st s = Inl e \<Longrightarrow> read_loop lo st s = Some (Inl e)"
  by (subst read_loop.simps) simp

lemma unpack_item_ids_be:
  "lib < 2 ^ 64 \<Longrightarrow> trk < 2 ^ 64 \<Longrightarrow> length m = 4 \<Longrightarrow> length f = 4 \<Longrightarrow>
   unpack_item_ids (be_bytes 8 lib @ be_bytes 8 trk @ m @ f) = Inr (lib, trk, m, f)"
  by (simp add: unpack_item_ids_def)

lemma unpack_wh_be:
  "w < 2 ^ 32 \<Longrightarrow> h < 2 ^ 32 \<Longrightarrow> unpack_wh (be_bytes 4 w @ be_bytes 4 h) = Inr (w, h)"
  by (simp add: unpack_wh_def)

text \<open>Both checks, as an update that leaves an agreeing id unchanged.\<close>

lemma reconcile_library_eq:
  "reconcile_library l st =
     (if library st \<noteq> None \<and> library st \<noteq> Some l then Inl (ITCWarning MultipleLibraryIds)
      else Inr (st\<lparr>library := Some l\<rparr>))"
  by (cases "library st") (auto simp: reconcile_library_def)

lemma reconcile_track_eq:
  "reconcile_track t st =
     (if track st \<noteq> None \<and> track st \<noteq> Some t then Inl (ITCWarning MultipleTrackIds)
      else Inr (st\<lparr>track := Some t\<rparr>))"
  by (cases "track st") (auto simp: reconcile_track_def)

lemma read_preamble_item:
  assumes "drop (pos s) (content s) = pre @ rest"
    and "(off = 208 \<and> length pre = 16) \<or> (off = 216 \<and> length pre = 20) \<or>
         (off \<noteq> 208 \<and> off \<noteq> 216 \<and> pre = [])"
  shows "read_preamble (int off) st s =
           (st\<lparr>info_preamble := (if pre = [] then info_preamble st else Some pre)\<rparr>,
            s\<lparr>pos := pos s + length pre\<rparr>)"
  using assms py_read_at_numeral [of s pre rest]
  by (auto simp add: read_preamble_def ITUNES_9_def ITUNES_OLD_def)

text \<open>
  \<open>_parse_item\<close> on an item whose header fields follow the position: the
  reads up to the width and height, leaving the id checks, the seek and the
  payload.
\<close>

lemma parse_item_prefix:
  assumes at: "drop (pos s) (content s) = be_bytes 4 off @ pre @ ids @ skip @ wh @ rest"
    and off: "off < 2 ^ 32"
    and pre: "read_preamble (int off) (st\<lparr>image_offset := int off\<rparr>) (s\<lparr>pos := pos s + 4\<rparr>)
              = (st1, s\<lparr>pos := pos s + 4 + length pre\<rparr>)"
    and ids: "length ids = 24" "unpack_item_ids ids = Inr (lib, trk, imethod, iformat)"
    and skip: "length skip = 4"
    and wh: "length wh = 8" "unpack_wh wh = Inr (w, h)"
  shows "parse_item lo fsize st s =
    rbind (reconcile_library lib st1) (\<lambda>st2.
    rbind (reconcile_track trk st2) (\<lambda>st3.
    rbind (py_seek (int (pos s) + image_offset st3 - 8) (s\<lparr>pos := pos s + 4 + length pre + 36\<rparr>)) (\<lambda>s6.
    rbind (read_payload lo (int fsize - image_offset st3) s6) (\<lambda>(d, s7).
    Inr (st3\<lparr>images := images st3 @
           [\<lparr>img_width = int w, img_height = int h, img_data = d,
             img_format = decode_format iformat, img_method = decode_method imethod,
             img_len = int fsize - image_offset st3\<rparr>]\<rparr>, s7)))))"
proof -
  let ?s1 = "s\<lparr>pos := pos s + 4\<rparr>"
  let ?s2 = "s\<lparr>pos := pos s + 4 + length pre\<rparr>"
  let ?s4 = "s\<lparr>pos := pos s + 4 + length pre + 24 + 4\<rparr>"
  have r1: "py_read 4 s = (be_bytes 4 off, ?s1)"
    using py_read_at_numeral [OF at] by simp
  have d1: "drop (pos ?s1) (content ?s1) = pre @ ids @ skip @ wh @ rest"
    using drop_pos_shift [OF at] by simp
  have u1: "unpack_uint 4 (be_bytes 4 off) = Inr off"
    using off by (simp add: unpack_uint_def)
  have d2: "drop (pos ?s2) (content ?s2) = ids @ skip @ wh @ rest"
    using drop_pos_shift [OF d1] by (simp add: add.assoc)
  have r3: "py_read 24 ?s2 = (ids, ?s2\<lparr>pos := pos ?s2 + 24\<rparr>)"
    using py_read_at_numeral [OF d2] ids by simp
  have d3: "drop (pos ?s2 + 24) (content s) = skip @ wh @ rest"
    using drop_pos_shift [OF d2] ids by simp
  have d4: "drop (pos ?s4) (content ?s4) = wh @ rest"
    using drop_pos_shift [OF d3] skip by (simp add: add.assoc)
  have r5: "py_read 8 ?s4 = (wh, s\<lparr>pos := pos s + 4 + length pre + 36\<rparr>)"
    using py_read_at_numeral [OF d4] wh by simp
  show ?thesis
    using r1 u1 pre r3 r5 ids wh by (simp add: parse_item_def Let_def)
qed

lemma read_payload_within:
  assumes "pos s + n \<le> length (content s)"
  shows "read_payload lo (int n) s =
           Inr (if lo then None else Some (take n (drop (pos s) (content s))), s\<lparr>pos := pos s + n\<rparr>)"
  using assms by (simp add: read_payload_def py_read_def)

text \<open>
  \<open>_read_frame\<close> on an item frame laid out at the position, on every branch:
  a library id, then a track id, that differs from the one already read raises
  \<open>ITCWarning\<close>; otherwise the payload is taken from the frame's start plus the
  image offset and the record is appended.
\<close>

lemma read_frame_item:
  assumes at: "drop (pos s) (content s) = be_bytes 4 fsize @ tag_item @ be_bytes 4 off @ pre @
               be_bytes 8 lib @ be_bytes 8 trk @ m @ f @ skip @ be_bytes 4 w @ be_bytes 4 h @ rest"
    and pre: "(off = 208 \<and> length pre = 16) \<or> (off = 216 \<and> length pre = 20) \<or>
              (off \<noteq> 208 \<and> off \<noteq> 216 \<and> pre = [])"
    and sz: "fsize < 2 ^ 32" "off < 2 ^ 32"
    and ids: "lib < 2 ^ 64" "trk < 2 ^ 64" "length m = 4" "length f = 4"
    and skip: "length skip = 4"
    and wh: "w < 2 ^ 32" "h < 2 ^ 32"
  shows "read_frame lo st s =
    (if library st \<noteq> None \<and> library st \<noteq> Some lib then Inl (ITCWarning MultipleLibraryIds)
     else if track st \<noteq> None \<and> track st \<noteq> Some trk then Inl (ITCWarning MultipleTrackIds)
     else rbind (read_payload lo (int fsize - int off) (s\<lparr>pos := pos s + off\<rparr>)) (\<lambda>(d, s').
       Inr (False, st\<lparr>image_offset := int off,
                      info_preamble := (if pre = [] then info_preamble st else Some pre),
                      library := Some lib, track := Some trk,
                      images := images st @
                        [\<lparr>img_width = int w, img_height = int h, img_data = d,
                          img_format = decode_format f, img_method = decode_method m,
                          img_len = int fsize - int off\<rparr>]\<rparr>, s')))"
proof -
  let ?s8 = "s\<lparr>pos := pos s + 8\<rparr>"
  have "drop (pos s) (content s) = (be_bytes 4 fsize @ tag_item) @ be_bytes 4 off @ pre @
          (be_bytes 8 lib @ be_bytes 8 trk @ m @ f) @ skip @ (be_bytes 4 w @ be_bytes 4 h) @ rest"
    using at by simp
  from drop_pos_shift [OF this]
  have at8: "drop (pos ?s8) (content ?s8) = be_bytes 4 off @ pre @
               (be_bytes 8 lib @ be_bytes 8 trk @ m @ f) @ skip @ (be_bytes 4 w @ be_bytes 4 h) @ rest"
    by (simp add: itc_tags)
  have "drop (pos (?s8\<lparr>pos := pos ?s8 + 4\<rparr>)) (content (?s8\<lparr>pos := pos ?s8 + 4\<rparr>)) =
          pre @ (be_bytes 8 lib @ be_bytes 8 trk @ m @ f @ skip @ be_bytes 4 w @ be_bytes 4 h @ rest)"
    using drop_pos_shift [OF at8, of 4] by simp
  from read_preamble_item [OF this pre, of "st\<lparr>image_offset := int off\<rparr>"]
  have r: "read_preamble (int off) (st\<lparr>image_offset := int off\<rparr>) (?s8\<lparr>pos := pos ?s8 + 4\<rparr>) =
             (st\<lparr>image_offset := int off, info_preamble := (if pre = [] then info_preamble st else Some pre)\<rparr>,
              ?s8\<lparr>pos := pos ?s8 + 4 + length pre\<rparr>)"
    by simp
  have lens: "length (be_bytes 8 lib @ be_bytes 8 trk @ m @ f) = 24" "length (be_bytes 4 w @ be_bytes 4 h) = 8"
    using ids by simp_all
  have seek: "py_seek (int (pos s) + int off) s' = Inr (s'\<lparr>pos := pos s + off\<rparr>)" for s' :: stream
    using py_seek_nat [of "pos s + off" s'] by simp
  have tl: "length tag_item = 4" by (simp add: itc_tags)
  show ?thesis
    using read_frame_at [OF at tl sz(1)]
      parse_item_prefix [OF at8 sz(2) r lens(1) unpack_item_ids_be [OF ids] skip lens(2) unpack_wh_be [OF wh],
        of lo fsize]
    by (simp add: reconcile_library_eq reconcile_track_eq seek case_prod_unfold)
qed

lemma handle_frame_itch_at:
  assumes "drop (pos s) (content s) = skip @ sub @ rest" "length skip = 16" "length sub = 4"
  shows "handle_frame lo tag_itch fsize st s = handle_frame lo sub fsize st (s\<lparr>pos := pos s + 20\<rparr>)"
proof -
  have "drop (pos s + 16) (content s) = sub @ rest"
    using drop_pos_shift [OF assms(1)] assms(2) by simp
  then have "py_read 4 (s\<lparr>pos := pos s + 16\<rparr>) = (sub, s\<lparr>pos := pos s + 20\<rparr>)"
    using py_read_at [of "s\<lparr>pos := pos s + 16\<rparr>" sub rest 4] assms(3) by simp
  then show ?thesis
    using assms(3) by (simp add: handle_frame.simps [of lo tag_itch] parse_itch.simps unpack_str_def)
qed

lemma read_frame_item_size_zero:
  assumes at: "drop (pos s) (content s) = be_bytes 4 0 @ tag_item @ be_bytes 4 off @ pre @
               be_bytes 8 lib @ be_bytes 8 trk @ m @ f @ skip @ be_bytes 4 w @ be_bytes 4 h @ rest"
    and pre: "(off = 208 \<and> length pre = 16) \<or> (off = 216 \<and> length pre = 20) \<or>
              (off \<noteq> 208 \<and> off \<noteq> 216 \<and> pre = [])"
    and off: "off < 2 ^ 32"
    and ids: "lib < 2 ^ 64" "trk < 2 ^ 64" "length m = 4" "length f = 4"
    and skip: "length skip = 4"
    and wh: "w < 2 ^ 32" "h < 2 ^ 32"
    and same: "library st = None \<or> library st = Some lib" "track st = None \<or> track st = Some trk"
    and mode: "lo \<or> off = 0"
  shows "\<exists>st'. read_frame lo st s = Inr (False, st', s) \<and> library st' = Some lib \<and> track st' = Some trk"
proof -
  have "read_payload lo (int 0 - int off) (s\<lparr>pos := pos s + off\<rparr>) = Inr (if lo then None else Some [], s)"
    using mode by (auto simp: read_payload_def py_seek_cur_def py_seek_def py_read_def)
  then show ?thesis
    using read_frame_item [OF at pre _ off ids skip wh, of lo st] same by auto
qed

text \<open>
  The loop does not return when, from a position, every state of a class reads a
  frame that leaves the position unchanged and the state in the class.
\<close>

lemma read_loop_diverges:
  assumes step: "\<And>st. P st \<Longrightarrow> \<exists>st'. read_frame lo st s = Inr (False, st', s) \<and> P st'"
    and P: "P st"
  shows "read_loop lo st s = None"
proof (rule ccontr)
  assume "read_loop lo st s \<noteq> None"
  then obtain y where y: "read_loop lo st s = Some y" by blast
  have "lo' = lo \<longrightarrow> s' = s \<longrightarrow> \<not> P st'" if "read_loop lo' st' s' = Some y'" for lo' st' s' y'
  proof (rule read_loop.raw_induct [where P = "\<lambda>lo' st' s' y'. lo' = lo \<longrightarrow> s' = s \<longrightarrow> \<not> P st'", OF _ that])
    fix f lo' st' s' y'
    assume IH: "\<And>l0 t0 u0 y0. f l0 t0 u0 = Some y0 \<Longrightarrow> l0 = lo \<longrightarrow> u0 = s \<longrightarrow> \<not> P t0"
      and eq: "(case read_frame lo' st' s' of Inl e \<Rightarrow> Some (Inl e)
               | Inr (done, st'', s'') \<Rightarrow> if done then Some (Inr (st'', s'')) else f lo' st'' s'') = Some y'"
    show "lo' = lo \<longrightarrow> s' = s \<longrightarrow> \<not> P st'"
    proof (intro impI notI)
      assume "lo' = lo" "s' = s" "P st'"
      then obtain st'' where "read_frame lo' st' s' = Inr (False, st'', s')" "P st''"
        using step by blast
      with eq have "f lo' st'' s' = Some y'" by simp
      with IH \<open>lo' = lo\<close> \<open>s' = s\<close> have "\<not> P st''" by blast
      with \<open>P st''\<close> show False by blast
    qed
  qed
  with y P show False by blast
qed

subsection \<open>Properties of the reader\<close>

text \<open>
  C4. Reading does not terminate on a file holding an item frame that declares
  size 0, in list-only mode for any image offset and in full mode when the offset
  is 0, provided its library and track ids agree with those already read: the
  frame's size is never checked, \<open>_parse_item\<close> seeks back to the frame's start
  and \<open>read\<close> loops forever.
\<close>

theorem read_loop_size_zero_item_diverges:
  assumes at: "drop (pos s) (content s) = be_bytes 4 0 @ tag_item @ be_bytes 4 off @ pre @
               be_bytes 8 lib @ be_bytes 8 trk @ m @ f @ skip @ be_bytes 4 w @ be_bytes 4 h @ rest"
    and pre: "(off = 208 \<and> length pre = 16) \<or> (off = 216 \<and> length pre = 20) \<or>
              (off \<noteq> 208 \<and> off \<noteq> 216 \<and> pre = [])"
    and off: "off < 2 ^ 32"
    and ids: "lib < 2 ^ 64" "trk < 2 ^ 64" "length m = 4" "length f = 4"
    and skip: "length skip = 4"
    and wh: "w < 2 ^ 32" "h < 2 ^ 32"
    and same: "library st = None \<or> library st = Some lib" "track st = None \<or> track st = Some trk"
    and mode: "lo \<or> off = 0"
  shows "read_loop lo st s = None"
proof (rule read_loop_diverges)
  let ?P = "\<lambda>st. (library st = None \<or> library st = Some lib) \<and> (track st = None \<or> track st = Some trk)"
  show "?P st" using same by blast
  fix st0 :: itc assume "?P st0"
  then show "\<exists>st'. read_frame lo st0 s = Inr (False, st', s) \<and> ?P st'"
    using read_frame_item_size_zero [OF at pre off ids skip wh _ _ mode] by blast
qed

end
