(* ===== verification/ITC_Writer.thy ===== *)
theory ITC_Writer
  imports ITC_Model
begin

text \<open>
  The container writer of \<open>ITCFile\<close> (\<open>write\<close>, \<open>_write_image\<close>). Every
  exception of \<open>_write_image\<close> is raised before it writes anything, so one image
  is one piece of output or one exception; \<open>write\<close> has already opened
  (truncated) the file and written the root header when an image raises, so the
  file keeps what was written before: the result is the new file system together
  with the exception, if any.
\<close>

text \<open>\<open>struct.pack('!L0004sLLLL0004s', 284, 'itch', 2, 2, 2, 0, 'artw')\<close>.\<close>

definition root_header :: bytes where
  "root_header = be_bytes 4 284 @ tag_itch @ be_bytes 4 2 @ be_bytes 4 2 @ be_bytes 4 2
                 @ be_bytes 4 0 @ tag_artw"

definition get_preamble :: "itc \<Rightarrow> error + bytes" where
  "get_preamble st = (case info_preamble st of None \<Rightarrow> Inl AttributeError | Some p \<Rightarrow> Inr p)"

text \<open>The item header of \<open>_write_image\<close>, from its already packed fields.\<close>

definition item_header :: "bytes \<Rightarrow> bytes \<Rightarrow> bytes \<Rightarrow> bytes \<Rightarrow> bytes \<Rightarrow> bytes \<Rightarrow> bytes
                           \<Rightarrow> bytes \<Rightarrow> bytes \<Rightarrow> bytes" where
  "item_header b_size b_off pre b_lib b_trk imethod iformat b_w b_h =
     b_size @ tag_item @ b_off @ pre @ b_lib @ b_trk @ pack_str 4 imethod @ pack_str 4 iformat
     @ nuls 4 @ b_w @ b_h @ nuls 3 @ b_w @ b_h"

definition write_image :: "itc \<Rightarrow> nat \<Rightarrow> image \<Rightarrow> error + bytes" where
  "write_image st num info =
     (case img_data info of
        None \<Rightarrow> Inl (ITCWarning (NoImageData (num + 1)))
      | Some image_data \<Rightarrow>
     rbind (encode_format (img_format info)) (\<lambda>iformat.
     rbind (encode_method (img_method info)) (\<lambda>imethod.
     let image_len = img_len info;
         fsize = image_len + image_offset st in
     rbind (pack_u32 fsize) (\<lambda>b_size.
     rbind (pack_u32 (image_offset st)) (\<lambda>b_off.
     rbind (get_preamble st) (\<lambda>pre.
     rbind (pack_opt_u64 (library st)) (\<lambda>b_lib.
     rbind (pack_opt_u64 (track st)) (\<lambda>b_trk.
     rbind (pack_u32 (img_width info)) (\<lambda>b_w.
     rbind (pack_u32 (img_height info)) (\<lambda>b_h.
     let hdr = item_header b_size b_off pre b_lib b_trk imethod iformat b_w b_h in
     Inr (hdr @ nuls (image_offset st - int (length hdr) - 4) @ pack_str 4 tag_data
          @ (if image_offset st = ITUNES_OLD then nuls 4 else [])
          @ image_data)))))))))))"

definition itc_write :: "itc \<Rightarrow> string \<Rightarrow> fs \<Rightarrow> fs \<times> error option" where
  "itc_write st filename fs =
     (let fname = (if filename = [] then itc_filename st else filename) in
      if fname = [] then (fs, Some (ITCException NoFilename))
      else
        (let (out, err) = run_writes ([Inr root_header, Inr (nuls 256)]
                            @ map (\<lambda>(x, info). write_image st x info) (enumerate 0 (images st)))
         in (fs(fname \<mapsto> out), err)))"

section \<open>Characteristic lemmas of the writer\<close>

lemma length_item_header:
  assumes "length b_size = 4" "length b_off = 4" "length b_lib = 8" "length b_trk = 8"
    "length b_w = 4" "length b_h = 4"
  shows "length (item_header b_size b_off pre b_lib b_trk imethod iformat b_w b_h) = 59 + length pre"
  using assms by (simp add: item_header_def tag_item_def bstr_def nuls_def)

lemma write_image_Inr:
  assumes data: "img_data info = Some d"
    and fmt: "encode_format (img_format info) = Inr iformat"
    and meth: "encode_method (img_method info) = Inr imethod"
    and pre: "info_preamble st = Some pre"
    and lib: "library st = Some lib" "lib < 2 ^ 64"
    and trk: "track st = Some trk" "trk < 2 ^ 64"
    and off: "0 \<le> image_offset st" "image_offset st < 2 ^ 32"
    and fsize: "0 \<le> img_len info + image_offset st" "img_len info + image_offset st < 2 ^ 32"
    and w: "0 \<le> img_width info" "img_width info < 2 ^ 32"
    and h: "0 \<le> img_height info" "img_height info < 2 ^ 32"
  shows "write_image st num info =
    Inr (item_header (be_bytes 4 (nat (img_len info + image_offset st))) (be_bytes 4 (nat (image_offset st)))
           pre (be_bytes 8 lib) (be_bytes 8 trk) imethod iformat
           (be_bytes 4 (nat (img_width info))) (be_bytes 4 (nat (img_height info)))
         @ nuls (image_offset st - int (length pre) - 63) @ tag_data
         @ (if image_offset st = ITUNES_OLD then nuls 4 else []) @ d)"
proof -
  have l: "int lib < 2 ^ 64" and t: "int trk < 2 ^ 64"
    using lib trk by (metis of_nat_less_iff of_nat_numeral of_nat_power)+
  let ?hdr = "item_header (be_bytes 4 (nat (img_len info + image_offset st))) (be_bytes 4 (nat (image_offset st)))
           pre (be_bytes 8 lib) (be_bytes 8 trk) imethod iformat
           (be_bytes 4 (nat (img_width info))) (be_bytes 4 (nat (img_height info)))"
  have p1: "pack_u32 (img_len info + image_offset st) = Inr (be_bytes 4 (nat (img_len info + image_offset st)))"
    using fsize by (simp add: pack_uint_def)
  have p2: "pack_u32 (image_offset st) = Inr (be_bytes 4 (nat (image_offset st)))"
    using off by (simp add: pack_uint_def)
  have p3: "pack_opt_u64 (library st) = Inr (be_bytes 8 lib)"
    using lib l by (simp add: pack_opt_u64_def pack_uint_def)
  have p4: "pack_opt_u64 (track st) = Inr (be_bytes 8 trk)"
    using trk t by (simp add: pack_opt_u64_def pack_uint_def)
  have p5: "pack_u32 (img_width info) = Inr (be_bytes 4 (nat (img_width info)))"
    using w by (simp add: pack_uint_def)
  have p6: "pack_u32 (img_height info) = Inr (be_bytes 4 (nat (img_height info)))"
    using h by (simp add: pack_uint_def)
  have g: "get_preamble st = Inr pre"
    using pre by (simp add: get_preamble_def)
  have pad: "image_offset st - int (length ?hdr) - 4 = image_offset st - int (length pre) - 63"
    by (simp add: length_item_header)
  have td: "pack_str 4 tag_data = tag_data"
    by (simp add: tag_data_def bstr_def)
  show ?thesis
    unfolding write_image_def
    by (simp only: data fmt meth p1 p2 p3 p4 p5 p6 g pad td Let_def option.case rbind_Inr)
qed


lemma pack_str_tag_data: "pack_str 4 tag_data = tag_data"
  by (simp add: tag_data_def bstr_def)

lemma write_image_shape:
  assumes "write_image st num info = Inr F"
  obtains d pre b_size b_off b_lib b_trk imethod iformat b_w b_h where
    "img_data info = Some d" "info_preamble st = Some pre"
    "pack_u32 (img_len info + image_offset st) = Inr b_size"
    "pack_u32 (image_offset st) = Inr b_off"
    "pack_opt_u64 (library st) = Inr b_lib" "pack_opt_u64 (track st) = Inr b_trk"
    "encode_method (img_method info) = Inr imethod" "encode_format (img_format info) = Inr iformat"
    "pack_u32 (img_width info) = Inr b_w" "pack_u32 (img_height info) = Inr b_h"
    "F = item_header b_size b_off pre b_lib b_trk imethod iformat b_w b_h
         @ nuls (image_offset st - int (length pre) - 63) @ tag_data
         @ (if image_offset st = ITUNES_OLD then nuls 4 else []) @ d"
proof -
  from assms obtain d where d: "img_data info = Some d"
    by (cases "img_data info") (simp_all add: write_image_def)
  from assms d show ?thesis
    apply (simp add: write_image_def rbind_eq_Inr_iff get_preamble_def Let_def
        split: option.splits)
    apply (elim exE conjE)
    apply (rule that)
    apply (simp_all add: length_item_header pack_uint_length pack_opt_u64_def
        pack_str_tag_data split del: if_split split: option.splits)
    apply (rule sym, assumption)
    done
qed

lemma write_image_layout:
  assumes "write_image st num info = Inr F" "img_data info = Some d" "info_preamble st = Some pre"
    and "int (length pre) + 63 \<le> image_offset st"
  shows "length F = nat (image_offset st) + (if image_offset st = ITUNES_OLD then 4 else 0) + length d"
    and "drop (nat (image_offset st)) F = (if image_offset st = ITUNES_OLD then nuls 4 else []) @ d"
    and "take 4 F = be_bytes 4 (nat (img_len info + image_offset st))"
    and "0 \<le> img_len info + image_offset st \<and> img_len info + image_offset st < 2 ^ 32"
proof -
  obtain b_size b_off b_lib b_trk imethod iformat b_w b_h where
    p: "pack_u32 (img_len info + image_offset st) = Inr b_size"
       "pack_u32 (image_offset st) = Inr b_off"
       "pack_opt_u64 (library st) = Inr b_lib" "pack_opt_u64 (track st) = Inr b_trk"
       "pack_u32 (img_width info) = Inr b_w" "pack_u32 (img_height info) = Inr b_h"
    and F: "F = item_header b_size b_off pre b_lib b_trk imethod iformat b_w b_h
         @ nuls (image_offset st - int (length pre) - 63) @ tag_data
         @ (if image_offset st = ITUNES_OLD then nuls 4 else []) @ d"
    using write_image_shape [OF assms(1)] assms(2,3) by (metis option.inject)
  have lens: "length b_size = 4" "length b_off = 4" "length b_w = 4" "length b_h = 4"
    using p by (simp_all add: pack_uint_length)
  have lens8: "length b_lib = 8" "length b_trk = 8"
    using p(3,4) by (auto simp: pack_opt_u64_def pack_uint_length split: option.splits)
  let ?P = "item_header b_size b_off pre b_lib b_trk imethod iformat b_w b_h
         @ nuls (image_offset st - int (length pre) - 63) @ tag_data"
  have lenP: "length ?P = nat (image_offset st)"
    using lens lens8 assms(4) by (simp add: length_item_header nuls_def tag_data_def bstr_def)
  have "length F = length ?P + length (if image_offset st = ITUNES_OLD then nuls 4 else []) + length d"
    using F by simp
  then show "length F = nat (image_offset st) + (if image_offset st = ITUNES_OLD then 4 else 0) + length d"
    by (simp only: lenP) (simp add: nuls_def)
  show "drop (nat (image_offset st)) F = (if image_offset st = ITUNES_OLD then nuls 4 else []) @ d"
    using F lenP by simp
  show "take 4 F = be_bytes 4 (nat (img_len info + image_offset st))"
    using F lens p(1) by (simp add: item_header_def pack_uint_Inr)
  show "0 \<le> img_len info + image_offset st \<and> img_len info + image_offset st < 2 ^ 32"
    using p(1) by (simp add: pack_uint_Inr)
qed

text \<open>
  The exceptions of \<open>_write_image\<close> in the order it raises them: an
  unwritable format, and, once the size and offset are packed, a container whose
  \<open>info_preamble\<close> attribute was never set.
\<close>

lemma write_image_format_error:
  "img_data i = Some d \<Longrightarrow> encode_format (img_format i) = Inl e \<Longrightarrow> write_image st n i = Inl e"
  by (simp add: write_image_def)

lemma write_image_no_preamble:
  assumes "img_data i = Some d" "encode_format (img_format i) = Inr f"
    "encode_method (img_method i) = Inr m" "info_preamble st = None"
    "0 \<le> img_len i + image_offset st" "img_len i + image_offset st < 2 ^ 32"
    "0 \<le> image_offset st" "image_offset st < 2 ^ 32"
  shows "write_image st n i = Inl AttributeError"
  using assms by (simp add: write_image_def pack_uint_def get_preamble_def)

section \<open>Properties of the writer\<close>

text \<open>
  C3. The size field that \<open>_write_image\<close> writes at the start of an item frame is
  the frame's length for the ITUNES_9 layout, but 4 less than it for the ITUNES_OLD
  layout, whose 4 extra zero bytes before the payload the size does not count.
\<close>

theorem write_image_declared_size:
  assumes "write_image st num info = Inr F" "img_data info = Some d"
    and "img_len info = int (length d)" "info_preamble st = Some pre"
    and "int (length pre) + 63 \<le> image_offset st"
  shows "length F = be_val (take 4 F) + (if image_offset st = ITUNES_OLD then 4 else 0)"
proof -
  note lay = write_image_layout [OF assms(1,2,4,5)]
  have "be_val (take 4 F) = nat (img_len info + image_offset st)"
    using lay(3,4) by (simp add: nat_less_iff)
  moreover have "nat (img_len info + image_offset st) = length d + nat (image_offset st)"
    using assms(3,5) by simp
  ultimately show ?thesis
    using lay(1) by simp
qed

lemma itc_write_fs:
  assumes "filename \<noteq> []"
  shows "fst (itc_write st filename fs) = fs(filename \<mapsto> root_header @ nuls 256 @
           fst (run_writes (map (\<lambda>(x, info). write_image st x info) (enumerate 0 (images st)))))"
proof -
  have "[Inr root_header, Inr (nuls 256)] @ ws = map Inr [root_header, nuls 256] @ ws" for ws :: "(error + bytes) list"
    by simp
  then show ?thesis
    using assms by (auto simp add: itc_write_def case_prod_beta del: map_append)
qed

text \<open>
  C14. Every file \<open>write\<close> creates is recognised by \<open>can_handle\<close>, also when
  \<open>write\<close> raised part way: the root frame is written before any image.
\<close>

theorem written_file_recognised:
  assumes "itc_write st filename fs = (fs', err)" "filename \<noteq> []"
  shows "can_handle fs' filename = Inr True"
proof -
  have "fs' filename = Some (root_header @ nuls 256 @
               fst (run_writes (map (\<lambda>(x, info). write_image st x info) (enumerate 0 (images st)))))"
    using itc_write_fs [OF assms(2), of st fs] assms(1) by simp
  then show ?thesis
    by (simp add: can_handle_def root_header_def itc_tags)
qed

theorem written_file_recognised_witness:
  "can_handle (fst (itc_write (itc_init ITUNES_9 True) ''a.itc'' Map.empty)) ''a.itc'' = Inr True"
  by (rule written_file_recognised [where err = "snd (itc_write (itc_init ITUNES_9 True) ''a.itc'' Map.empty)"]) simp_all

end
