(* ===== verification/ITC_Roundtrip.thy ===== *)
theory ITC_Roundtrip
  imports ITC_Reader ITC_Writer
begin

text \<open>
  Writing a container and reading it back. \<open>writable9\<close> and \<open>writable_image\<close>
  say when \<open>write\<close> raises nothing for an ITUNES_9 container (offset 208, a
  16-byte preamble, identifiers and sizes in the ranges \<open>struct\<close> accepts, a
  payload whose recorded length is its length, tags the writer knows);
  \<open>roundtrip_image\<close> is what the reader gives back for an image so written: the
  same record, with the format tag mapped through the writer's and the reader's
  tables (\<open>reread_format\<close>) and the payload dropped in list-only mode. The
  lemmas follow the reader over the writer's bytes: one frame, the loop over all
  frames, the root header.
\<close>

definition writable9 :: "itc \<Rightarrow> bool" where
  "writable9 st \<longleftrightarrow> image_offset st = ITUNES_9
     \<and> (case info_preamble st of Some p \<Rightarrow> length p = 16 | None \<Rightarrow> False)
     \<and> (case library st of Some l \<Rightarrow> l < 2 ^ 64 | None \<Rightarrow> False)
     \<and> (case track st of Some t \<Rightarrow> t < 2 ^ 64 | None \<Rightarrow> False)"

definition writable_layout :: "itc \<Rightarrow> bool" where
  "writable_layout st \<longleftrightarrow>
     (case info_preamble st of
        Some p \<Rightarrow> (image_offset st = ITUNES_9 \<and> length p = 16) \<or> (image_offset st = ITUNES_OLD \<and> length p = 20)
      | None \<Rightarrow> False)
     \<and> (case library st of Some l \<Rightarrow> l < 2 ^ 64 | None \<Rightarrow> False)
     \<and> (case track st of Some t \<Rightarrow> t < 2 ^ 64 | None \<Rightarrow> False)"

definition writable_image :: "image \<Rightarrow> bool" where
  "writable_image i \<longleftrightarrow>
     (case img_data i of Some d \<Rightarrow> img_len i = int (length d) \<and> length d + 208 < 2 ^ 32 | None \<Rightarrow> False)
     \<and> img_format i \<in> {FmtPNG, FmtJPG, FmtARGB} \<and> img_method i \<noteq> MethodNone
     \<and> 0 \<le> img_width i \<and> img_width i < 2 ^ 32 \<and> 0 \<le> img_height i \<and> img_height i < 2 ^ 32"

fun reread_format :: "image_format \<Rightarrow> image_format" where
  "reread_format FmtJPG = FmtJPEG"
| "reread_format FmtARGB = FmtNone"
| "reread_format f = f"

definition roundtrip_image :: "bool \<Rightarrow> image \<Rightarrow> image" where
  "roundtrip_image lo i =
     i\<lparr>img_data := (if lo then None else img_data i), img_format := reread_format (img_format i)\<rparr>"

section \<open>Reading what the writer wrote\<close>

lemma nuls4_eq: "replicate 4 (0 :: byte) = [0, 0, 0, 0]"
  by (simp add: numeral_eq_Suc)

lemma decode_encode_format:
  "encode_format f = Inr t \<Longrightarrow> decode_format (pack_str 4 t) = reread_format f"
  by (cases f) (auto simp: decode_format_def itc_tags pack_str_def nuls4_eq)

lemma decode_encode_method:
  "encode_method m = Inr t \<Longrightarrow> decode_method (pack_str 4 t) = m"
  by (cases m) (auto simp: decode_method_def itc_tags pack_str_def)

lemma encode_format_len: "encode_format f = Inr t \<Longrightarrow> length t \<le> 4"
  by (cases f) (auto simp: itc_tags)

lemma encode_method_len: "encode_method m = Inr t \<Longrightarrow> length t = 4"
  by (cases m) (auto simp: itc_tags)

lemma writable9E:
  assumes "writable9 st"
  obtains pre lib trk where "info_preamble st = Some pre" "length pre = 16"
    "library st = Some lib" "lib < 2 ^ 64" "track st = Some trk" "trk < 2 ^ 64"
    "image_offset st = 208"
  using assms by (auto simp: writable9_def ITUNES_9_def split: option.splits)

lemma writable_imageE:
  assumes "writable_image i"
  obtains d iformat imethod where "img_data i = Some d" "img_len i = int (length d)"
    "length d + 208 < 2 ^ 32"
    "encode_format (img_format i) = Inr iformat" "encode_method (img_method i) = Inr imethod"
    "0 \<le> img_width i" "img_width i < 2 ^ 32" "0 \<le> img_height i" "img_height i < 2 ^ 32"
proof -
  obtain iformat imethod where "encode_format (img_format i) = Inr iformat"
    and "encode_method (img_method i) = Inr imethod"
    using assms by (cases "img_format i"; cases "img_method i") (auto simp: writable_image_def)
  with assms that show ?thesis
    by (auto simp: writable_image_def split: option.splits)
qed

lemma writable_layoutE:
  assumes "writable_layout st"
  obtains pre lib trk off where "info_preamble st = Some pre"
    "(off = 208 \<and> length pre = 16) \<or> (off = 216 \<and> length pre = 20)"
    "library st = Some lib" "lib < 2 ^ 64" "track st = Some trk" "trk < 2 ^ 64"
    "image_offset st = int off"
  using assms by (auto simp: writable_layout_def ITUNES_9_def ITUNES_OLD_def split: option.splits)

text \<open>
  The item frame \<open>_write_image\<close> emits for a writable image: its fields, the
  zero padding up to \<open>data\<close>, the 4 extra zero bytes of ITUNES_OLD and the
  payload.
\<close>

lemma written_frame:
  assumes wf: "writable_layout st" "writable_image i"
    and d: "img_data i = Some d" and sz: "img_len i + image_offset st < 2 ^ 32"
    and wr: "write_image st n i = Inr F"
  obtains pre lib trk off iformat imethod where
    "info_preamble st = Some pre" "(off = 208 \<and> length pre = 16) \<or> (off = 216 \<and> length pre = 20)"
    "library st = Some lib" "lib < 2 ^ 64" "track st = Some trk" "trk < 2 ^ 64"
    "image_offset st = int off" "length d + off < 2 ^ 32"
    "encode_format (img_format i) = Inr iformat" "encode_method (img_method i) = Inr imethod"
    "F = (be_bytes 4 (length d + off) @ tag_item @ be_bytes 4 off @ pre @ be_bytes 8 lib @ be_bytes 8 trk
          @ pack_str 4 imethod @ pack_str 4 iformat @ nuls 4
          @ be_bytes 4 (nat (img_width i)) @ be_bytes 4 (nat (img_height i)) @ nuls 3
          @ be_bytes 4 (nat (img_width i)) @ be_bytes 4 (nat (img_height i))
          @ replicate (off - length pre - 63) 0 @ tag_data)
         @ (if off = 216 then nuls 4 else []) @ d"
proof -
  obtain pre lib trk off where pre: "info_preamble st = Some pre"
      "(off = 208 \<and> length pre = 16) \<or> (off = 216 \<and> length pre = 20)"
    and lib: "library st = Some lib" "lib < 2 ^ 64" and trk: "track st = Some trk" "trk < 2 ^ 64"
    and off: "image_offset st = int off"
    using wf(1) by (rule writable_layoutE)
  obtain d' iformat imethod where d': "img_data i = Some d'" "img_len i = int (length d')"
    and fmt: "encode_format (img_format i) = Inr iformat"
    and meth: "encode_method (img_method i) = Inr imethod"
    and w: "0 \<le> img_width i" "img_width i < 2 ^ 32" and h: "0 \<le> img_height i" "img_height i < 2 ^ 32"
    using wf(2) by (rule writable_imageE)
  have dd: "d' = d" using d d'(1) by simp
  have "nuls (int off - int (length pre) - 63) = replicate (off - length pre - 63) 0"
    using pre(2) by (auto simp: nuls_def)
  then have "F = (be_bytes 4 (length d + off) @ tag_item @ be_bytes 4 off @ pre @ be_bytes 8 lib @ be_bytes 8 trk
          @ pack_str 4 imethod @ pack_str 4 iformat @ nuls 4
          @ be_bytes 4 (nat (img_width i)) @ be_bytes 4 (nat (img_height i)) @ nuls 3
          @ be_bytes 4 (nat (img_width i)) @ be_bytes 4 (nat (img_height i))
          @ replicate (off - length pre - 63) 0 @ tag_data)
         @ (if off = 216 then nuls 4 else []) @ d"
    using write_image_Inr [OF d'(1) fmt meth pre(1) lib trk] wr off d' dd sz w h pre(2)
    by (auto simp: item_header_def nat_add_distrib ITUNES_OLD_def)
  moreover have "length d + off < 2 ^ 32"
    using sz off d'(2) dd by simp
  ultimately show ?thesis
    using that pre lib trk off fmt meth by blast
qed

lemma read_frame_written:
  assumes wf: "writable_layout st" "writable_image i"
    and d: "img_data i = Some d" and sz: "img_len i + image_offset st < 2 ^ 32"
    and wr: "write_image st n i = Inr F"
    and at: "drop (pos s) (content s) = F @ ys"
  shows "read_frame lo rst s =
           (if library rst \<notin> {None, library st} then Inl (ITCWarning MultipleLibraryIds)
            else if track rst \<notin> {None, track st} then Inl (ITCWarning MultipleTrackIds)
            else Inr (False, rst\<lparr>image_offset := image_offset st, info_preamble := info_preamble st,
                            library := library st, track := track st,
                            images := images rst @ [(roundtrip_image lo i)\<lparr>img_data :=
                               (if lo then None else Some (take (length d) (drop (nat (image_offset st)) F @ ys)))\<rparr>]\<rparr>,
                s\<lparr>pos := pos s + nat (image_offset st) + length d\<rparr>))"
proof -
  obtain pre lib trk off iformat imethod where pre: "info_preamble st = Some pre"
      "(off = 208 \<and> length pre = 16) \<or> (off = 216 \<and> length pre = 20)"
    and lib: "library st = Some lib" "lib < 2 ^ 64" and trk: "track st = Some trk" "trk < 2 ^ 64"
    and off: "image_offset st = int off" and szd: "length d + off < 2 ^ 32"
    and fmt: "encode_format (img_format i) = Inr iformat"
    and meth: "encode_method (img_method i) = Inr imethod"
    and F: "F = (be_bytes 4 (length d + off) @ tag_item @ be_bytes 4 off @ pre @ be_bytes 8 lib @ be_bytes 8 trk
          @ pack_str 4 imethod @ pack_str 4 iformat @ nuls 4
          @ be_bytes 4 (nat (img_width i)) @ be_bytes 4 (nat (img_height i)) @ nuls 3
          @ be_bytes 4 (nat (img_width i)) @ be_bytes 4 (nat (img_height i))
          @ replicate (off - length pre - 63) 0 @ tag_data)
         @ (if off = 216 then nuls 4 else []) @ d"
    by (rule written_frame [OF wf d sz wr])
  have w: "0 \<le> img_width i" "img_width i < 2 ^ 32" and h: "0 \<le> img_height i" "img_height i < 2 ^ 32"
    and dl: "img_len i = int (length d)"
    using wf(2) d by (auto simp: writable_image_def)
  let ?w = "nat (img_width i)" and ?h = "nat (img_height i)"
  have w': "?w < 2 ^ 32" and h': "?h < 2 ^ 32"
    using w h by (simp_all add: nat_less_iff)
  let ?wh = "be_bytes 4 ?w @ be_bytes 4 ?h"
  let ?old = "if off = 216 then nuls 4 else []"
  let ?P = "be_bytes 4 (length d + off) @ tag_item @ be_bytes 4 off @ pre @ be_bytes 8 lib @ be_bytes 8 trk
          @ pack_str 4 imethod @ pack_str 4 iformat @ nuls 4 @ be_bytes 4 ?w @ be_bytes 4 ?h @ nuls 3
          @ be_bytes 4 ?w @ be_bytes 4 ?h @ replicate (off - length pre - 63) 0 @ tag_data"
  have lenP: "length ?P = off"
    using pre(2) by (auto simp: nuls_def tag_item_def tag_data_def bstr_def)
  have dropF: "drop (nat (image_offset st)) F = ?old @ d"
    using F lenP off by simp
  have pad: "off - length pre - 63 \<ge> 129"
    using pre(2) by auto
  have at': "drop (pos s) (content s) = be_bytes 4 (length d + off) @ tag_item @ be_bytes 4 off @ pre @
               be_bytes 8 lib @ be_bytes 8 trk @ pack_str 4 imethod @ pack_str 4 iformat @ nuls 4 @ be_bytes 4 ?w @ be_bytes 4 ?h
               @ (nuls 3 @ ?wh @ replicate (off - length pre - 63) 0 @ tag_data @ ?old @ d @ ys)"
    using at F by simp
  have pre3: "(off = 208 \<and> length pre = 16) \<or> (off = 216 \<and> length pre = 20) \<or>
              (off \<noteq> 208 \<and> off \<noteq> 216 \<and> pre = [])"
    using pre(2) by blast
  have rf: "read_frame lo rst s =
      (if library rst \<noteq> None \<and> library rst \<noteq> Some lib then Inl (ITCWarning MultipleLibraryIds)
       else if track rst \<noteq> None \<and> track rst \<noteq> Some trk then Inl (ITCWarning MultipleTrackIds)
       else rbind (read_payload lo (int (length d + off) - int off) (s\<lparr>pos := pos s + off\<rparr>)) (\<lambda>(dt, s').
        Inr (False, rst\<lparr>image_offset := int off, info_preamble := Some pre,
                       library := Some lib, track := Some trk,
                       images := images rst @
                         [\<lparr>img_width = int ?w, img_height = int ?h, img_data = dt,
                           img_format = decode_format (pack_str 4 iformat),
                           img_method = decode_method (pack_str 4 imethod),
                           img_len = int (length d + off) - int off\<rparr>]\<rparr>, s')))"
    using read_frame_item [OF at' pre3 szd _ lib(2) trk(2) _ _ _ w' h', of lo rst] pre(2)
    by (auto simp: nuls_def off)
  have atP: "drop (pos s) (content s) = ?P @ (?old @ d @ ys)"
    using at F by simp
  then have atd: "drop (pos s + off) (content s) = ?old @ d @ ys"
    using lenP by (rule drop_pos_shift)
  let ?data = "take (length d) (?old @ d @ ys)"
  have "pos s + off + length d \<le> length (content s)"
  proof -
    have "off + length d \<le> length (drop (pos s) (content s))"
      using atP lenP by simp
    then show ?thesis using pre(2) by auto
  qed
  then have pay: "read_payload lo (int (length d + off) - int off) (s\<lparr>pos := pos s + off\<rparr>)
             = Inr (if lo then None else Some ?data, s\<lparr>pos := pos s + off + length d\<rparr>)"
    using read_payload_within [of "s\<lparr>pos := pos s + off\<rparr>" "length d" lo] atd pad
    by (auto simp: nuls_def)
  have img: "\<lparr>img_width = int ?w, img_height = int ?h, img_data = (if lo then None else Some ?data),
              img_format = decode_format (pack_str 4 iformat),
              img_method = decode_method (pack_str 4 imethod),
              img_len = int (length d + off) - int off\<rparr>
           = (roundtrip_image lo i)\<lparr>img_data := (if lo then None else Some ?data)\<rparr>"
    using w h dl fmt meth
    by (simp add: roundtrip_image_def decode_encode_format decode_encode_method)
  show ?thesis
    using rf pay img pre(1) off dropF lib(1) trk(1) by simp
qed

lemma read_frame_written9:
  assumes wf: "writable9 st" "writable_image i"
    and wr: "write_image st n i = Inr F"
    and at: "drop (pos s) (content s) = F @ ys"
    and rl: "library rst \<in> {None, library st}" and rt: "track rst \<in> {None, track st}"
  shows "read_frame lo rst s =
           Inr (False, rst\<lparr>image_offset := ITUNES_9, info_preamble := info_preamble st,
                            library := library st, track := track st,
                            images := images rst @ [roundtrip_image lo i]\<rparr>,
                s\<lparr>pos := pos s + length F\<rparr>)"
proof -
  obtain d where d: "img_data i = Some d" "img_len i = int (length d)" "length d + 208 < 2 ^ 32"
    using wf(2) by (rule writable_imageE)
  obtain pre where pre: "info_preamble st = Some pre" "length pre = 16" and off: "image_offset st = 208"
    using wf(1) by (rule writable9E)
  have layout: "writable_layout st"
    using wf(1) by (auto simp: writable9_def writable_layout_def split: option.splits)
  have sz: "img_len i + image_offset st < 2 ^ 32"
    using d off by simp
  have F: "length F = 208 + length d" "drop 208 F = d"
    using write_image_layout [OF wr d(1) pre(1)] pre(2) off by (simp_all add: ITUNES_OLD_def)
  have "(roundtrip_image True i)\<lparr>img_data := None\<rparr> = roundtrip_image True i"
    and "(roundtrip_image False i)\<lparr>img_data := Some d\<rparr> = roundtrip_image False i"
    using d(1) by (simp_all add: roundtrip_image_def)
  then show ?thesis
    using read_frame_written [OF layout wf(2) d(1) sz wr at, of lo rst] rl rt F off
    by (simp add: ITUNES_9_def add.commute)
qed

lemma write_image_writable:
  assumes "writable_layout st" "writable_image i" "img_len i + image_offset st < 2 ^ 32"
  shows "\<exists>F. write_image st n i = Inr F"
proof -
  obtain pre lib trk off where "info_preamble st = Some pre"
    "(off = 208 \<and> length pre = 16) \<or> (off = 216 \<and> length pre = 20)"
    "library st = Some lib" "lib < 2 ^ 64" "track st = Some trk" "trk < 2 ^ 64"
    "image_offset st = int off"
    using assms(1) by (rule writable_layoutE)
  moreover obtain d iformat imethod where "img_data i = Some d" "img_len i = int (length d)"
    "encode_format (img_format i) = Inr iformat" "encode_method (img_method i) = Inr imethod"
    "0 \<le> img_width i" "img_width i < 2 ^ 32" "0 \<le> img_height i" "img_height i < 2 ^ 32"
    using assms(2) by (rule writable_imageE)
  ultimately show ?thesis
    using assms(3)
    by (intro exI)
       (rule write_image_Inr [where d = d and iformat = iformat and imethod = imethod
          and pre = pre and lib = lib and trk = trk], auto)
qed

lemma write_image_writable9:
  assumes "writable9 st" "writable_image i"
  shows "\<exists>F. write_image st n i = Inr F"
proof -
  have "writable_layout st"
    using assms(1) by (auto simp: writable9_def writable_layout_def split: option.splits)
  moreover have "img_len i + image_offset st < 2 ^ 32"
    using assms by (auto simp: writable9_def writable_image_def ITUNES_9_def split: option.splits)
  ultimately show ?thesis
    using assms(2) write_image_writable by blast
qed

lemma write_images_writable9:
  assumes "writable9 st" "list_all writable_image imgs"
  shows "\<exists>Fs. map (\<lambda>(x, i). write_image st x i) (enumerate n imgs) = map Inr Fs"
  using assms(2)
proof (induction imgs arbitrary: n)
  case Nil
  then show ?case by simp
next
  case (Cons i imgs)
  then obtain F where "write_image st n i = Inr F"
    using write_image_writable9 [OF assms(1)] by fastforce
  moreover obtain Fs where "map (\<lambda>(x, i). write_image st x i) (enumerate (Suc n) imgs) = map Inr Fs"
    using Cons by fastforce
  ultimately show ?case
    by (intro exI [of _ "F # Fs"]) simp
qed

lemma read_loop_written9:
  assumes wf: "writable9 st"
    and "list_all writable_image imgs"
    and "map (\<lambda>(x, i). write_image st x i) (enumerate n imgs) = map Inr Fs"
    and "drop (pos s) (content s) = concat Fs"
    and "library rst \<in> {None, library st}" "track rst \<in> {None, track st}"
  shows "\<exists>rst'. read_loop lo rst s = Some (Inr (rst', s\<lparr>pos := pos s + length (concat Fs)\<rparr>))
           \<and> images rst' = images rst @ map (roundtrip_image lo) imgs
           \<and> library rst' = (if imgs = [] then library rst else library st)
           \<and> track rst' = (if imgs = [] then track rst else track st)
           \<and> image_offset rst' = (if imgs = [] then image_offset rst else ITUNES_9)
           \<and> info_preamble rst' = (if imgs = [] then info_preamble rst else info_preamble st)
           \<and> itc_filename rst' = itc_filename rst"
  using assms(2-6)
proof (induction imgs arbitrary: n Fs rst s)
  case Nil
  then have "Fs = []" by simp
  with Nil.prems(3) have "length (content s) < pos s + 8"
    by simp
  then have "read_loop lo rst s = Some (Inr (rst, snd (py_read 8 s)))"
    by (simp add: read_frame_end read_loop_stop)
  moreover have "snd (py_read 8 s) = s"
    using Nil.prems(3) \<open>Fs = []\<close> by (simp add: py_read_def)
  ultimately show ?case
    using \<open>Fs = []\<close> by simp
next
  case (Cons i imgs)
  from Cons.prems(2) obtain F Fs' where Fs: "Fs = F # Fs'" and F: "write_image st n i = Inr F"
    and Fs': "map (\<lambda>(x, i). write_image st x i) (enumerate (Suc n) imgs) = map Inr Fs'"
    by (cases Fs) auto
  let ?rst1 = "rst\<lparr>image_offset := ITUNES_9, info_preamble := info_preamble st,
                     library := library st, track := track st,
                     images := images rst @ [roundtrip_image lo i]\<rparr>"
  let ?s1 = "s\<lparr>pos := pos s + length F\<rparr>"
  have rf: "read_frame lo rst s = Inr (False, ?rst1, ?s1)"
    using read_frame_written9 [OF wf _ F, of s "concat Fs'" rst lo] Cons.prems Fs by simp
  have d1: "drop (pos ?s1) (content ?s1) = concat Fs'"
    using drop_pos_shift [of "pos s" "content s" F "concat Fs'"] Cons.prems(3) Fs by simp
  obtain rst' where IH: "read_loop lo ?rst1 ?s1 = Some (Inr (rst', ?s1\<lparr>pos := pos ?s1 + length (concat Fs')\<rparr>))"
      "images rst' = images ?rst1 @ map (roundtrip_image lo) imgs"
      "library rst' = (if imgs = [] then library ?rst1 else library st)"
      "track rst' = (if imgs = [] then track ?rst1 else track st)"
      "image_offset rst' = (if imgs = [] then image_offset ?rst1 else ITUNES_9)"
      "info_preamble rst' = (if imgs = [] then info_preamble ?rst1 else info_preamble st)"
      "itc_filename rst' = itc_filename ?rst1"
    using Cons.IH [OF _ Fs' d1, of ?rst1] Cons.prems(1) by auto
  have "read_loop lo rst s = read_loop lo ?rst1 ?s1"
    by (rule read_loop_continue [OF rf])
  with IH Fs show ?case
    by (intro exI [of _ rst']) (auto simp: add.assoc)
qed

lemma read_root_header:
  assumes "content s = root_header @ nuls 256 @ rest" "pos s = 0"
  shows "read_frame lo st s = Inr (False, st, s\<lparr>pos := 284\<rparr>)"
proof -
  let ?skip = "be_bytes 4 2 @ be_bytes 4 2 @ be_bytes 4 2 @ be_bytes 4 0"
  have at: "drop (pos s) (content s) = be_bytes 4 284 @ tag_itch @ (?skip @ tag_artw @ nuls 256 @ rest)"
    using assms by (simp add: root_header_def)
  have "read_frame lo st s =
        rbind (handle_frame lo tag_itch 284 st (s\<lparr>pos := 8\<rparr>)) (\<lambda>(st', s'). Inr (False, st', s'))"
    using read_frame_at [OF at] assms(2) by (simp add: tag_itch_def bstr_def)
  moreover have "handle_frame lo tag_itch 284 st (s\<lparr>pos := 8\<rparr>) =
                 handle_frame lo tag_artw 284 st (s\<lparr>pos := 28\<rparr>)"
    using handle_frame_itch_at [of "s\<lparr>pos := 8\<rparr>" ?skip tag_artw "nuls 256 @ rest"] assms
    by (simp add: root_header_def tag_itch_def tag_artw_def bstr_def)
  ultimately show ?thesis
    by simp
qed

text \<open>
  \<open>write\<close> of an ITUNES_9 container whose images are all writable, then
  \<open>read\<close> of the file: no exception, and the records and attributes come back.
\<close>

lemma itc_write_read9:
  assumes wf: "writable9 st" "list_all writable_image (images st)" and fn: "fname \<noteq> []"
  shows "snd (itc_write st fname fs) = None
         \<and> (\<exists>r. itc_read (fst (itc_write st fname fs)) fname lo st0 = Some (Inr r)
                \<and> images r = map (roundtrip_image lo) (images st)
                \<and> itc_filename r = fname
                \<and> (images st \<noteq> [] \<longrightarrow> library r = library st \<and> track r = track st
                     \<and> image_offset r = ITUNES_9 \<and> info_preamble r = info_preamble st))"
proof -
  obtain Fs where Fs: "map (\<lambda>(x, i). write_image st x i) (enumerate 0 (images st)) = map Inr Fs"
    using write_images_writable9 [OF wf] by blast
  let ?c = "root_header @ nuls 256 @ concat Fs"
  have wr: "itc_write st fname fs = (fs(fname \<mapsto> ?c), None)"
  proof -
    have "[Inr root_header, Inr (nuls 256)] @ map Inr Fs = map Inr ([root_header, nuls 256] @ Fs)"
      by simp
    then show ?thesis
      using fn Fs by (simp add: itc_write_def del: map_append)
  qed
  let ?st0 = "st0\<lparr>itc_filename := fname, library := None, track := None, images := []\<rparr>"
  let ?s = "\<lparr>content = ?c, pos = 0\<rparr>"
  have hdr: "read_frame lo ?st0 ?s = Inr (False, ?st0, ?s\<lparr>pos := 284\<rparr>)"
    by (rule read_root_header) simp_all
  have d284: "drop (pos (?s\<lparr>pos := 284\<rparr>)) (content (?s\<lparr>pos := 284\<rparr>)) = concat Fs"
    by (simp add: root_header_def tag_itch_def tag_artw_def bstr_def nuls_def)
  obtain r where r: "read_loop lo ?st0 (?s\<lparr>pos := 284\<rparr>) =
        Some (Inr (r, ?s\<lparr>pos := 284 + length (concat Fs)\<rparr>))"
      "images r = map (roundtrip_image lo) (images st)"
      "library r = (if images st = [] then None else library st)"
      "track r = (if images st = [] then None else track st)"
      "image_offset r = (if images st = [] then image_offset st0 else ITUNES_9)"
      "info_preamble r = (if images st = [] then info_preamble st0 else info_preamble st)"
      "itc_filename r = fname"
    using read_loop_written9 [OF wf(1) wf(2) Fs d284, of ?st0 lo] by auto
  have "itc_read (fst (itc_write st fname fs)) fname lo st0 = Some (Inr r)"
    using wr r(1) read_loop_continue [OF hdr] by (simp add: itc_read_def)
  with wr r show ?thesis
    by auto
qed

end
