(* ===== verification/ITC_PNG.thy ===== *)
theory ITC_PNG
  imports ITC_Model
begin

text \<open>
  \<open>EasyPNG\<close> (\<open>src/scripts/itc.py\<close>), which turns a raw ARGB image record into
  a PNG file: the signature, an \<open>IHDR\<close> box, one \<open>IDAT\<close> box holding the
  compressed scanlines and an \<open>IEND\<close> box, each box closed by the CRC-32 of its
  name and data. \<open>zlib.crc32\<close> is modelled by the CRC-32 it computes
  (reflected polynomial \<open>0xEDB88320\<close>, 32-bit words); \<open>zlib.compressobj\<close> is a
  parameter \<open>compress\<close>, the bytes \<open>compress\<close> and \<open>flush\<close> return together.
\<close>

unbundle bit_operations_syntax

subsection \<open>CRC-32 and the signed 32-bit field\<close>

definition crc_step :: "32 word \<Rightarrow> 32 word" where
  "crc_step c = (if c AND 1 = 1 then drop_bit 1 c XOR 0xEDB88320 else drop_bit 1 c)"

fun crc_bits :: "nat \<Rightarrow> 32 word \<Rightarrow> 32 word" where
  "crc_bits 0 c = c"
| "crc_bits (Suc n) c = crc_bits n (crc_step c)"

definition crc_update :: "32 word \<Rightarrow> byte \<Rightarrow> 32 word" where
  "crc_update c b = crc_bits 8 (c XOR ucast b)"

definition crc32 :: "bytes \<Rightarrow> 32 word" where
  "crc32 bs = NOT (foldl crc_update (NOT 0) bs)"

text \<open>Python 2's \<open>zlib.crc32\<close> returns the CRC as a signed 32-bit integer.\<close>

definition py_crc32 :: "bytes \<Rightarrow> int" where
  "py_crc32 bs = sint (crc32 bs)"

text \<open>\<open>struct.pack('!l', v)\<close>: a signed 32-bit big-endian field.\<close>

definition pack_i32 :: "int \<Rightarrow> error + bytes" where
  "pack_i32 v = (if - (2 ^ 31) \<le> v \<and> v < 2 ^ 31 then Inr (be_bytes 4 (nat (v mod 2 ^ 32)))
                 else Inl StructError)"

subsection \<open>The writer\<close>

definition png_signature :: bytes where
  "png_signature = [0x89, 0x50, 0x4e, 0x47, 0x0d, 0x0a, 0x1a, 0x0a]"

definition tag_IHDR :: bytes where "tag_IHDR = bstr ''IHDR''"
definition tag_IDAT :: bytes where "tag_IDAT = bstr ''IDAT''"
definition tag_IEND :: bytes where "tag_IEND = bstr ''IEND''"

text \<open>\<open>color_type.truecolor_alpha\<close>.\<close>

definition truecolor_alpha :: int where "truecolor_alpha = 6"

text \<open>
  \<open>_write_box\<close>: \<open>'!L4s%dsl'\<close> packs the length, the name cut or padded to 4
  bytes, the data cut or padded to \<open>length\<close> (here \<open>len\<close>) bytes and the CRC of the name and
  the data as given.
\<close>

definition write_box :: "bytes \<Rightarrow> bytes \<Rightarrow> int \<Rightarrow> error + bytes" where
  "write_box name data len =
     (if len > 0 then
        rbind (pack_u32 len) (\<lambda>b_len.
        rbind (pack_i32 (py_crc32 (name @ data))) (\<lambda>b_crc.
        Inr (b_len @ pack_str 4 name @ pack_str (nat len) data @ b_crc)))
      else
        rbind (pack_i32 (py_crc32 name)) (\<lambda>b_crc. Inr (be_bytes 4 0 @ pack_str 4 name @ b_crc)))"

definition write_header :: "int \<Rightarrow> int \<Rightarrow> int \<Rightarrow> int \<Rightarrow> int \<Rightarrow> int \<Rightarrow> int \<Rightarrow> error + bytes" where
  "write_header width height depth color_type compression filt interlace =
     rbind (pack_u32 width) (\<lambda>b_w.
     rbind (pack_u32 height) (\<lambda>b_h.
     rbind (rconcat_map (pack_uint 1) [depth, color_type, compression, filt, interlace]) (\<lambda>b_rest.
     write_box tag_IHDR (b_w @ b_h @ b_rest) 13)))"

definition write_data :: "(bytes \<Rightarrow> bytes) \<Rightarrow> bytes \<Rightarrow> error + bytes" where
  "write_data compress data = (let compressed = compress data in
     write_box tag_IDAT compressed (int (length compressed)))"

text \<open>
  One pixel of \<open>_write_argb_data\<close>: the bytes at \<open>offset + 1\<close>, \<open>+ 2\<close>,
  \<open>+ 3\<close> and \<open>offset\<close> of the string, in that order (\<open>IndexError\<close> past its
  end, \<open>TypeError\<close> when the record has no data).
\<close>

definition argb_pixel :: "bytes option \<Rightarrow> int \<Rightarrow> error + bytes" where
  "argb_pixel argb offset =
     (case argb of
        None \<Rightarrow> Inl TypeError
      | Some d \<Rightarrow>
          rbind (py_index d (offset + 1)) (\<lambda>r.
          rbind (py_index d (offset + 2)) (\<lambda>g.
          rbind (py_index d (offset + 3)) (\<lambda>b.
          rbind (py_index d offset) (\<lambda>a. Inr [r, g, b, a])))))"

definition argb_rows :: "int \<Rightarrow> int \<Rightarrow> bytes option \<Rightarrow> error + bytes" where
  "argb_rows width height argb =
     rconcat_map (\<lambda>y. rbind (rconcat_map (\<lambda>x. argb_pixel argb ((y * width + x) * 4)) [0..width - 1])
                            (\<lambda>row. Inr (0 # row)))
       [0..height - 1]"

definition write_argb_data :: "(bytes \<Rightarrow> bytes) \<Rightarrow> int \<Rightarrow> int \<Rightarrow> bytes option \<Rightarrow> int \<Rightarrow> error + bytes" where
  "write_argb_data compress width height argb len =
     rbind (argb_rows width height argb) (write_data compress)"

definition write_end :: "error + bytes" where
  "write_end = write_box tag_IEND [] 0"

text \<open>\<open>EasyPNG.write(image, fp)\<close>: the four writes, in order, to the file.\<close>

definition png_write :: "(bytes \<Rightarrow> bytes) \<Rightarrow> image \<Rightarrow> bytes \<times> error option" where
  "png_write compress img =
     run_writes [Inr png_signature,
                 write_header (img_width img) (img_height img) 8 truecolor_alpha 0 0 0,
                 write_argb_data compress (img_width img) (img_height img) (img_data img) (img_len img),
                 write_end]"

subsection \<open>Reference definitions\<close>

text \<open>A PNG chunk as the PNG specification lays it out.\<close>

definition png_chunk :: "bytes \<Rightarrow> bytes \<Rightarrow> bytes" where
  "png_chunk name data = be_bytes 4 (length data) @ name @ data @ be_bytes 4 (unat (crc32 (name @ data)))"

fun chunks :: "nat \<Rightarrow> 'a list \<Rightarrow> 'a list list" where
  "chunks n xs = (if n = 0 \<or> xs = [] then [] else take n xs # chunks n (drop n xs))"

text \<open>
  The scanlines of a raw ARGB buffer: row \<open>y\<close> is the slice of \<open>4 * w\<close>
  bytes at \<open>4 * w * y\<close>, cut into pixels whose first byte (alpha) moves to the
  end, after a filter byte 0.
\<close>

definition scanlines :: "nat \<Rightarrow> nat \<Rightarrow> bytes \<Rightarrow> bytes" where
  "scanlines w h d =
     concat (map (\<lambda>y. 0 # concat (map rotate1 (chunks 4 (take (4 * w) (drop (4 * w * y) d))))) [0..<h])"

section \<open>Lemmas\<close>

lemma crc_bits_numeral [simp]: "crc_bits (numeral k) c = crc_bits (pred_numeral k) (crc_step c)"
  by (simp only: numeral_eq_Suc [of k] crc_bits.simps(2))

lemma pack_i32_sint: "pack_i32 (sint (w :: 32 word)) = Inr (be_bytes 4 (unat w))"
proof -
  have "- (2 ^ 31) \<le> sint w" "sint w < 2 ^ 31"
    using sint_ge [of w] sint_lt [of w] by simp_all
  moreover have "sint w mod 2 ^ 32 = uint w"
  proof -
    have "uint w = take_bit LENGTH(32) (sint w)"
      by (fact uint_sint)
    then show ?thesis by (simp add: take_bit_eq_mod)
  qed
  moreover have "nat (uint w) = unat w"
    by transfer simp
  ultimately show ?thesis
    unfolding pack_i32_def by presburger
qed

lemma write_box_chunk:
  assumes "length name = 4" "0 < length data" "length data < 2 ^ 32"
  shows "write_box name data (int (length data)) = Inr (png_chunk name data)"
  using assms by (simp add: write_box_def pack_uint_def py_crc32_def pack_i32_sint png_chunk_def pack_str_def)

declare chunks.simps [simp del]

lemma chunks_Cons:
  "0 < n \<Longrightarrow> xs \<noteq> [] \<Longrightarrow> chunks n xs = take n xs # chunks n (drop n xs)"
  by (simp add: chunks.simps)

lemma chunks_Nil [simp]: "chunks n [] = []"
  by (simp add: chunks.simps)

lemma chunks_take:
  assumes "0 < n" "n * w \<le> length xs"
  shows "chunks n (take (n * w) xs) = map (\<lambda>i. take n (drop (n * i) xs)) [0..<w]"
  using assms(2)
proof (induction w arbitrary: xs)
  case 0
  then show ?case by simp
next
  case (Suc w)
  have "take (n * Suc w) xs = take n xs @ take (n * w) (drop n xs)"
    by (simp add: take_add)
  moreover have "n * w \<le> length (drop n xs)"
    using Suc.prems by simp
  moreover have "[0..<Suc w] = 0 # map Suc [0..<w]"
    by (simp add: map_Suc_upt upt_conv_Cons)
  moreover have "take n xs @ take (n * w) (drop n xs) \<noteq> []"
    using assms(1) Suc.prems by (cases xs) simp_all
  ultimately show ?case
    using assms(1) Suc.prems Suc.IH [of "drop n xs"]
    by (simp add: chunks_Cons drop_drop add.commute)
qed

lemma take4_drop:
  "k + 4 \<le> length d \<Longrightarrow> take 4 (drop k d) = [d ! k, d ! (k + 1), d ! (k + 2), d ! (k + 3)]"
  by (simp add: Cons_nth_drop_Suc [symmetric] numeral_eq_Suc take_Suc_Cons)

lemma argb_pixel_within:
  assumes "k + 4 \<le> length d"
  shows "argb_pixel (Some d) (int k) = Inr (rotate1 (take 4 (drop k d)))"
proof -
  have "py_index d (int k + 1) = Inr (d ! (k + 1))" "py_index d (int k + 2) = Inr (d ! (k + 2))"
       "py_index d (int k + 3) = Inr (d ! (k + 3))" "py_index d (int k) = Inr (d ! k)"
    using py_index_shift [of k 1 d] py_index_shift [of k 2 d] py_index_shift [of k 3 d] assms
    by simp_all
  then show ?thesis
    using assms by (simp add: argb_pixel_def take4_drop)
qed

lemma argb_rows_scanlines:
  assumes "4 * w * h \<le> length d"
  shows "argb_rows (int w) (int h) (Some d) = Inr (scanlines w h d)"
proof -
  have row: "rconcat_map (\<lambda>x. argb_pixel (Some d) (int y * int w * 4 + int x * 4)) [0..<w]
             = Inr (concat (map rotate1 (chunks 4 (take (4 * w) (drop (4 * w * y) d)))))"
    if "y < h" for y
  proof -
    have "4 * w * Suc y \<le> 4 * w * h"
      using that by (intro mult_le_mono2) simp
    then have bound: "4 * w * y + 4 * w \<le> length d"
      using assms by simp
    then have "chunks 4 (take (4 * w) (drop (4 * w * y) d)) =
               map (\<lambda>i. take 4 (drop (4 * i) (drop (4 * w * y) d))) [0..<w]"
      by (intro chunks_take) simp_all
    moreover have pix: "argb_pixel (Some d) ((int y * int w + int x) * 4) =
                   Inr (rotate1 (take 4 (drop (4 * x) (drop (4 * w * y) d))))"
      if "x < w" for x
    proof -
      have "4 * w * y + 4 * x + 4 \<le> 4 * w * y + 4 * w"
        using that by simp
      then have "(y * w + x) * 4 + 4 \<le> length d"
        using bound by (simp add: algebra_simps)
      moreover have "(int y * int w + int x) * 4 = int ((y * w + x) * 4)"
        by simp
      moreover have "drop (4 * x) (drop (4 * w * y) d) = drop ((y * w + x) * 4) d"
        by (simp add: algebra_simps)
      ultimately show ?thesis
        using argb_pixel_within [of "(y * w + x) * 4" d] by simp
    qed
    ultimately show ?thesis
      by (subst rconcat_map_Inr [where g = "\<lambda>x. rotate1 (take 4 (drop (4 * x) (drop (4 * w * y) d)))"])
         (simp_all add: pix comp_def)
  qed
  show ?thesis
    unfolding argb_rows_def scanlines_def upto_int_nat rconcat_map_map
    by (subst rconcat_map_Inr [where g = "\<lambda>y. 0 # concat (map rotate1 (chunks 4 (take (4 * w) (drop (4 * w * y) d))))"])
       (simp_all add: row)
qed

lemma argb_pixel_error:
  "argb_pixel (Some d) k = Inl e \<Longrightarrow> e = IndexError"
  by (auto simp: argb_pixel_def py_index_def rbind_eq_Inl_iff split: if_splits)

lemma argb_pixel_short:
  "length d < k + 4 \<Longrightarrow> isl (argb_pixel (Some d) (int k))"
  using py_index_shift [of k 3 d]
  by (auto simp: argb_pixel_def py_index_def nat_add_distrib rbind_def split: sum.splits)

lemma argb_rows_short:
  assumes "0 < w" "0 < h" "length d < 4 * w * h"
  shows "argb_rows (int w) (int h) (Some d) = Inl IndexError"
proof -
  let ?px = "\<lambda>y x. argb_pixel (Some d) (int y * int w * 4 + int x * 4)"
  let ?inner = "\<lambda>y. rconcat_map (?px y) [0..<w]"
  have inner_err: "e = IndexError" if "?inner y = Inl e" for y e
    using rconcat_map_Inl_from [OF that] argb_pixel_error by blast
  have eq: "int (h - 1) * int w * 4 + int (w - 1) * 4 = int (((h - 1) * w + (w - 1)) * 4)"
    by simp
  have "length d < ((h - 1) * w + (w - 1)) * 4 + 4"
  proof -
    have "((h - 1) * w + (w - 1)) * 4 + 4 = 4 * w * h"
      using assms(1,2) by (cases h; cases w) (simp_all add: algebra_simps)
    then show ?thesis using assms(3) by simp
  qed
  then have last: "isl (?px (h - 1) (w - 1))"
    unfolding eq by (rule argb_pixel_short)
  have inner_last: "?inner (h - 1) = Inl IndexError"
    by (rule rconcat_map_Inl_same [where f = "?px (h - 1)" and y = "w - 1", OF _ _ last])
       (use assms argb_pixel_error in auto)
  show ?thesis
    unfolding argb_rows_def upto_int_nat rconcat_map_map
    by (rule rconcat_map_Inl_same [where y = "h - 1"])
       (use assms inner_err inner_last in \<open>auto simp: rbind_eq_Inl_iff\<close>)
qed

lemma write_header_chunk:
  assumes "w < 2 ^ 32" "h < 2 ^ 32"
  shows "write_header (int w) (int h) 8 truecolor_alpha 0 0 0 =
           Inr (png_chunk tag_IHDR (be_bytes 4 w @ be_bytes 4 h @ [8, 6, 0, 0, 0]))"
proof -
  have "rconcat_map (pack_uint 1) [8, truecolor_alpha, 0, 0, 0] = Inr [8, 6, 0, 0, 0]"
    by (simp add: pack_uint_def truecolor_alpha_def)
  moreover have "length tag_IHDR = 4" by (simp add: tag_IHDR_def bstr_def)
  ultimately show ?thesis
    using assms write_box_chunk [of tag_IHDR "be_bytes 4 w @ be_bytes 4 h @ [8, 6, 0, 0, 0]"]
    by (simp add: write_header_def pack_uint_def)
qed

lemma write_data_chunk:
  "0 < length (compress x) \<Longrightarrow> length (compress x) < 2 ^ 32 \<Longrightarrow>
   write_data compress x = Inr (png_chunk tag_IDAT (compress x))"
  using write_box_chunk [of tag_IDAT "compress x"] by (simp add: write_data_def tag_IDAT_def bstr_def)

lemma write_end_chunk: "write_end = Inr (png_chunk tag_IEND [])"
  by (simp add: write_end_def write_box_def py_crc32_def pack_i32_sint png_chunk_def tag_IEND_def bstr_def pack_str_def)

section \<open>Properties of the pixel encoder\<close>

text \<open>
  C8. \<open>_write_argb_data\<close>'s loop over rows and columns, reading the bytes at
  \<open>offset + 1\<close>, \<open>+ 2\<close>, \<open>+ 3\<close>, \<open>offset\<close> of each pixel, computes the
  reference scanlines (each row a filter byte 0 and its 4-byte pixels rotated so
  alpha comes last) exactly when the buffer holds at least \<open>4 * width * height\<close>
  bytes, and raises \<open>IndexError\<close> otherwise; bytes beyond that are ignored.
\<close>

theorem argb_rows_result:
  "argb_rows (int w) (int h) (Some d) =
     (if 4 * w * h \<le> length d then Inr (scanlines w h d) else Inl IndexError)"
  using argb_rows_scanlines [of w h d] argb_rows_short [of w h d]
  by (cases "w = 0 \<or> h = 0") auto

text \<open>
  C9. \<open>EasyPNG.write\<close> on an image of width \<open>w\<close> and height \<open>h\<close> writes the PNG
  signature, the \<open>IHDR\<close> chunk (\<open>w\<close>, \<open>h\<close>, depth 8, colour type 6, three 0s),
  the \<open>IDAT\<close> chunk of the compressed reference scanlines and the \<open>IEND\<close> chunk,
  each with its CRC-32, when the buffer holds \<open>4 * w * h\<close> bytes or more;
  otherwise the file keeps the signature and the header chunk and the write raises
  \<open>IndexError\<close>. The record's length field plays no part.
\<close>

theorem png_write_result:
  assumes wh: "img_width i = int w" "img_height i = int h" "w < 2 ^ 32" "h < 2 ^ 32"
    and d: "img_data i = Some d"
    and c: "0 < length (compress (scanlines w h d))" "length (compress (scanlines w h d)) < 2 ^ 32"
  shows "png_write compress i =
    (if 4 * w * h \<le> length d
     then (png_signature @ png_chunk tag_IHDR (be_bytes 4 w @ be_bytes 4 h @ [8, 6, 0, 0, 0])
             @ png_chunk tag_IDAT (compress (scanlines w h d)) @ png_chunk tag_IEND [], None)
     else (png_signature @ png_chunk tag_IHDR (be_bytes 4 w @ be_bytes 4 h @ [8, 6, 0, 0, 0]),
           Some IndexError))"
proof -
  have rows: "argb_rows (int w) (int h) (Some d) =
                (if 4 * w * h \<le> length d then Inr (scanlines w h d) else Inl IndexError)"
    using argb_rows_scanlines [of w h d] argb_rows_short [of w h d] by (cases "w = 0 \<or> h = 0") auto
  show ?thesis
    by (simp add: png_write_def write_argb_data_def wh d rows write_header_chunk [OF wh(3,4)]
        write_data_chunk [where compress = compress and x = "scanlines w h d", OF c] write_end_chunk)
qed

theorem png_write_result_witness:
  "png_write (\<lambda>bs. bs)
     \<lparr>img_width = 1, img_height = 1, img_data = Some [0xFF, 0x10, 0x20, 0x30], img_format = FmtARGB,
      img_method = Local, img_len = 4\<rparr>
   = (png_signature @ png_chunk tag_IHDR (be_bytes 4 1 @ be_bytes 4 1 @ [8, 6, 0, 0, 0])
        @ png_chunk tag_IDAT [0, 0x10, 0x20, 0x30, 0xFF] @ png_chunk tag_IEND [], None)"
  using png_write_result [of "\<lparr>img_width = 1, img_height = 1, img_data = Some [0xFF, 0x10, 0x20, 0x30],
      img_format = FmtARGB, img_method = Local, img_len = 4\<rparr>" 1 1 "[0xFF, 0x10, 0x20, 0x30]" "\<lambda>bs. bs"]
  by (simp add: scanlines_def chunks.simps)

end
