(* ===== verification/ITC_Export.thy ===== *)
theory ITC_Export
  imports ITC_PNG
begin

text \<open>
  \<open>ITCFile.export_image\<close> and \<open>_export_image_data\<close> (\<open>src/scripts/itc.py\<close>):
  every image, or the \<open>num\<close>-th (counted from 1), goes to the file
  \<open>filename-NN\<close> plus an extension chosen by its format; raw ARGB images are
  encoded by \<open>EasyPNG\<close>, the others written as stored. The file system is the
  map \<open>fs\<close>; opening a file for writing empties it, so a write that raises
  leaves the file with what was written before. The progress lines printed
  unless \<open>quiet\<close> are console output and are not modelled.
\<close>

subsection \<open>File names\<close>

text \<open>\<open>'%d'\<close> of a natural number, and \<open>'%02d'\<close>: at least two digits, zero-padded.\<close>

fun nat_dec :: "nat \<Rightarrow> string" where
  "nat_dec n = (if n < 10 then [char_of (48 + n)] else nat_dec (n div 10) @ [char_of (48 + n mod 10)])"

definition fmt02 :: "nat \<Rightarrow> string" where
  "fmt02 n = (let s = nat_dec n in replicate (2 - length s) (CHR ''0'') @ s)"

text \<open>The extension \<open>_export_image_data\<close> appends for each format.\<close>

definition export_ext :: "image_format \<Rightarrow> string" where
  "export_ext f = (if f = FmtPNG \<or> f = FmtARGB then ''.png'' else if f = FmtJPEG then ''.jpg'' else '''')"

subsection \<open>Exporting\<close>

definition export_image_data :: "(bytes \<Rightarrow> bytes) \<Rightarrow> itc \<Rightarrow> string \<Rightarrow> int \<Rightarrow> fs \<Rightarrow> fs \<times> error option" where
  "export_image_data compress st filename num fs =
     (case py_index (images st) num of
        Inl e \<Rightarrow> (fs, Some e)
      | Inr img \<Rightarrow>
          (let fname = filename @ export_ext (img_format img) in
           if img_format img \<noteq> FmtARGB then
             (case img_data img of
                None \<Rightarrow> (fs(fname \<mapsto> []), Some TypeError)
              | Some d \<Rightarrow> (fs(fname \<mapsto> d), None))
           else
             (let (out, err) = png_write compress img in (fs(fname \<mapsto> out), err))))"

text \<open>The loop of \<open>export_image\<close> with \<open>all_\<close> set: one export per image, stopping at the first exception.\<close>

fun export_each :: "(bytes \<Rightarrow> bytes) \<Rightarrow> itc \<Rightarrow> string \<Rightarrow> nat list \<Rightarrow> fs \<Rightarrow> fs \<times> error option" where
  "export_each compress st filename [] fs = (fs, None)"
| "export_each compress st filename (x # xs) fs =
     (case export_image_data compress st (filename @ ''-'' @ fmt02 (x + 1)) (int x) fs of
        (fs', None) \<Rightarrow> export_each compress st filename xs fs'
      | (fs', Some e) \<Rightarrow> (fs', Some e))"

definition export_image :: "(bytes \<Rightarrow> bytes) \<Rightarrow> itc \<Rightarrow> string \<Rightarrow> int \<Rightarrow> bool \<Rightarrow> fs \<Rightarrow> fs \<times> error option" where
  "export_image compress st filename num all fs =
     (if num > int (length (images st)) then (fs, Some IndexError)
      else if num < 1 then (fs, Some IndexError)
      else if all then export_each compress st filename [0..<length (images st)] fs
      else export_image_data compress st (filename @ ''-'' @ fmt02 (nat num)) (num - 1) fs)"

subsection \<open>Reference: reading a decimal numeral back\<close>

definition dec_val :: "string \<Rightarrow> nat" where
  "dec_val s = foldl (\<lambda>a c. 10 * a + (of_char c - 48)) 0 s"

definition is_digit :: "char \<Rightarrow> bool" where
  "is_digit c \<longleftrightarrow> 48 \<le> (of_char c :: nat) \<and> (of_char c :: nat) \<le> 57"

subsection \<open>What an export writes\<close>

text \<open>The file an image goes to and the bytes it receives, and when its export cannot raise.\<close>

definition export_name :: "string \<Rightarrow> nat \<Rightarrow> image \<Rightarrow> string" where
  "export_name filename x img = filename @ ''-'' @ fmt02 (x + 1) @ export_ext (img_format img)"

definition export_bytes :: "(bytes \<Rightarrow> bytes) \<Rightarrow> image \<Rightarrow> bytes" where
  "export_bytes compress img =
     (if img_format img = FmtARGB then fst (png_write compress img) else the (img_data img))"

definition exportable :: "(bytes \<Rightarrow> bytes) \<Rightarrow> image \<Rightarrow> bool" where
  "exportable compress img \<longleftrightarrow>
     img_data img \<noteq> None \<and> (img_format img = FmtARGB \<longrightarrow> snd (png_write compress img) = None)"

section \<open>Lemmas\<close>

lemma of_char_digit: "n < 10 \<Longrightarrow> (of_char (char_of (48 + n)) :: nat) = 48 + n"
  by (simp add: of_char_of)

declare nat_dec.simps [simp del]

lemma nat_dec_digits: "c \<in> set (nat_dec n) \<Longrightarrow> is_digit c"
proof (induction n rule: nat_dec.induct)
  case (1 n)
  then show ?case
    by (cases "n < 10") (auto simp: nat_dec.simps [of n] is_digit_def of_char_digit)
qed

lemma dec_val_snoc: "dec_val (s @ [c]) = 10 * dec_val s + (of_char c - 48)"
  by (simp add: dec_val_def)

lemma dec_val_nat_dec: "dec_val (nat_dec n) = n"
proof (induction n rule: nat_dec.induct)
  case (1 n)
  then show ?case
    by (cases "n < 10") (simp_all add: nat_dec.simps [of n] dec_val_snoc of_char_digit dec_val_def)
qed

lemma dec_val_zeros: "dec_val (replicate k (CHR ''0'') @ s) = dec_val s"
  by (induction k) (simp_all add: dec_val_def)

lemma dec_val_fmt02: "dec_val (fmt02 n) = n"
  by (simp add: fmt02_def Let_def dec_val_zeros dec_val_nat_dec)

lemma fmt02_digits: "c \<in> set (fmt02 n) \<Longrightarrow> is_digit c"
  by (auto simp: fmt02_def Let_def is_digit_def dest: nat_dec_digits)

lemma takeWhile_fmt02_ext: "takeWhile is_digit (fmt02 n @ export_ext f) = fmt02 n"
proof -
  have "export_ext f = [] \<or> (\<exists>r. export_ext f = CHR ''.'' # r)"
    by (simp add: export_ext_def)
  moreover have "\<not> is_digit (CHR ''.'')"
    by (simp add: is_digit_def)
  ultimately show ?thesis
    using fmt02_digits [of _ n] by (auto simp: takeWhile_append2)
qed

lemma export_name_inj:
  "p @ fmt02 a @ export_ext f = p @ fmt02 b @ export_ext g \<Longrightarrow> a = b"
proof -
  assume "p @ fmt02 a @ export_ext f = p @ fmt02 b @ export_ext g"
  then have "fmt02 a @ export_ext f = fmt02 b @ export_ext g"
    by (rule same_append_eq [THEN iffD1])
  then have "fmt02 a = fmt02 b"
    by (metis takeWhile_fmt02_ext)
  then show ?thesis
    by (metis dec_val_fmt02)
qed

lemma fold_upd_other:
  "n \<notin> k ` set xs \<Longrightarrow> (fold (\<lambda>x f. f(k x \<mapsto> v x)) xs m) n = m n"
  by (induction xs arbitrary: m) simp_all

lemma fold_upd_inj:
  "inj_on k (set xs) \<Longrightarrow> y \<in> set xs \<Longrightarrow> (fold (\<lambda>x f. f(k x \<mapsto> v x)) xs m) (k y) = Some (v y)"
proof (induction xs arbitrary: m)
  case Nil
  then show ?case by simp
next
  case (Cons x xs)
  show ?case
  proof (cases "y \<in> set xs")
    case True
    with Cons show ?thesis by simp
  next
    case False
    with Cons.prems have "y = x" "k y \<notin> k ` set xs"
      by (auto simp: inj_on_def)
    then have "(fold (\<lambda>x f. f(k x \<mapsto> v x)) xs (m(k x \<mapsto> v x))) (k y) = (m(k x \<mapsto> v x)) (k y)"
      by (intro fold_upd_other) simp
    with \<open>y = x\<close> show ?thesis
      by (simp only: fun_upd_same fold.simps(2) comp_apply)
  qed
qed

lemma export_image_data_ok:
  assumes "x < length (images st)" "exportable compress (images st ! x)"
  shows "export_image_data compress st (filename @ ''-'' @ fmt02 (x + 1)) (int x) fs =
           (fs(export_name filename x (images st ! x) \<mapsto> export_bytes compress (images st ! x)), None)"
  using assms
  by (auto simp: export_image_data_def exportable_def export_name_def export_bytes_def case_prod_beta
      split: option.splits)

lemma export_each_ok:
  assumes "\<forall>x\<in>set xs. x < length (images st) \<and> exportable compress (images st ! x)"
  shows "export_each compress st filename xs fs =
    (fold (\<lambda>x f. f(export_name filename x (images st ! x) \<mapsto> export_bytes compress (images st ! x))) xs fs, None)"
  using assms
proof (induction xs arbitrary: fs)
  case Nil
  then show ?case by simp
next
  case (Cons a xs)
  have "export_image_data compress st (filename @ ''-'' @ fmt02 (a + 1)) (int a) fs =
        (fs(export_name filename a (images st ! a) \<mapsto> export_bytes compress (images st ! a)), None)"
    using Cons.prems by (intro export_image_data_ok) simp_all
  then have "export_each compress st filename (a # xs) fs = export_each compress st filename xs
               (fs(export_name filename a (images st ! a) \<mapsto> export_bytes compress (images st ! a)))"
    by (simp only: export_each.simps(2) prod.case option.case)
  also have "\<dots> = (fold (\<lambda>x f. f(export_name filename x (images st ! x) \<mapsto> export_bytes compress (images st ! x)))
                       xs (fs(export_name filename a (images st ! a) \<mapsto> export_bytes compress (images st ! a))), None)"
    using Cons.prems by (intro Cons.IH) simp
  finally show ?case
    by (simp only: fold.simps(2) comp_apply)
qed

lemma export_name_inj_on: "inj_on (\<lambda>x. export_name filename x (images st ! x)) A"
proof (rule inj_onI)
  fix x y
  assume "export_name filename x (images st ! x) = export_name filename y (images st ! y)"
  then have "x + 1 = y + 1"
    unfolding export_name_def
    by (intro export_name_inj [of "filename @ ''-''" "x + 1" "img_format (images st ! x)" "y + 1"
          "img_format (images st ! y)"]) simp
  then show "x = y" by simp
qed

section \<open>Properties of the export\<close>

text \<open>
  C10. Exporting every image (\<open>export_image(filename, all_=True)\<close>) of a
  non-empty container whose images all have data, and whose ARGB images encode
  without an exception, raises nothing; the file of image \<open>x\<close>
  (\<open>filename-NN\<close> with its extension) holds its data, or its PNG encoding for
  ARGB, and no other file changes: no two images share a file.
\<close>

theorem export_all_files:
  assumes "images st \<noteq> []" "\<forall>img\<in>set (images st). exportable compress img"
  shows "\<exists>fs'. export_image compress st filename 1 True fs = (fs', None)
           \<and> (\<forall>x < length (images st).
                 fs' (export_name filename x (images st ! x)) = Some (export_bytes compress (images st ! x)))
           \<and> (\<forall>n. n \<notin> (\<lambda>x. export_name filename x (images st ! x)) ` {..<length (images st)} \<longrightarrow> fs' n = fs n)"
proof -
  let ?k = "\<lambda>x. export_name filename x (images st ! x)"
  let ?v = "\<lambda>x. export_bytes compress (images st ! x)"
  let ?xs = "[0..<length (images st)]"
  have ok: "\<forall>x\<in>set ?xs. x < length (images st) \<and> exportable compress (images st ! x)"
    using assms(2) by auto
  have "1 \<le> int (length (images st))"
    using assms(1) by (cases "images st") simp_all
  then have ex: "export_image compress st filename 1 True fs = (fold (\<lambda>x f. f(?k x \<mapsto> ?v x)) ?xs fs, None)"
    using export_each_ok [OF ok, of filename fs] assms(1) by (simp add: export_image_def)
  have set_xs: "set ?xs = {..<length (images st)}"
    by auto
  have "fold (\<lambda>x f. f(?k x \<mapsto> ?v x)) ?xs fs (?k x) = Some (?v x)" if "x < length (images st)" for x
    by (rule fold_upd_inj [OF export_name_inj_on]) (use that in simp)
  moreover have "fold (\<lambda>x f. f(?k x \<mapsto> ?v x)) ?xs fs n = fs n" if "n \<notin> ?k ` {..<length (images st)}" for n
    by (rule fold_upd_other) (use that set_xs in simp)
  ultimately show ?thesis
    using ex by blast
qed

theorem export_all_files_witness:
  "\<exists>fs'. export_image (\<lambda>bs. bs)
       ((itc_init ITUNES_9 True)\<lparr>images :=
          [\<lparr>img_width = 1, img_height = 1, img_data = Some [1, 2], img_format = FmtPNG, img_method = Local, img_len = 2\<rparr>,
           \<lparr>img_width = 1, img_height = 1, img_data = Some [3], img_format = FmtJPEG, img_method = Local, img_len = 1\<rparr>]\<rparr>)
       ''art'' 1 True Map.empty = (fs', None)
     \<and> fs' ''art-01.png'' = Some [1, 2] \<and> fs' ''art-02.jpg'' = Some [3] \<and> fs' ''art.itc'' = None"
proof -
  let ?st = "(itc_init ITUNES_9 True)\<lparr>images :=
          [\<lparr>img_width = 1, img_height = 1, img_data = Some [1, 2], img_format = FmtPNG, img_method = Local, img_len = 2\<rparr>,
           \<lparr>img_width = 1, img_height = 1, img_data = Some [3], img_format = FmtJPEG, img_method = Local, img_len = 1\<rparr>]\<rparr>"
  have "images ?st \<noteq> []" "\<forall>img\<in>set (images ?st). exportable (\<lambda>bs. bs) img"
    by (simp_all add: exportable_def)
  from export_all_files [OF this, of "''art''" Map.empty]
  obtain fs' where fs': "export_image (\<lambda>bs. bs) ?st ''art'' 1 True Map.empty = (fs', None)"
    "\<forall>x<length (images ?st). fs' (export_name ''art'' x (images ?st ! x)) = Some (export_bytes (\<lambda>bs. bs) (images ?st ! x))"
    "\<forall>n. n \<notin> (\<lambda>x. export_name ''art'' x (images ?st ! x)) ` {..<length (images ?st)} \<longrightarrow> fs' n = Map.empty n"
    by blast
  have names: "export_name ''art'' 0 (images ?st ! 0) = ''art-01.png''" "export_name ''art'' 1 (images ?st ! 1) = ''art-02.jpg''"
    by (simp_all add: export_name_def fmt02_def nat_dec.simps export_ext_def char_of_def bit_0)
  have "fs' ''art-01.png'' = Some [1, 2]" "fs' ''art-02.jpg'' = Some [3]"
    using fs'(2) names by (auto simp: export_bytes_def)
  moreover have "''art.itc'' \<notin> (\<lambda>x. export_name ''art'' x (images ?st ! x)) ` {..<length (images ?st)}"
    by (auto simp: export_name_def)
  then have "fs' ''art.itc'' = None"
    using fs'(3) by simp
  ultimately show ?thesis
    using fs'(1) by blast
qed

text \<open>
  C11. Exporting an image that has no data (as a list-only \<open>read\<close> leaves every
  image) and is not ARGB creates its file empty and raises \<open>TypeError\<close> from
  \<open>fp.write(None)\<close>.
\<close>

theorem export_list_only_record:
  assumes "1 \<le> num" "num \<le> int (length (images st))"
    and "img_data (images st ! nat (num - 1)) = None" "img_format (images st ! nat (num - 1)) \<noteq> FmtARGB"
  shows "export_image compress st filename num False fs =
           (fs(filename @ ''-'' @ fmt02 (nat num) @ export_ext (img_format (images st ! nat (num - 1))) \<mapsto> []),
            Some TypeError)"
proof -
  have "py_index (images st) (num - 1) = Inr (images st ! nat (num - 1))"
    using assms(1,2) by (simp add: py_index_def)
  then show ?thesis
    using assms by (simp add: export_image_def export_image_data_def)
qed

theorem export_list_only_record_witness:
  "export_image (\<lambda>bs. bs)
     ((itc_init ITUNES_9 True)\<lparr>images :=
        [\<lparr>img_width = 1, img_height = 1, img_data = None, img_format = FmtPNG, img_method = Local, img_len = 2\<rparr>]\<rparr>)
     ''art'' 1 False Map.empty = (Map.empty(''art-01.png'' \<mapsto> []), Some TypeError)"
  using export_list_only_record [of 1 "(itc_init ITUNES_9 True)\<lparr>images :=
        [\<lparr>img_width = 1, img_height = 1, img_data = None, img_format = FmtPNG, img_method = Local, img_len = 2\<rparr>]\<rparr>"
      "\<lambda>bs. bs" "''art''" Map.empty]
  by (simp add: fmt02_def nat_dec.simps export_ext_def char_of_def bit_0)

text \<open>
  C12. \<open>export_image\<close> on a container with no images raises \<open>IndexError\<close>
  and writes nothing, for every \<open>num\<close> and also when all images are asked for.
\<close>

theorem export_empty_container:
  "images st = [] \<Longrightarrow> export_image compress st filename num all fs = (fs, Some IndexError)"
  by (simp add: export_image_def)

theorem export_empty_container_witness:
  "export_image (\<lambda>bs. bs) (itc_init ITUNES_9 True) ''art'' 1 True Map.empty = (Map.empty, Some IndexError)"
  by (rule export_empty_container) (simp add: itc_init_def)

text \<open>
  C15. An image added with \<open>add_image\<close> from a \<open>.jpg\<close> file has format
  \<open>'JPG'\<close>, for which \<open>_export_image_data\<close> chooses no extension: exporting
  it writes its bytes to \<open>filename-NN\<close>, without \<open>.jpg\<close>.
\<close>

theorem added_jpg_exported_without_extension:
  assumes add: "add_image fs0 path w h st = Inr st'" and found: "fs0 path = Some d"
    and jpg: "py_lower (splitext_ext path) = ''.jpg''"
  shows "export_image compress st' name (int (length (images st'))) False fs =
           (fs(name @ ''-'' @ fmt02 (length (images st')) \<mapsto> d), None)"
proof -
  have st': "images st' = images st @ [\<lparr>img_width = w, img_height = h, img_data = Some d,
      img_format = FmtJPG, img_method = Local, img_len = int (length d)\<rparr>]"
    using add found jpg by (auto simp: add_image_def Let_def)
  have "py_index (images st') (int (length (images st')) - 1) = Inr (last (images st'))"
    using st' by (simp add: py_index_def nth_append)
  moreover have "nat (1 + int (length (images st))) = Suc (length (images st))"
    by simp
  ultimately show ?thesis
    using st' by (simp add: export_image_def export_image_data_def export_ext_def)
qed

theorem added_jpg_exported_without_extension_witness:
  "\<exists>st'. add_image (Map.empty(''cover.jpg'' \<mapsto> [1, 2])) ''cover.jpg'' 10 20 (itc_init ITUNES_9 True) = Inr st'
     \<and> export_image (\<lambda>bs. bs) st' ''out'' 1 False Map.empty = (Map.empty(''out-01'' \<mapsto> [1, 2]), None)"
proof -
  obtain st' where st': "add_image (Map.empty(''cover.jpg'' \<mapsto> [1, 2])) ''cover.jpg'' 10 20 (itc_init ITUNES_9 True) = Inr st'"
    by (simp add: add_image_def splitext_ext_def path_basename_def py_lower_def)
  have len: "length (images st') = 1"
    using st' by (auto simp: add_image_def splitext_ext_def path_basename_def py_lower_def itc_init_def)
  have "export_image (\<lambda>bs. bs) st' ''out'' (int (length (images st'))) False Map.empty =
          (Map.empty(''out'' @ ''-'' @ fmt02 (length (images st')) \<mapsto> [1, 2]), None)"
    by (rule added_jpg_exported_without_extension [OF st'])
       (simp_all add: splitext_ext_def path_basename_def py_lower_def)
  then show ?thesis
    using st' len by (simp add: fmt02_def nat_dec.simps char_of_def bit_0)
qed

end
