(* ===== verification/ITC_Reader_Inv.thy ===== *)
theory ITC_Reader_Inv
  imports ITC_Reader
begin

text \<open>
  The read loop of \<open>ITCFile.read\<close> as a transition system: \<open>read_steps\<close>
  relates a state and stream to those reached by \<open>_read_frame\<close> steps that do
  not end the loop. \<open>read_loop\<close> returning means a run of such steps followed by
  a final one, and an invariant of every \<open>_read_frame\<close> step holds of the
  container \<open>read\<close> returns: every record has data exactly when the read was
  not list-only, and the library and track ids are set exactly when a record has
  been read.
\<close>

inductive read_steps :: "bool \<Rightarrow> itc \<Rightarrow> stream \<Rightarrow> itc \<Rightarrow> stream \<Rightarrow> bool" where
  refl: "read_steps lo st s st s"
| step: "read_frame lo st s = Inr (False, st1, s1) \<Longrightarrow> read_steps lo st1 s1 st' s' \<Longrightarrow>
         read_steps lo st s st' s'"

definition read_inv :: "bool \<Rightarrow> itc \<Rightarrow> bool" where
  "read_inv lo st \<longleftrightarrow>
     (\<forall>img\<in>set (images st). (img_data img = None) = lo)
     \<and> (images st = [] \<longleftrightarrow> library st = None) \<and> (images st = [] \<longleftrightarrow> track st = None)"

section \<open>Lemmas\<close>

lemma read_payload_data: "read_payload lo n s = Inr (d, s') \<Longrightarrow> (d = None) = lo"
  by (auto simp: read_payload_def rbind_eq_Inr_iff case_prod_beta split: if_splits)

lemma reconcile_library_Inr:
  "reconcile_library l st = Inr st' \<Longrightarrow> st' = st\<lparr>library := Some l\<rparr>"
  by (simp add: reconcile_library_eq split: if_splits)

lemma reconcile_track_Inr:
  "reconcile_track t st = Inr st' \<Longrightarrow> st' = st\<lparr>track := Some t\<rparr>"
  by (simp add: reconcile_track_eq split: if_splits)

lemma parse_item_appends:
  assumes "parse_item lo fsize st s = Inr (st', s')"
  shows "\<exists>img. images st' = images st @ [img] \<and> (img_data img = None) = lo
           \<and> library st' \<noteq> None \<and> track st' \<noteq> None"
proof -
  have pre: "images (fst (read_preamble o' st0 s0)) = images st0" for o' st0 s0
    by (simp add: read_preamble_def Let_def case_prod_beta)
  show ?thesis
    using assms unfolding parse_item_def Let_def case_prod_beta
    by (auto simp: rbind_eq_Inr_iff pre dest!: reconcile_library_Inr reconcile_track_Inr read_payload_data)
qed

lemma read_inv_append:
  "read_inv lo st \<Longrightarrow> images st' = images st @ [img] \<Longrightarrow> (img_data img = None) = lo \<Longrightarrow>
   library st' \<noteq> None \<Longrightarrow> track st' \<noteq> None \<Longrightarrow> read_inv lo st'"
  by (auto simp: read_inv_def)

lemma handle_frame_inv:
  "handle_frame lo frame fsize st s = Inr (st', s') \<Longrightarrow> read_inv lo st \<Longrightarrow> read_inv lo st'"
  "parse_itch lo frame fsize st s = Inr (st', s') \<Longrightarrow> read_inv lo st \<Longrightarrow> read_inv lo st'"
proof (induction lo frame fsize st s and lo frame fsize st s arbitrary: st' s' and st' s'
       rule: handle_frame_parse_itch.induct)
  case (1 lo frame fsize st s)
  show ?case
  proof (cases "frame = tag_itch")
    case True
    with 1 show ?thesis by (simp add: handle_frame.simps [of lo tag_itch])
  next
    case False
    with 1(2,3) show ?thesis
      by (auto simp: handle_frame.simps [of lo frame] parse_artw_def rbind_eq_Inr_iff
          split: if_splits dest!: parse_item_appends intro: read_inv_append)
  qed
next
  case (2 lo frame fsize st s)
  then show ?case
    by (auto simp: parse_itch.simps [of lo frame] rbind_eq_Inr_iff)
qed

lemma read_frame_inv:
  "read_frame lo st s = Inr (b, st', s') \<Longrightarrow> read_inv lo st \<Longrightarrow> read_inv lo st'"
  by (auto simp: read_frame_def rbind_eq_Inr_iff case_prod_beta split: if_splits dest: handle_frame_inv(1))

lemma read_steps_inv:
  "read_steps lo st s st' s' \<Longrightarrow> read_inv lo st \<Longrightarrow> read_inv lo st'"
  by (induction rule: read_steps.induct) (auto dest: read_frame_inv)

text \<open>A run of \<open>read_loop\<close> that returns a container is a run of \<open>read_steps\<close> and a final frame.\<close>

lemma read_loop_steps:
  assumes "read_loop lo st s = Some (Inr (st', s'))"
  shows "\<exists>st1 s1. read_steps lo st s st1 s1 \<and> read_frame lo st1 s1 = Inr (True, st', s')"
proof -
  let ?Q = "\<lambda>l t u r. \<forall>st' s'. r = Inr (st', s') \<longrightarrow>
              (\<exists>st1 s1. read_steps l t u st1 s1 \<and> read_frame l st1 s1 = Inr (True, st', s'))"
  have "?Q l t u r" if "read_loop l t u = Some r" for l t u r
  proof (rule read_loop.raw_induct [where P = ?Q, OF _ that])
    fix f l t u r
    assume IH: "\<And>l0 t0 u0 r0. f l0 t0 u0 = Some r0 \<Longrightarrow> ?Q l0 t0 u0 r0"
      and eq: "(case read_frame l t u of Inl e \<Rightarrow> Some (Inl e)
               | Inr (fin, st1, s1) \<Rightarrow> if fin then Some (Inr (st1, s1)) else f l st1 s1) = Some r"
    show "?Q l t u r"
    proof (cases "read_frame l t u")
      case (Inl e)
      with eq show ?thesis by auto
    next
      case (Inr x)
      obtain fin t1 u1 where x: "x = (fin, t1, u1)" by (cases x) blast
      show ?thesis
      proof (cases fin)
        case True
        with eq Inr x show ?thesis by (auto intro: read_steps.refl)
      next
        case False
        with eq Inr x have "f l t1 u1 = Some r" by simp
        moreover have "read_frame l t u = Inr (False, t1, u1)"
          using Inr x False by simp
        ultimately show ?thesis
          using IH read_steps.step by blast
      qed
    qed
  qed
  with assms show ?thesis by blast
qed

text \<open>A run of \<open>read\<close> that returns: the loop's steps from the reset object at position 0, then the final frame.\<close>

lemma itc_read_run:
  assumes "itc_read fs filename lo st = Some (Inr r)"
  obtains c st1 s1 s' where "fs filename = Some c"
    "read_steps lo (st\<lparr>itc_filename := filename, library := None, track := None, images := []\<rparr>)
       \<lparr>content = c, pos = 0\<rparr> st1 s1"
    "read_frame lo st1 s1 = Inr (True, r, s')"
proof -
  obtain c z where c: "fs filename = Some c"
    and z: "read_loop lo (st\<lparr>itc_filename := filename, library := None, track := None, images := []\<rparr>)
                 \<lparr>content = c, pos = 0\<rparr> = Some z" and r: "map_sum id fst z = Inr r"
    using assms by (auto simp: itc_read_def split: option.splits)
  obtain s' where "z = Inr (r, s')"
    using r by (cases z) auto
  with z have loop: "read_loop lo (st\<lparr>itc_filename := filename, library := None, track := None, images := []\<rparr>)
                 \<lparr>content = c, pos = 0\<rparr> = Some (Inr (r, s'))"
    by simp
  obtain st1 s1 where steps:
    "read_steps lo (st\<lparr>itc_filename := filename, library := None, track := None, images := []\<rparr>)
       \<lparr>content = c, pos = 0\<rparr> st1 s1" "read_frame lo st1 s1 = Inr (True, r, s')"
    using read_loop_steps [OF loop] by blast
  show ?thesis
    by (rule that [OF c steps])
qed

text \<open>
  C13. Every container \<open>read\<close> returns satisfies the reader's invariant: each
  record has data exactly when the read was not list-only, and the library and
  track ids are set exactly when at least one record was read.
\<close>

theorem read_result_inv:
  assumes "itc_read fs filename lo st = Some (Inr r)"
  shows "read_inv lo r"
proof -
  obtain c st1 s1 s' where "fs filename = Some c"
    "read_steps lo (st\<lparr>itc_filename := filename, library := None, track := None, images := []\<rparr>)
       \<lparr>content = c, pos = 0\<rparr> st1 s1" "read_frame lo st1 s1 = Inr (True, r, s')"
    by (rule itc_read_run [OF assms])
  moreover have "read_inv lo (st\<lparr>itc_filename := filename, library := None, track := None, images := []\<rparr>)"
    by (simp add: read_inv_def)
  ultimately show ?thesis
    by (blast dest: read_steps_inv read_frame_inv)
qed

end
