(* ===== verification/ITC_Reader_Term.thy ===== *)
theory ITC_Reader_Term
  imports ITC_Reader_Inv
begin

text \<open>
  When \<open>ITCFile.read\<close> returns. Every \<open>_read_frame\<close> step that does not end
  the loop either moves the position forward or stands at a frame header of an
  \<open>item\<close> frame of size 0 whose image offset is 0 as well (\<open>zero_item_frame\<close>;
  in list-only mode the offset does not matter, the seek of \<open>size - offset\<close>
  bytes back to the start is relative to it). Since the file does not change,
  \<open>length content - pos\<close> measures the loop, and \<open>read\<close> returns on every
  file without such a frame. The frame itself makes the loop run forever
  (\<open>read_loop_size_zero_item_diverges\<close> in ITC_Reader).
\<close>


definition zero_item_frame :: "bool \<Rightarrow> bytes" where
  "zero_item_frame lo = be_bytes 4 0 @ tag_item @ (if lo then [] else be_bytes 4 0)"

section \<open>Progress of a frame\<close>

lemma read_preamble_content [simp]: "content (snd (read_preamble off st s)) = content s"
  by (simp add: read_preamble_def Let_def case_prod_beta)

lemma read_preamble_image_offset [simp]: "image_offset (fst (read_preamble off st s)) = image_offset st"
  by (simp add: read_preamble_def Let_def case_prod_beta)

lemma py_read_fst: "fst (py_read n s) = (if n < 0 then drop (pos s) (content s) else take (nat n) (drop (pos s) (content s)))"
  by (simp add: py_read_def Let_def)

lemma py_seek_Inr: "py_seek p s = Inr s' \<longleftrightarrow> 0 \<le> p \<and> s' = s\<lparr>pos := nat p\<rparr>"
  by (auto simp: py_seek_def)

lemma py_seek_cur_content: "py_seek_cur d s = Inr s' \<Longrightarrow> content s' = content s"
  by (auto simp: py_seek_cur_def py_seek_def split: if_splits)

lemma parse_item_shape:
  assumes "parse_item lo fsize st s = Inr (st', s')"
  shows "\<exists>s6 d. length (take 4 (drop (pos s) (content s))) = 4 \<and> content s6 = content s \<and>
    int (pos s6) = int (pos s) + int (be_val (take 4 (drop (pos s) (content s)))) - 8 \<and>
    read_payload lo (int fsize - int (be_val (take 4 (drop (pos s) (content s))))) s6 = Inr (d, s')"
  using assms
  apply (auto simp: parse_item_def Let_def case_prod_beta rbind_eq_Inr_iff unpack_uint_def py_seek_Inr py_read_fst
      dest!: reconcile_library_Inr reconcile_track_Inr py_seek_cur_content split: if_splits)
  apply (rule exI, intro conjI)
    prefer 3 apply (rule exI, assumption)
   apply simp_all
  done

lemma read_payload_pos:
  "read_payload lo n s = Inr (d, s') \<Longrightarrow> content s' = content s \<and>
     (if lo then int (pos s') = int (pos s) + n else pos s' = pos s + length (fst (py_read n s)))"
  by (auto simp: read_payload_def py_seek_cur_def py_seek_Inr py_read_pos case_prod_beta
      rbind_eq_Inr_iff split: if_splits)

lemma be_val_zero_bytes: "length bs = 4 \<Longrightarrow> be_val bs = 0 \<Longrightarrow> bs = be_bytes 4 0"
  using be_bytes_be_val [of bs] by simp

lemma parse_item_progress:
  assumes "parse_item lo fsize st s = Inr (st', s')" "8 \<le> pos s" "pos s \<le> length (content s)"
  shows "content s' = content s \<and> pos s - 8 \<le> pos s' \<and>
    (pos s' = pos s - 8 \<longrightarrow> fsize = 0 \<and> (lo \<or> take 4 (drop (pos s) (content s)) = be_bytes 4 0))"
proof -
  let ?off = "be_val (take 4 (drop (pos s) (content s)))"
  obtain s6 d where l4: "length (take 4 (drop (pos s) (content s))) = 4"
    and c6: "content s6 = content s" and p6: "int (pos s6) = int (pos s) + int ?off - 8"
    and rp: "read_payload lo (int fsize - int ?off) s6 = Inr (d, s')"
    using parse_item_shape [OF assms(1)] by blast
  note r = read_payload_pos [OF rp]
  show ?thesis
  proof (cases lo)
    case True
    with r p6 c6 assms(2) show ?thesis by auto
  next
    case False
    with r have ps: "pos s' = pos s6 + length (fst (py_read (int fsize - int ?off) s6))" by simp
    have "fsize = 0 \<and> ?off = 0" if "pos s' = pos s - 8"
    proof -
      have off0: "?off = 0" and len0: "length (fst (py_read (int fsize - int ?off) s6)) = 0"
        using that ps p6 assms(2) by linarith+
      have "pos s6 < length (content s6)"
        using p6 off0 assms(2,3) l4 c6 by auto
      with len0 off0 show ?thesis
        by (auto simp: py_read_fst split: if_splits)
    qed
    moreover have "pos s - 8 \<le> pos s'"
      using ps p6 assms(2) by linarith
    ultimately show ?thesis
      using r c6 l4 be_val_zero_bytes by auto
  qed
qed

lemma handle_frame_progress:
  "handle_frame lo frame fsize st s = Inr (st', s') \<Longrightarrow> 8 \<le> pos s \<Longrightarrow> pos s \<le> length (content s) \<Longrightarrow>
     content s' = content s \<and> pos s - 8 \<le> pos s' \<and>
     (pos s' = pos s - 8 \<longrightarrow> frame = tag_item \<and> fsize = 0 \<and>
        (lo \<or> take 4 (drop (pos s) (content s)) = be_bytes 4 0))"
  "parse_itch lo frame fsize st s = Inr (st', s') \<Longrightarrow> 8 \<le> pos s \<Longrightarrow> pos s \<le> length (content s) \<Longrightarrow>
     content s' = content s \<and> pos s - 8 < pos s'"
proof (induction lo frame fsize st s and lo frame fsize st s arbitrary: st' s' and st' s'
       rule: handle_frame_parse_itch.induct)
  case (1 lo frame fsize st s)
  show ?case
  proof (cases "frame = tag_itch")
    case True
    with 1(2) have "parse_itch lo frame fsize st s = Inr (st', s')"
      by (simp add: handle_frame.simps [of lo tag_itch])
    with 1(1) [OF True] 1(3,4) True show ?thesis
      by (auto simp: tag_itch_def tag_item_def)
  next
    case False
    with 1(2-4) show ?thesis
      by (auto simp: handle_frame.simps [of lo frame] parse_artw_def rbind_eq_Inr_iff
          split: if_splits dest!: parse_item_progress)
  qed
next
  case (2 lo frame fsize st s)
  from 2(2) obtain s1 sub where s1: "py_seek_cur 16 s = Inr s1"
    and sub: "unpack_str 4 (fst (py_read 4 s1)) = Inr sub"
    and h: "handle_frame lo sub fsize st (snd (py_read 4 s1)) = Inr (st', s')"
    by (auto simp: parse_itch.simps [of lo frame] rbind_eq_Inr_iff)
  have "pos (snd (py_read 4 s1)) = pos s + 20" "content (snd (py_read 4 s1)) = content s"
    "pos (snd (py_read 4 s1)) \<le> length (content s)"
    using s1 sub by (auto simp: unpack_str_def py_read_def Let_def split: if_splits)
  with 2(1) [OF s1 sub h] 2(3) show ?case by auto
qed

lemma read_frame_progress:
  assumes "read_frame lo st s = Inr (False, st', s')"
  shows "content s' = content s \<and> pos s + 8 \<le> length (content s) \<and>
    (pos s < pos s' \<or> take (length (zero_item_frame lo)) (drop (pos s) (content s)) = zero_item_frame lo)"
proof -
  let ?d = "take 8 (drop (pos s) (content s))"
  have d8: "length ?d = 8" and h: "handle_frame lo (drop 4 ?d) (be_val (take 4 ?d)) st
      (s\<lparr>pos := pos s + 8\<rparr>) = Inr (st', s')"
    using assms by (auto simp: read_frame_def py_read_def Let_def unpack_frame_header_def
        rbind_eq_Inr_iff split: if_splits)
  then have len: "pos s + 8 \<le> length (content s)" by simp
  note p = handle_frame_progress(1) [OF h, simplified, OF len]
  have "take (length (zero_item_frame lo)) (drop (pos s) (content s)) = zero_item_frame lo"
    if stall: "pos s' = pos s"
  proof -
    have tag: "drop 4 ?d = tag_item" and sz: "take 4 ?d = be_bytes 4 0"
      and rest: "lo \<or> take 4 (drop (pos s + 8) (content s)) = be_bytes 4 0"
      using p stall d8 be_val_zero_bytes [of "take 4 ?d"] by auto
    have d: "?d = be_bytes 4 0 @ tag_item"
      using tag sz append_take_drop_id [of 4 ?d] by simp
    show ?thesis
    proof (cases lo)
      case True
      with d show ?thesis by (simp add: zero_item_frame_def tag_item_def bstr_def)
    next
      case False
      have "take 12 (drop (pos s) (content s)) = ?d @ take 4 (drop (pos s + 8) (content s))"
        using take_add [of 8 4 "drop (pos s) (content s)"] by (simp add: add.commute)
      with False d rest show ?thesis by (simp add: zero_item_frame_def tag_item_def bstr_def)
    qed
  qed
  with p len show ?thesis by fastforce
qed

section \<open>Termination of the read loop\<close>

lemma read_loop_returns:
  assumes "\<forall>p. take (length (zero_item_frame lo)) (drop p (content s)) \<noteq> zero_item_frame lo"
  shows "\<exists>r. read_loop lo st s = Some r"
  using assms
proof (induction "length (content s) - pos s" arbitrary: st s rule: less_induct)
  case less
  show ?case
  proof (cases "read_frame lo st s")
    case (Inl e)
    then show ?thesis by (simp add: read_loop.simps)
  next
    case (Inr x)
    obtain fin st1 s1 where x: "x = (fin, st1, s1)" by (cases x) blast
    show ?thesis
    proof (cases fin)
      case True
      with Inr x show ?thesis by (simp add: read_loop.simps)
    next
      case False
      with Inr x have f: "read_frame lo st s = Inr (False, st1, s1)" by simp
      note p = read_frame_progress [OF f]
      with less.prems have "content s1 = content s" "pos s < pos s1" "pos s + 8 \<le> length (content s)"
        by auto
      then have "\<exists>r. read_loop lo st1 s1 = Some r"
        using less.hyps less.prems by simp
      with f show ?thesis by (simp add: read_loop.simps)
    qed
  qed
qed

text \<open>
  C16. \<open>read\<close> returns, with a container or an exception, on every file that
  holds no zero-size \<open>item\<close> frame with image offset 0 (in list-only mode: no
  zero-size \<open>item\<close> frame) at any position: the read loop terminates.
\<close>

theorem read_returns:
  assumes "fs filename = Some c"
    and "\<forall>p. take (length (zero_item_frame lo)) (drop p c) \<noteq> zero_item_frame lo"
  shows "\<exists>r. itc_read fs filename lo st = Some r"
  using read_loop_returns [of lo "\<lparr>content = c, pos = 0\<rparr>"] assms
  by (auto simp: itc_read_def)

text \<open>A file holding one 8-byte frame of an unknown kind.\<close>

theorem read_returns_witness:
  "(\<forall>p. take (length (zero_item_frame False)) (drop p (be_bytes 4 8 @ bstr ''free''))
        \<noteq> zero_item_frame False) \<and>
   (\<exists>r. itc_read [''a.itc'' \<mapsto> be_bytes 4 8 @ bstr ''free''] ''a.itc'' False (itc_init ITUNES_9 True) = Some r)"
proof -
  have short: "\<forall>p. take (length (zero_item_frame False)) (drop p (be_bytes 4 8 @ bstr ''free''))
        \<noteq> zero_item_frame False"
  proof
    fix p
    have "length (take (length (zero_item_frame False)) (drop p (be_bytes 4 8 @ bstr ''free''))) \<le> 8"
      by (simp add: bstr_def)
    moreover have "length (zero_item_frame False) = 12"
      by (simp add: zero_item_frame_def tag_item_def bstr_def)
    ultimately have "length (take (length (zero_item_frame False)) (drop p (be_bytes 4 8 @ bstr ''free'')))
        \<noteq> length (zero_item_frame False)"
      by linarith
    then show "take (length (zero_item_frame False)) (drop p (be_bytes 4 8 @ bstr ''free''))
        \<noteq> zero_item_frame False"
      by (rule contrapos_nn) simp
  qed
  show ?thesis
    using short read_returns [of "[''a.itc'' \<mapsto> be_bytes 4 8 @ bstr ''free'']" "''a.itc''"] by simp
qed

end
