(* ===== verification/ITC_Reader_Types.thy ===== *)
theory ITC_Reader_Types
  imports ITC_Reader_Term
begin

text \<open>
  The types of the records \<open>ITCFile.read\<close> builds: \<open>_parse_item\<close> unpacks
  width and height with \<open>'!LL'\<close> from the eight bytes it reads after the ids,
  and the frame size and image offset with \<open>'!L'\<close>. So every record it
  appends has as width and height the two big-endian 32-bit words of one
  8-byte field of the file, width first, and a recorded length of the width of
  a difference of two such words (\<open>typed_image\<close>); the records of a container
  that \<open>read\<close> returns are all appended that way.
\<close>

definition typed_image :: "bytes \<Rightarrow> image \<Rightarrow> bool" where
  "typed_image c img \<longleftrightarrow>
     (\<exists>p<length c. p + 8 \<le> length c \<and> img_width img = int (be_val (take 4 (drop p c))) \<and>
        img_height img = int (be_val (take 4 (drop (p + 4) c)))) \<and>
     - (2 ^ 32) < img_len img \<and> img_len img < 2 ^ 32"

lemma be_val_lt4: "length bs = 4 \<Longrightarrow> be_val bs < 4294967296"
  using be_val_lt [of bs] by simp

lemma be_val_halves8:
  "length bs = 8 \<Longrightarrow> be_val (take 4 bs) < 4294967296"
  "length bs = 8 \<Longrightarrow> be_val (drop 4 bs) < 4294967296"
  by (simp_all add: be_val_lt4)

text \<open>What \<open>struct.unpack('!LL', self._rs.read(8))\<close> sees when it succeeds.\<close>

lemma py_read8_fields:
  assumes "length (fst (py_read 8 s)) = 8"
  shows "\<exists>p<length (content s). p + 8 \<le> length (content s) \<and>
           take 4 (fst (py_read 8 s)) = take 4 (drop p (content s)) \<and>
           drop 4 (fst (py_read 8 s)) = take 4 (drop (p + 4) (content s))"
  using assms by (intro exI [of _ "pos s"]) (auto simp: py_read_fst drop_take add.commute min_def split: if_splits)

lemma parse_item_typed:
  assumes "parse_item lo fsize st s = Inr (st', s')" "fsize < 2 ^ 32"
  shows "\<exists>img. images st' = images st @ [img] \<and> typed_image (content s) img"
proof -
  have pre: "images (fst (read_preamble o' st0 s0)) = images st0" for o' st0 s0
    by (simp add: read_preamble_def Let_def case_prod_beta)
  show ?thesis
    using assms be_val_lt4 [of "fst (py_read 4 s)"] unfolding parse_item_def Let_def case_prod_beta
    apply (auto simp: rbind_eq_Inr_iff pre unpack_wh_def unpack_uint_def typed_image_def
        dest!: reconcile_library_Inr reconcile_track_Inr py_read8_fields
        dest: py_seek_cur_content split: if_splits)
    subgoal for a p by (rule exI [of _ p]) simp
    done
qed

lemma handle_frame_typed:
  "handle_frame lo frame fsize st s = Inr (st', s') \<Longrightarrow> fsize < 2 ^ 32 \<Longrightarrow>
     \<exists>new. images st' = images st @ new \<and> list_all (typed_image (content s)) new"
  "parse_itch lo frame fsize st s = Inr (st', s') \<Longrightarrow> fsize < 2 ^ 32 \<Longrightarrow>
     \<exists>new. images st' = images st @ new \<and> list_all (typed_image (content s)) new"
proof (induction lo frame fsize st s and lo frame fsize st s arbitrary: st' s' and st' s'
       rule: handle_frame_parse_itch.induct)
  case (1 lo frame fsize st s)
  show ?case
  proof (cases "frame = tag_itch")
    case True
    with 1 show ?thesis by (simp add: handle_frame.simps [of lo tag_itch])
  next
    case False
    with 1(2,3) show ?thesis
      by (fastforce simp: handle_frame.simps [of lo frame] parse_artw_def rbind_eq_Inr_iff
          split: if_splits dest!: parse_item_typed)
  qed
next
  case (2 lo frame fsize st s)
  from 2(2) obtain s1 sub where s1: "py_seek_cur 16 s = Inr s1"
    and sub: "unpack_str 4 (fst (py_read 4 s1)) = Inr sub"
    and h: "handle_frame lo sub fsize st (snd (py_read 4 s1)) = Inr (st', s')"
    by (auto simp: parse_itch.simps [of lo frame] rbind_eq_Inr_iff)
  have "content (snd (py_read 4 s1)) = content s"
    using py_seek_cur_content [OF s1] by simp
  with 2(1) [OF s1 sub h 2(3)] show ?case by simp
qed

lemma read_frame_typed:
  "read_frame lo st s = Inr (b, st', s') \<Longrightarrow>
     \<exists>new. images st' = images st @ new \<and> list_all (typed_image (content s)) new"
  by (fastforce simp: read_frame_def rbind_eq_Inr_iff case_prod_beta unpack_frame_header_def be_val_halves8
      split: if_splits dest: handle_frame_typed(1))

text \<open>Along a run of the read loop the stream keeps its bytes and the list of records only grows.\<close>

lemma read_steps_typed:
  "read_steps lo st s st' s' \<Longrightarrow>
     \<exists>new. images st' = images st @ new \<and> list_all (typed_image (content s)) new \<and> content s' = content s"
proof (induction rule: read_steps.induct)
  case (refl lo st s)
  then show ?case by simp
next
  case (step lo st s st1 s1 st' s')
  have "content s1 = content s"
    using read_frame_progress [OF step.hyps(1)] by simp
  with step show ?case by (fastforce dest: read_frame_typed)
qed


end
