(* ===== verification/ITC_Reader_Modes.thy ===== *)
theory ITC_Reader_Modes
  imports ITC_Reader_Types
begin

text \<open>
  List-only and full reads (\<open>read(filename, list_only)\<close>). \<open>_parse_item\<close>
  does the same work in both modes up to the payload (\<open>item_prefix\<close>), then
  reads \<open>size - image_offset\<close> bytes or seeks over them. When that length is
  not negative both seeks end at the same position, or both past the end of the
  file, so the two runs of the loop go in step (\<open>pos_rel\<close>), and list-only
  mode returns the full read's records without their data (\<open>strip_itc\<close>).
\<close>


text \<open>\<open>_parse_item\<close> up to the payload: the record with no data yet, and the stream at its start.\<close>

definition item_prefix :: "nat \<Rightarrow> itc \<Rightarrow> stream \<Rightarrow> error + (itc \<times> stream \<times> image)" where
  "item_prefix fsize st s0 =
     (let start = pos s0;
          (b, s1) = py_read 4 s0 in
      rbind (unpack_uint 4 b) (\<lambda>off.
      let (st1, s2) = read_preamble (int off) (st\<lparr>image_offset := int off\<rparr>) s1;
          (b2, s3) = py_read 24 s2 in
      rbind (unpack_item_ids b2) (\<lambda>(lib, trk, imethod, iformat).
      rbind (reconcile_library lib st1) (\<lambda>st2.
      rbind (reconcile_track trk st2) (\<lambda>st3.
      let method = decode_method imethod;
          format = decode_format iformat in
      rbind (py_seek_cur 4 s3) (\<lambda>s4.
      let (b3, s5) = py_read 8 s4 in
      rbind (unpack_wh b3) (\<lambda>(width, height).
      let image_pos = int start + image_offset st3 - 8 in
      rbind (py_seek image_pos s5) (\<lambda>s6.
      let data_size = int fsize - image_offset st3 in
      Inr (st3, s6, \<lparr>img_width = int width, img_height = int height, img_data = None,
                    img_format = format, img_method = method, img_len = data_size\<rparr>)))))))))"

text \<open>The container without its payloads, and positions that agree or both lie past the end.\<close>

definition strip_itc :: "itc \<Rightarrow> itc" where
  "strip_itc st = st\<lparr>images := map (\<lambda>i. i\<lparr>img_data := None\<rparr>) (images st)\<rparr>"

definition pos_rel :: "bytes \<Rightarrow> nat \<Rightarrow> nat \<Rightarrow> bool" where
  "pos_rel c p1 p2 \<longleftrightarrow> p1 = p2 \<or> (length c \<le> p1 \<and> length c \<le> p2)"

section \<open>Lemmas\<close>

lemma parse_item_split:
  "parse_item lo fsize st s =
     rbind (item_prefix fsize st s) (\<lambda>(st3, s6, img).
     rbind (read_payload lo (img_len img) s6) (\<lambda>(d, s7).
     Inr (st3\<lparr>images := images st3 @ [img\<lparr>img_data := d\<rparr>]\<rparr>, s7)))"
  unfolding parse_item_def item_prefix_def
  by (simp add: Let_def case_prod_beta rbind_def split: sum.split)

lemma strip_itc_simps [simp]:
  "library (strip_itc st) = library st" "track (strip_itc st) = track st"
  "image_offset (strip_itc st) = image_offset st" "info_preamble (strip_itc st) = info_preamble st"
  "(strip_itc st)\<lparr>image_offset := o'\<rparr> = strip_itc (st\<lparr>image_offset := o'\<rparr>)"
  "(strip_itc st)\<lparr>info_preamble := p\<rparr> = strip_itc (st\<lparr>info_preamble := p\<rparr>)"
  "(strip_itc st)\<lparr>library := l\<rparr> = strip_itc (st\<lparr>library := l\<rparr>)"
  "(strip_itc st)\<lparr>track := t\<rparr> = strip_itc (st\<lparr>track := t\<rparr>)"
  by (simp_all add: strip_itc_def)

lemma read_preamble_strip:
  "read_preamble off (strip_itc st) s = (strip_itc (fst (read_preamble off st s)), snd (read_preamble off st s))"
  by (simp add: read_preamble_def Let_def case_prod_beta)

lemma reconcile_strip:
  "reconcile_library l (strip_itc st) = map_sum id strip_itc (reconcile_library l st)"
  "reconcile_track t (strip_itc st) = map_sum id strip_itc (reconcile_track t st)"
  by (simp_all add: reconcile_library_def reconcile_track_def split: option.split)

lemma item_prefix_strip:
  "item_prefix fsize (strip_itc st) s =
     map_sum id (\<lambda>(st3, s6, img). (strip_itc st3, s6, img)) (item_prefix fsize st s)"
  unfolding item_prefix_def
  by (simp add: Let_def case_prod_beta rbind_def read_preamble_strip reconcile_strip split: sum.split)

lemma read_payload_modes:
  assumes "read_payload False n s = Inr (d, s1)" "0 \<le> n"
  shows "\<exists>s2. read_payload True n s = Inr (None, s2) \<and> content s2 = content s1 \<and>
           content s1 = content s \<and> pos_rel (content s) (pos s1) (pos s2)"
  using assms by (auto simp: read_payload_def py_read_def Let_def pos_rel_def)

lemma parse_item_modes:
  assumes "parse_item False fsize st s = Inr (st1, s1)" "\<forall>i\<in>set (images st1). 0 \<le> img_len i"
  shows "\<exists>s2. parse_item True fsize (strip_itc st) s = Inr (strip_itc st1, s2) \<and> content s2 = content s1 \<and>
           pos_rel (content s1) (pos s1) (pos s2)"
proof -
  obtain st3 s6 img d where pre: "item_prefix fsize st s = Inr (st3, s6, img)"
    and rp: "read_payload False (img_len img) s6 = Inr (d, s1)"
    and st1: "st1 = st3\<lparr>images := images st3 @ [img\<lparr>img_data := d\<rparr>]\<rparr>"
    using assms(1) by (auto simp: parse_item_split rbind_eq_Inr_iff)
  have "0 \<le> img_len img"
    using assms(2) st1 by auto
  then obtain s2 where rp2: "read_payload True (img_len img) s6 = Inr (None, s2)"
    and c: "content s2 = content s1" "content s1 = content s6" and p: "pos_rel (content s6) (pos s1) (pos s2)"
    using read_payload_modes [OF rp] by blast
  have "parse_item True fsize (strip_itc st) s =
        Inr ((strip_itc st3)\<lparr>images := images (strip_itc st3) @ [img\<lparr>img_data := None\<rparr>]\<rparr>, s2)"
    using pre rp2 by (simp add: parse_item_split item_prefix_strip)
  moreover have "(strip_itc st3)\<lparr>images := images (strip_itc st3) @ [img\<lparr>img_data := None\<rparr>]\<rparr> = strip_itc st1"
    using st1 by (simp add: strip_itc_def)
  ultimately have "parse_item True fsize (strip_itc st) s = Inr (strip_itc st1, s2)"
    by simp
  with c p show ?thesis
    by auto
qed

lemma handle_frame_modes:
  "handle_frame False frame fsize st s = Inr (st1, s1) \<Longrightarrow> \<forall>i\<in>set (images st1). 0 \<le> img_len i \<Longrightarrow>
     \<exists>s2. handle_frame True frame fsize (strip_itc st) s = Inr (strip_itc st1, s2) \<and> content s2 = content s1 \<and>
          pos_rel (content s1) (pos s1) (pos s2)"
  "parse_itch False frame fsize st s = Inr (st1, s1) \<Longrightarrow> \<forall>i\<in>set (images st1). 0 \<le> img_len i \<Longrightarrow>
     \<exists>s2. parse_itch True frame fsize (strip_itc st) s = Inr (strip_itc st1, s2) \<and> content s2 = content s1 \<and>
          pos_rel (content s1) (pos s1) (pos s2)"
proof (induction False frame fsize st s and False frame fsize st s arbitrary: st1 s1 and st1 s1
       rule: handle_frame_parse_itch.induct)
  case (1 frame fsize st s)
  show ?case
  proof (cases "frame = tag_itch")
    case True
    with 1 show ?thesis by (simp add: handle_frame.simps [of _ tag_itch])
  next
    case False
    with 1(2,3) show ?thesis
      by (auto simp: handle_frame.simps [of _ frame] parse_artw_def rbind_eq_Inr_iff pos_rel_def not_sym [OF tag_neqs(2)]
          split: if_splits dest!: parse_item_modes)
  qed
next
  case (2 frame fsize st s)
  then show ?case
    by (auto simp: parse_itch.simps [of _ frame] rbind_eq_Inr_iff)
qed

lemma stream_eqI: "content (a :: stream) = content b \<Longrightarrow> pos a = pos b \<Longrightarrow> a = b"
  by (cases a, cases b) simp

lemma read_frame_modes:
  assumes rf: "read_frame False st s1 = Inr (b, st', s1')" and q: "\<forall>i\<in>set (images st'). 0 \<le> img_len i"
    and c: "content s2 = content s1" and p: "pos_rel (content s1) (pos s1) (pos s2)"
  shows "\<exists>s2'. read_frame True (strip_itc st) s2 = Inr (b, strip_itc st', s2') \<and> content s2' = content s1' \<and>
           pos_rel (content s1') (pos s1') (pos s2')"
proof (cases "pos s1 = pos s2")
  case True
  then have s2: "s2 = s1"
    using c by (simp add: stream_eqI)
  show ?thesis
    using rf q unfolding s2
    by (auto simp: read_frame_def rbind_eq_Inr_iff case_prod_beta pos_rel_def split: if_splits
        dest!: handle_frame_modes(1))
next
  case False
  with p have "length (content s1) \<le> pos s1" "length (content s2) \<le> pos s2"
    using c by (auto simp: pos_rel_def)
  then show ?thesis
    using rf c by (auto simp: read_frame_def py_read_def Let_def pos_rel_def)
qed

lemma read_steps_modes:
  "read_steps False st1 s1 st1' s1' \<Longrightarrow> \<forall>i\<in>set (images st1'). 0 \<le> img_len i \<Longrightarrow>
   content s2 = content s1 \<Longrightarrow> pos_rel (content s1) (pos s1) (pos s2) \<Longrightarrow>
   \<exists>s2'. read_steps True (strip_itc st1) s2 (strip_itc st1') s2' \<and> content s2' = content s1' \<and>
         pos_rel (content s1') (pos s1') (pos s2')"
proof (induction False st1 s1 st1' s1' arbitrary: s2 rule: read_steps.induct)
  case (refl st s)
  then show ?case by (blast intro: read_steps.refl)
next
  case (step st s stm sm st' s')
  obtain new where "images st' = images stm @ new"
    using read_steps_typed [OF step.hyps(2)] by blast
  with step.prems(1) have "\<forall>i\<in>set (images stm). 0 \<le> img_len i"
    by simp
  then obtain s2m where f: "read_frame True (strip_itc st) s2 = Inr (False, strip_itc stm, s2m)"
    and c: "content s2m = content sm" and p: "pos_rel (content sm) (pos sm) (pos s2m)"
    using read_frame_modes [OF step.hyps(1) _ step.prems(2,3)] by blast
  obtain s2' where "read_steps True (strip_itc stm) s2m (strip_itc st') s2'" "content s2' = content s'"
      "pos_rel (content s') (pos s') (pos s2')"
    using step.hyps(3) [OF step.prems(1) c p] by blast
  with f show ?case
    by (blast intro: read_steps.step)
qed

lemma read_steps_loop: "read_steps lo st s st' s' \<Longrightarrow> read_loop lo st s = read_loop lo st' s'"
  by (induction rule: read_steps.induct) (simp_all add: read_loop_continue)

text \<open>
  C26. List-only mode reports the same records as a full read (section 8 of
  the specification), when every record the full read returns has a recorded
  length \<open>size - image_offset\<close> that is not negative: the list-only read then
  returns as well, with the same container except that no record has data.
\<close>

theorem read_list_only_same:
  assumes rd: "itc_read fs f False st = Some (Inr r)" and q: "\<forall>img\<in>set (images r). 0 \<le> img_len img"
  shows "itc_read fs f True st = Some (Inr (strip_itc r))"
proof -
  let ?st0 = "st\<lparr>itc_filename := f, library := None, track := None, images := []\<rparr>"
  obtain c st1 s1 s' where c: "fs f = Some c"
    and steps: "read_steps False ?st0 \<lparr>content = c, pos = 0\<rparr> st1 s1"
    and final: "read_frame False st1 s1 = Inr (True, r, s')"
    by (rule itc_read_run [OF rd])
  obtain new where "images r = images st1 @ new"
    using read_frame_typed [OF final] by blast
  with q have q1: "\<forall>i\<in>set (images st1). 0 \<le> img_len i"
    by simp
  obtain s2 where steps2: "read_steps True (strip_itc ?st0) \<lparr>content = c, pos = 0\<rparr> (strip_itc st1) s2"
    and c2: "content s2 = content s1" and p2: "pos_rel (content s1) (pos s1) (pos s2)"
    using read_steps_modes [OF steps q1, of "\<lparr>content = c, pos = 0\<rparr>"] by (auto simp: pos_rel_def)
  obtain s3 where "read_frame True (strip_itc st1) s2 = Inr (True, strip_itc r, s3)"
    using read_frame_modes [OF final q c2 p2] by blast
  then have "read_loop True (strip_itc ?st0) \<lparr>content = c, pos = 0\<rparr> = Some (Inr (strip_itc r, s3))"
    using read_steps_loop [OF steps2] read_loop_stop by simp
  moreover have "strip_itc ?st0 = ?st0"
    by (simp add: strip_itc_def)
  ultimately show ?thesis
    using c by (simp add: itc_read_def)
qed

end
