(* ===== verification/ITC_Spec.thy ===== *)
theory ITC_Spec
  imports ITC_Roundtrip
begin

text \<open>
  The container as the specification describes it (sections 3 and 4.2 of
  \<open>spec.md\<close>): a list of records with an encoding and a storage kind, the
  library and track ids, the layout variant and the preamble carried from the
  last read. \<open>abs_itc\<close> reads \<open>ITCFile\<close>'s attributes as such a container. The
  specification's writer (\<open>spec_write\<close>) lays the container out frame by
  frame; \<open>itc_write\<close> implements it for every container it can write. The
  specification's \<open>addImage\<close> (\<open>spec_add\<close>) is implemented by
  \<open>add_image\<close>, errors included.
\<close>

section \<open>The abstract container\<close>

datatype encoding = PNG | JPEG | RawARGB | Unclassified

datatype storage = StLocal | Downloaded | StUnclassified

datatype variant = Variant9 | VariantOld

record crecord =
  r_width :: int
  r_height :: int
  r_encoding :: encoding
  r_storage :: storage
  r_payload :: "bytes option"
  r_length :: int

record container =
  c_records :: "crecord list"
  c_library :: "nat option"
  c_track :: "nat option"
  c_variant :: variant
  c_preamble :: bytes

datatype spec_error = UnsupportedFormatError | FileNotFound | OtherError

section \<open>The abstraction\<close>

text \<open>The formats \<open>'JPG'\<close> (added) and \<open>'JPEG'\<close> (read) both denote JPEG.\<close>

definition abs_format :: "image_format \<Rightarrow> encoding" where
  "abs_format f = (case f of FmtPNG \<Rightarrow> PNG | FmtJPEG \<Rightarrow> JPEG | FmtJPG \<Rightarrow> JPEG
                   | FmtARGB \<Rightarrow> RawARGB | FmtNone \<Rightarrow> Unclassified)"

definition abs_method :: "image_method \<Rightarrow> storage" where
  "abs_method m = (case m of Local \<Rightarrow> StLocal | Download \<Rightarrow> Downloaded | MethodNone \<Rightarrow> StUnclassified)"

definition abs_image :: "image \<Rightarrow> crecord" where
  "abs_image i = \<lparr>r_width = img_width i, r_height = img_height i, r_encoding = abs_format (img_format i),
                  r_storage = abs_method (img_method i), r_payload = img_data i, r_length = img_len i\<rparr>"

definition abs_itc :: "itc \<Rightarrow> container" where
  "abs_itc st = \<lparr>c_records = map abs_image (images st), c_library = library st, c_track = track st,
                 c_variant = (if image_offset st = ITUNES_OLD then VariantOld else Variant9),
                 c_preamble = (case info_preamble st of None \<Rightarrow> [] | Some p \<Rightarrow> p)\<rparr>"

definition abs_error :: "error \<Rightarrow> spec_error" where
  "abs_error e = (case e of ITCException UnhandledExtension \<Rightarrow> UnsupportedFormatError
                  | IOError \<Rightarrow> FileNotFound | _ \<Rightarrow> OtherError)"

section \<open>The specification's writer\<close>

definition variant_offset :: "variant \<Rightarrow> nat" where
  "variant_offset v = (case v of Variant9 \<Rightarrow> 208 | VariantOld \<Rightarrow> 216)"

definition encoding_tag :: "encoding \<Rightarrow> bytes" where
  "encoding_tag e = (case e of PNG \<Rightarrow> bstr ''PNGf'' | JPEG \<Rightarrow> [0, 0, 0, 0x0d] | _ \<Rightarrow> [0, 0, 0, 0])"

definition storage_tag :: "storage \<Rightarrow> bytes" where
  "storage_tag s = (case s of StLocal \<Rightarrow> bstr ''locl'' | _ \<Rightarrow> bstr ''down'')"

text \<open>
  One record's \<open>item\<close> frame: size \<open>payloadLength + offset\<close>, the tag, the
  offset, the preamble, the 24-byte id and tag block, 4 zero bytes, width,
  height, 3 zero bytes, width, height; zero padding up to \<open>offset - 4\<close> bytes,
  \<open>data\<close>, 4 more zero bytes for \<open>VariantOld\<close>, the payload.
\<close>

definition spec_item :: "container \<Rightarrow> crecord \<Rightarrow> bytes" where
  "spec_item c r =
     (let off = variant_offset (c_variant c);
          hdr = be_bytes 4 (nat (r_length r + int off)) @ bstr ''item'' @ be_bytes 4 off @ c_preamble c
                @ be_bytes 8 (case c_library c of Some l \<Rightarrow> l | None \<Rightarrow> 0)
                @ be_bytes 8 (case c_track c of Some t \<Rightarrow> t | None \<Rightarrow> 0)
                @ storage_tag (r_storage r) @ encoding_tag (r_encoding r) @ replicate 4 0
                @ be_bytes 4 (nat (r_width r)) @ be_bytes 4 (nat (r_height r)) @ replicate 3 0
                @ be_bytes 4 (nat (r_width r)) @ be_bytes 4 (nat (r_height r))
      in hdr @ replicate (off - length hdr - 4) 0 @ bstr ''data''
         @ (if c_variant c = VariantOld then replicate 4 0 else [])
         @ (case r_payload r of Some p \<Rightarrow> p | None \<Rightarrow> []))"

definition spec_write :: "container \<Rightarrow> bytes" where
  "spec_write c = root_header @ replicate 256 0 @ concat (map (spec_item c) (c_records c))"

section \<open>The specification's \<open>addImage\<close>\<close>

definition spec_add :: "fs \<Rightarrow> string \<Rightarrow> int \<Rightarrow> int \<Rightarrow> container \<Rightarrow> spec_error + container" where
  "spec_add fs path w h c =
     (let ext = py_lower (splitext_ext path) in
      if ext \<notin> {''.jpg'', ''.png''} then Inl UnsupportedFormatError
      else case fs path of
        None \<Rightarrow> Inl FileNotFound
      | Some d \<Rightarrow> Inr (c\<lparr>c_records := c_records c @
          [\<lparr>r_width = w, r_height = h, r_encoding = (if ext = ''.jpg'' then JPEG else PNG),
            r_storage = StLocal, r_payload = Some d, r_length = int (length d)\<rparr>]\<rparr>))"

section \<open>Refinement\<close>

lemma length_spec_tags [simp]:
  "length (encoding_tag e) = 4" "length (storage_tag s) = 4"
  by (cases e; simp add: encoding_tag_def bstr_def) (cases s; simp add: storage_tag_def bstr_def)

lemma encode_format_tag:
  "encode_format f = Inr t \<Longrightarrow> pack_str 4 t = encoding_tag (abs_format f)"
  by (cases f) (auto simp: encoding_tag_def abs_format_def pack_str_def itc_tags bstr_def nuls4_eq)

lemma encode_method_tag:
  "encode_method m = Inr t \<Longrightarrow> pack_str 4 t = storage_tag (abs_method m)"
  by (cases m) (auto simp: storage_tag_def abs_method_def pack_str_def itc_tags bstr_def)

lemma write_image_spec:
  assumes wf: "writable_layout st" "writable_image i" and sz: "img_len i + image_offset st < 2 ^ 32"
  shows "write_image st n i = Inr (spec_item (abs_itc st) (abs_image i))"
proof -
  obtain F where wr: "write_image st n i = Inr F"
    using write_image_writable [OF wf sz] by blast
  obtain d where d: "img_data i = Some d" and len: "img_len i = int (length d)"
    and w: "0 \<le> img_width i" and h: "0 \<le> img_height i"
    using wf(2) by (rule writable_imageE)
  obtain pre lib trk off iformat imethod where
    pre: "info_preamble st = Some pre" "(off = 208 \<and> length pre = 16) \<or> (off = 216 \<and> length pre = 20)"
    and ids: "library st = Some lib" "track st = Some trk"
    and off: "image_offset st = int off"
    and tags: "encode_format (img_format i) = Inr iformat" "encode_method (img_method i) = Inr imethod"
    and F: "F = (be_bytes 4 (length d + off) @ tag_item @ be_bytes 4 off @ pre @ be_bytes 8 lib @ be_bytes 8 trk
          @ pack_str 4 imethod @ pack_str 4 iformat @ nuls 4
          @ be_bytes 4 (nat (img_width i)) @ be_bytes 4 (nat (img_height i)) @ nuls 3
          @ be_bytes 4 (nat (img_width i)) @ be_bytes 4 (nat (img_height i))
          @ replicate (off - length pre - 63) 0 @ tag_data)
         @ (if off = 216 then nuls 4 else []) @ d"
    by (rule written_frame [OF wf d sz wr])
  have v: "variant_offset (c_variant (abs_itc st)) = off" "(c_variant (abs_itc st) = VariantOld) = (off = 216)"
    using pre(2) off by (auto simp: abs_itc_def variant_offset_def ITUNES_OLD_def)
  have n4: "nuls 4 = replicate 4 0" "nuls 3 = replicate 3 0"
    by (simp_all add: nuls_def)
  have "spec_item (abs_itc st) (abs_image i) = F"
    using v pre ids d len tags F n4
    by (simp add: spec_item_def abs_itc_def abs_image_def encode_format_tag encode_method_tag
        nat_add_distrib tag_item_def tag_data_def Let_def bstr_def add.commute [of 63 "length pre"])
  with wr show ?thesis
    by simp
qed

lemma write_images_spec:
  assumes "writable_layout st" "\<forall>i\<in>set imgs. writable_image i \<and> img_len i + image_offset st < 2 ^ 32"
  shows "map (\<lambda>(x, i). write_image st x i) (enumerate n imgs) = map Inr (map (spec_item (abs_itc st) \<circ> abs_image) imgs)"
  using assms(2)
proof (induction imgs arbitrary: n)
  case Nil
  then show ?case by simp
next
  case (Cons i imgs)
  then show ?case
    using write_image_spec [OF assms(1)] by simp
qed

text \<open>
  C24. \<open>write\<close> implements the specification's writer: for every container
  it can write (both layout variants, the preamble of the variant's length, the
  ids set, every record with its payload, a known encoding and storage and sizes
  that fit their fields) the file it leaves is exactly the specification's
  layout of the abstract container, and nothing is raised.
\<close>

theorem write_refines_spec:
  assumes "writable_layout st" "\<forall>i\<in>set (images st). writable_image i \<and> img_len i + image_offset st < 2 ^ 32"
    and "fname \<noteq> []"
  shows "itc_write st fname fs = (fs(fname \<mapsto> spec_write (abs_itc st)), None)"
proof -
  let ?Fs = "map (spec_item (abs_itc st) \<circ> abs_image) (images st)"
  have w: "[Inr root_header, Inr (nuls 256)] @ map (\<lambda>(x, i). write_image st x i) (enumerate 0 (images st))
        = map Inr ([root_header, replicate 256 0] @ ?Fs)"
    using write_images_spec [OF assms(1,2), of 0] by (simp add: nuls_def del: map_map)
  have "run_writes (map Inr ([root_header, replicate 256 0] @ ?Fs)) = (spec_write (abs_itc st), None)"
    unfolding run_writes_all_Inr by (simp add: spec_write_def abs_itc_def)
  then show ?thesis
    using assms(3) unfolding itc_write_def Let_def w by simp
qed

text \<open>
  C25. \<open>add_image\<close> implements the specification's \<open>addImage\<close> on the
  abstract container: an extension other than \<open>.jpg\<close>/\<open>.png\<close> (in any case)
  fails with the unsupported-format error, a missing file with file-not-found,
  and otherwise one record is appended with storage Local, the encoding the
  extension selects, the file's bytes and their length; nothing else changes.
\<close>

theorem add_image_refines_spec:
  "map_sum abs_error abs_itc (add_image fs path w h st) = spec_add fs path w h (abs_itc st)"
  by (auto simp: add_image_def spec_add_def abs_itc_def abs_image_def abs_format_def abs_method_def
      abs_error_def Let_def split: option.splits)

end
