(* ===== verification/ITC_CLI.thy ===== *)
theory ITC_CLI
  imports ITC_Roundtrip ITC_Export ITC_Reader_Term
begin

text \<open>
  The command line of \<open>src/scripts/itc.py\<close> (\<open>if __name__ == "__main__"\<close>)
  after \<open>OptionParser.parse_args\<close>: the options as the record \<open>cli_opts\<close>,
  the file loop over the files the patterns match (\<open>cli_run\<close>), and for each
  ITC file the listing, the addition of an image or the export. Option parsing
  is in \<open>ITC_Options\<close>; \<open>glob.glob\<close> (a parameter of \<open>cli_env\<close>) and the text of an exception's
  arguments (\<open>exc.args[0]\<close>, \<open>exc.args[-1]\<close>: parameters as well, the model's
  exceptions carry no message) are outside the model; the lines the tool prints
  are part of the result, in order, except the progress lines of
  \<open>export_image\<close>, which that model does not produce.
\<close>

section \<open>The options and the environment\<close>

text \<open>
  \<open>-n NUMBER\<close> is kept as the string given (\<open>None\<close>: the default \<open>-1\<close>, the
  only value equal to \<open>-1\<close>: optparse stores the string \<open>'-1'\<close> otherwise).
\<close>

record cli_opts =
  opt_list :: bool
  opt_number :: "string option"
  opt_basename :: string
  opt_directory :: string
  opt_add :: string
  opt_quiet :: bool

datatype cli_error = Raised error | ValueError

record cli_env =
  env_compress :: "bytes \<Rightarrow> bytes"
  env_glob :: "string \<Rightarrow> string list"
  env_arg_first :: "cli_error \<Rightarrow> string"
  env_arg_last :: "cli_error \<Rightarrow> string"

text \<open>How a run ends: \<open>sys.exit()\<close>, or an exception that nothing catches.\<close>

datatype cli_stop = Exit | Crash cli_error

section \<open>Python built-ins the command line calls\<close>

text \<open>\<open>int(s)\<close>: optional whitespace, an optional sign, decimal digits.\<close>

definition is_space :: "char \<Rightarrow> bool" where
  "is_space c \<longleftrightarrow> (of_char c :: nat) \<in> {9, 10, 11, 12, 13, 32}"

definition py_strip :: "string \<Rightarrow> string" where
  "py_strip s = rev (dropWhile is_space (rev (dropWhile is_space s)))"

definition py_int :: "string \<Rightarrow> cli_error + int" where
  "py_int s =
     (let t = py_strip s;
          sgn = (t \<noteq> [] \<and> (hd t = CHR ''-'' \<or> hd t = CHR ''+''));
          ds = (if sgn then tl t else t)
      in if ds \<noteq> [] \<and> list_all is_digit ds
         then Inr ((if sgn \<and> hd t = CHR ''-'' then -1 else 1) * int (dec_val ds))
         else Inl ValueError)"

text \<open>\<open>'%d'\<close> of an integer.\<close>

definition int_dec :: "int \<Rightarrow> string" where
  "int_dec i = (if i < 0 then CHR ''-'' # nat_dec (nat (- i)) else nat_dec (nat i))"

text \<open>\<open>s.split(sep)\<close> for a one-character separator.\<close>

fun split_on :: "char \<Rightarrow> string \<Rightarrow> string list" where
  "split_on c [] = [[]]"
| "split_on c (x # xs) = (let r = split_on c xs in if x = c then [] # r else (x # hd r) # tl r)"

text \<open>
  \<open>os.path.split\<close>, the root of \<open>os.path.splitext\<close> and \<open>os.path.join\<close>
  (POSIX, two arguments).
\<close>

definition path_split :: "string \<Rightarrow> string \<times> string" where
  "path_split p =
     (let tail = path_basename p;
          head = take (length p - length tail) p
      in (if head \<noteq> [] \<and> (\<exists>c\<in>set head. c \<noteq> CHR ''/'')
          then rev (dropWhile (\<lambda>c. c = CHR ''/'') (rev head)) else head, tail))"

definition splitext_root :: "string \<Rightarrow> string" where
  "splitext_root p = take (length p - length (splitext_ext p)) p"

definition path_join :: "string \<Rightarrow> string \<Rightarrow> string" where
  "path_join a b =
     (if b \<noteq> [] \<and> hd b = CHR ''/'' then b
      else if a = [] \<or> last a = CHR ''/'' then a @ b
      else a @ ''/'' @ b)"

section \<open>The three actions\<close>

text \<open>\<open>'%s'\<close> of a record's format and storage method (\<open>''\<close> when unknown).\<close>

definition format_name :: "image_format \<Rightarrow> string" where
  "format_name f = (case f of FmtPNG \<Rightarrow> ''PNG'' | FmtJPEG \<Rightarrow> ''JPEG'' | FmtJPG \<Rightarrow> ''JPG''
                    | FmtARGB \<Rightarrow> ''ARGB'' | FmtNone \<Rightarrow> '''')"

definition method_name :: "image_method \<Rightarrow> string" where
  "method_name m = (case m of Local \<Rightarrow> ''local'' | Download \<Rightarrow> ''download'' | MethodNone \<Rightarrow> '''')"

text \<open>\<open>-l\<close>: a title line and one line per record.\<close>

definition image_line :: "nat \<Rightarrow> image \<Rightarrow> string" where
  "image_line x img =
     ''    '' @ fmt02 (x + 1) @ '', width='' @ int_dec (img_width img) @
     '', height='' @ int_dec (img_height img) @ '', format='' @ format_name (img_format img) @
     '', location='' @ method_name (img_method img) @ '', length='' @ int_dec (img_len img)"

definition list_lines :: "string \<Rightarrow> itc \<Rightarrow> string list" where
  "list_lines filename st =
     (''ITC File Information for '' @ filename) # map (\<lambda>(x, img). image_line x img) (enumerate 0 (images st))"

text \<open>
  \<open>-a IMGSPEC\<close> on one file: split the spec, convert width and height, add the
  image and write the container back to the file it was read from. A
  \<open>ValueError\<close> prints one line, any other exception two; the tool then exits.
\<close>

definition cli_invalid :: string where
  "cli_invalid = ''Invalid width or height. Values must be integers''"

definition cli_add :: "cli_env \<Rightarrow> cli_opts \<Rightarrow> string \<Rightarrow> itc \<Rightarrow> fs \<Rightarrow> fs \<times> string list" where
  "cli_add env opts filename st fs =
     (let parts = split_on CHR '':'' (opt_add opts);
          unable = (\<lambda>img e. [''Unable to add image '' @ img @ '' to ITC file '' @ filename,
                              env_arg_last env (Raised e)])
      in if length parts \<noteq> 3 then (fs, [cli_invalid])
         else
           (let img = parts ! 0 in
            case (py_int (parts ! 1), py_int (parts ! 2)) of
              (Inr width, Inr height) \<Rightarrow>
                (case add_image fs img width height st of
                   Inl e \<Rightarrow> (fs, unable img e)
                 | Inr st' \<Rightarrow>
                     (case itc_write st' [] fs of
                        (fs', None) \<Rightarrow> (fs', [])
                      | (fs', Some e) \<Rightarrow> (fs', unable img e)))
            | _ \<Rightarrow> (fs, [cli_invalid])))"

text \<open>
  The export: the output name (\<open>-b\<close>, or the file's directory, or \<open>-d\<close>,
  joined with the file name without its extension), then every image (no
  \<open>-n\<close>: nothing catches an exception) or the image \<open>-n\<close> names (an exception,
  also of \<open>int()\<close>, prints \<open>Error: ...\<close>).
\<close>

definition cli_name :: "cli_opts \<Rightarrow> string \<Rightarrow> string" where
  "cli_name opts filename =
     (if opt_basename opts = [] then
        (let (d, f) = path_split filename;
             n = splitext_root f;
             d = (if opt_directory opts \<noteq> [] then opt_directory opts else d)
         in path_join d n)
      else opt_basename opts)"

definition cli_export :: "cli_env \<Rightarrow> cli_opts \<Rightarrow> itc \<Rightarrow> string \<Rightarrow> fs \<Rightarrow> fs \<times> string list \<times> cli_stop option" where
  "cli_export env opts st name fs =
     (case opt_number opts of
        None \<Rightarrow>
          (case export_image (env_compress env) st name 1 True fs of
             (fs', None) \<Rightarrow> (fs', [], None)
           | (fs', Some e) \<Rightarrow> (fs', [], Some (Crash (Raised e))))
      | Some n \<Rightarrow>
          (case py_int n of
             Inl e \<Rightarrow> (fs, [''Error: '' @ env_arg_first env e], None)
           | Inr num \<Rightarrow>
               (case export_image (env_compress env) st name num False fs of
                  (fs', None) \<Rightarrow> (fs', [], None)
                | (fs', Some e) \<Rightarrow> (fs', [''Error: '' @ env_arg_first env (Raised e)], None))))"

section \<open>The file loop\<close>

text \<open>
  One file of the loop: \<open>can_handle\<close>, a fresh \<open>ITCFile(quiet=...)\<close>, \<open>read\<close>,
  then the action the options select. \<open>None\<close>: \<open>read\<close> never returns; a
  \<open>cli_stop\<close>: the run ends here.
\<close>

definition cli_file :: "cli_env \<Rightarrow> cli_opts \<Rightarrow> string list \<Rightarrow> string \<Rightarrow> fs \<Rightarrow>
    (fs \<times> string list \<times> cli_stop option) option" where
  "cli_file env opts files filename fs =
     (case can_handle fs filename of
        Inl e \<Rightarrow> Some (fs, [], Some (Crash (Raised e)))
      | Inr False \<Rightarrow> Some (fs, [], None)
      | Inr True \<Rightarrow>
          (case itc_read fs filename (opt_list opts) (itc_init ITUNES_9 (opt_quiet opts)) of
             None \<Rightarrow> None
           | Some (Inl e) \<Rightarrow> Some (fs, [], Some (Crash (Raised e)))
           | Some (Inr st) \<Rightarrow> Some
               (if opt_list opts then (fs, list_lines filename st, None)
                else if opt_add opts \<noteq> [] then
                  (if length files > 1 then (fs, [''Cannot add image to multiple files''], Some Exit)
                   else (let (fs', out) = cli_add env opts filename st fs in (fs', out, Some Exit)))
                else cli_export env opts st (cli_name opts filename) fs)))"

fun cli_run :: "cli_env \<Rightarrow> cli_opts \<Rightarrow> string list \<Rightarrow> string list \<Rightarrow> fs \<Rightarrow>
    (fs \<times> string list \<times> cli_stop option) option" where
  "cli_run env opts files [] fs = Some (fs, [], None)"
| "cli_run env opts files (f # rest) fs =
     (case cli_file env opts files f fs of
        None \<Rightarrow> None
      | Some (fs1, out1, Some stop) \<Rightarrow> Some (fs1, out1, Some stop)
      | Some (fs1, out1, None) \<Rightarrow>
          map_option (\<lambda>(fs2, out2, r). (fs2, out1 @ out2, r)) (cli_run env opts files rest fs1))"

text \<open>The patterns given on the command line, each expanded by \<open>glob\<close>.\<close>

definition cli_main :: "cli_env \<Rightarrow> cli_opts \<Rightarrow> string list \<Rightarrow> fs \<Rightarrow>
    (fs \<times> string list \<times> cli_stop option) option" where
  "cli_main env opts args fs =
     (if args = [] then Some (fs, [], None)
      else (let files = concat (map (env_glob env) args) in cli_run env opts files files fs))"

subsection \<open>Examples\<close>

text \<open>
  An environment in which every pattern matches itself and every exception
  prints \<open>error\<close>, and the options of a plain export.
\<close>

definition example_env :: cli_env where
  "example_env = \<lparr>env_compress = id, env_glob = (\<lambda>p. [p]), env_arg_first = (\<lambda>_. ''error''),
                   env_arg_last = (\<lambda>_. ''error'')\<rparr>"

definition example_opts :: cli_opts where
  "example_opts = \<lparr>opt_list = False, opt_number = None, opt_basename = [], opt_directory = [],
                    opt_add = [], opt_quiet = True\<rparr>"

definition empty_itc_fs :: fs where
  "empty_itc_fs = [''a.itc'' \<mapsto> root_header @ nuls 256, ''b.itc'' \<mapsto> root_header @ nuls 256,
                   ''p.png'' \<mapsto> [1, 2, 3, 4]]"

text \<open>An ITUNES_9 container with one PNG image, and the record \<open>add_image\<close> appends.\<close>

definition example_png_itc :: itc where
  "example_png_itc =
     \<lparr>itc_filename = ''a.itc'', library = Some 1, track = Some 2,
      images = [\<lparr>img_width = 3, img_height = 4, img_data = Some [7, 8], img_format = FmtPNG,
                 img_method = Local, img_len = 2\<rparr>],
      image_offset = 208, info_preamble = Some (replicate 16 5), quiet = True\<rparr>"

definition added_image :: "string \<Rightarrow> int \<Rightarrow> int \<Rightarrow> bytes \<Rightarrow> image" where
  "added_image path w h data =
     \<lparr>img_width = w, img_height = h, img_data = Some data,
      img_format = (if py_lower (splitext_ext path) = ''.jpg'' then FmtJPG else FmtPNG),
      img_method = Local, img_len = int (length data)\<rparr>"

section \<open>Lemmas\<close>

lemma split_on_no_sep: "c \<notin> set xs \<Longrightarrow> split_on c xs = [xs]"
  by (induction xs) (auto simp: Let_def)

lemma split_on_sep: "c \<notin> set xs \<Longrightarrow> split_on c (xs @ c # ys) = xs # split_on c ys"
  by (induction xs) (auto simp: Let_def)

lemma split_on_three:
  "c \<notin> set a \<Longrightarrow> c \<notin> set b \<Longrightarrow> c \<notin> set d \<Longrightarrow> split_on c (a @ c # b @ c # d) = [a, b, d]"
  by (simp add: split_on_sep split_on_no_sep)

lemma can_handle_root: "fs f = Some (root_header @ rest) \<Longrightarrow> can_handle fs f = Inr True"
  by (simp add: can_handle_def root_header_def itc_tags bstr_def)

lemma itc_read_empty:
  assumes "fs f = Some (root_header @ nuls 256)"
  shows "itc_read fs f lo st = Some (Inr (st\<lparr>itc_filename := f, library := None, track := None, images := []\<rparr>))"
proof -
  let ?st = "st\<lparr>itc_filename := f, library := None, track := None, images := []\<rparr>"
  let ?s = "\<lparr>content = root_header @ nuls 256, pos = 0\<rparr>"
  have r0: "read_frame lo ?st ?s = Inr (False, ?st, ?s\<lparr>pos := 284\<rparr>)"
    by (rule read_root_header [where rest = "[]"]) simp_all
  have len: "length root_header = 28" "length (nuls 256) = 256"
    by (simp_all add: root_header_def nuls_def itc_tags)
  have r1: "read_frame lo ?st (?s\<lparr>pos := 284\<rparr>) = Inr (True, ?st, snd (py_read 8 (?s\<lparr>pos := 284\<rparr>)))"
    by (rule read_frame_end) (simp add: len)
  show ?thesis
    using assms read_loop_continue [OF r0] read_loop_stop [OF r1] by (simp add: itc_read_def)
qed

lemma write_added_no_preamble:
  assumes add: "add_image fs0 path w h st = Inr st'"
    and st: "images st = []" "info_preamble st = None"
    and found: "fs0 path = Some data"
    and mode: "0 \<le> image_offset st" "int (length data) + image_offset st < 2 ^ 32"
    and fname: "fname \<noteq> []"
  shows "itc_write st' fname fs = (fs(fname \<mapsto> root_header @ nuls 256), Some AttributeError)"
proof -
  obtain fmt where st': "st' = st\<lparr>images := [\<lparr>img_width = w, img_height = h,
      img_data = Some data, img_format = fmt, img_method = Local, img_len = int (length data)\<rparr>]\<rparr>"
      and fmt: "fmt \<in> {FmtJPG, FmtPNG}"
    using add found st by (auto simp: add_image_def Let_def split: if_splits)
  obtain tf where tf: "encode_format fmt = Inr tf"
    using fmt by auto
  have "write_image st' 0 (hd (images st')) = Inl AttributeError"
    by (rule write_image_no_preamble [where f = tf and m = tag_locl and d = data])
       (insert mode st, simp_all add: st' tf)
  then show ?thesis
    using st' fname by (simp add: itc_write_def)
qed

lemma no_frame_check:
  assumes "list_all (\<lambda>p. take (length P) (drop p c) \<noteq> P) [0..<length c]" "P \<noteq> []"
  shows "\<forall>p. take (length P) (drop p c) \<noteq> P"
proof
  fix p
  show "take (length P) (drop p c) \<noteq> P"
  proof (cases "p < length c")
    case True
    with assms(1) show ?thesis by (simp add: list_all_iff)
  next
    case False
    with assms(2) show ?thesis by simp
  qed
qed

lemma empty_itc_no_frame:
  "\<forall>p. take (length (zero_item_frame lo)) (drop p (root_header @ nuls 256)) \<noteq> zero_item_frame lo"
  by (rule no_frame_check)
     (simp_all add: zero_item_frame_def root_header_def nuls_def itc_tags bstr_def upt_rec be_bytes_numeral)

lemma empty_itc_fs_read:
  "f \<in> {''a.itc'', ''b.itc''} \<Longrightarrow>
   itc_read empty_itc_fs f lo st = Some (Inr (st\<lparr>itc_filename := f, library := None, track := None, images := []\<rparr>))"
  by (rule itc_read_empty) (auto simp: empty_itc_fs_def)

lemma empty_itc_fs_handle: "f \<in> {''a.itc'', ''b.itc''} \<Longrightarrow> can_handle empty_itc_fs f = Inr True"
  by (rule can_handle_root [where rest = "nuls 256"]) (auto simp: empty_itc_fs_def)

lemma add_image_Inr:
  "py_lower (splitext_ext path) \<in> {''.jpg'', ''.png''} \<Longrightarrow> fs path = Some data \<Longrightarrow>
   add_image fs path w h st = Inr (st\<lparr>images := images st @ [added_image path w h data]\<rparr>)"
  by (auto simp: add_image_def added_image_def Let_def)

lemma roundtrip_png: "img_format i = FmtPNG \<Longrightarrow> img_data i \<noteq> None \<Longrightarrow> roundtrip_image False i = i"
  by (simp add: roundtrip_image_def)

lemma itc_write_default: "itc_write st [] fs = itc_write st (itc_filename st) fs"
  by (simp add: itc_write_def)

lemma add_image_filename: "add_image fs0 path w h st = Inr st' \<Longrightarrow> itc_filename st' = itc_filename st"
  by (auto simp: add_image_def Let_def split: if_splits option.splits)

text \<open>
  C17. \<open>-a IMGSPEC\<close> on an ITC file that holds no image (the root frame and its
  padding, as \<open>write\<close> leaves a container without images) fails for every
  valid spec: the container read has no \<open>info_preamble\<close>, so \<open>write\<close> raises
  \<open>AttributeError\<close> after rewriting the root frame; the tool prints that it
  could not add the image and exits, the file as it was.
\<close>

theorem add_to_empty_file_fails:
  assumes empty: "fs f = Some (root_header @ nuls 256)" and fn: "f \<noteq> []"
    and opts: "\<not> opt_list opts" "opt_add opts = img @ CHR '':'' # ws @ CHR '':'' # hs"
    and sep: "CHR '':'' \<notin> set img" "CHR '':'' \<notin> set ws" "CHR '':'' \<notin> set hs"
    and num: "py_int ws = Inr w" "py_int hs = Inr h"
    and ext: "py_lower (splitext_ext img) \<in> {''.jpg'', ''.png''}"
    and found: "fs img = Some data" "int (length data) + ITUNES_9 < 2 ^ 32"
  shows "cli_run env opts [f] [f] fs =
           Some (fs, [''Unable to add image '' @ img @ '' to ITC file '' @ f,
                      env_arg_last env (Raised AttributeError)], Some Exit)"
proof -
  let ?st0 = "(itc_init ITUNES_9 (opt_quiet opts))\<lparr>itc_filename := f, library := None, track := None, images := []\<rparr>"
  have ch: "can_handle fs f = Inr True"
    using empty by (rule can_handle_root)
  have rd: "itc_read fs f (opt_list opts) (itc_init ITUNES_9 (opt_quiet opts)) = Some (Inr ?st0)"
    using empty by (rule itc_read_empty)
  obtain st1 where add: "add_image fs img w h ?st0 = Inr st1"
    using ext found by (auto simp: add_image_def Let_def)
  have "itc_write st1 f fs = (fs(f \<mapsto> root_header @ nuls 256), Some AttributeError)"
    by (rule write_added_no_preamble [OF add _ _ found(1)]) (use found(2) fn in \<open>simp_all add: itc_init_def ITUNES_9_def\<close>)
  then have wr: "itc_write st1 [] fs = (fs, Some AttributeError)"
    using add_image_filename [OF add] empty by (simp add: itc_write_default fun_upd_idem)
  have "split_on CHR '':'' (opt_add opts) = [img, ws, hs]"
    using opts(2) sep by (simp add: split_on_three)
  then show ?thesis
    using ch rd opts add wr num by (simp add: cli_file_def cli_add_def Let_def)
qed

text \<open>
  C22. \<open>-a IMGSPEC\<close> on an ITC file written from an ITUNES_9 container of
  PNG images appends the image: the tool prints nothing and exits, and reading
  the file back gives the container's images followed by the added one, with
  the same library and track ids.
\<close>

theorem add_image_appends:
  assumes wf: "writable9 st" "list_all writable_image (images st)" "images st \<noteq> []"
    and png: "\<forall>i\<in>set (images st). img_format i = FmtPNG"
    and fn: "f \<noteq> []" "img \<noteq> f"
    and opts: "\<not> opt_list opts" "opt_add opts = img @ CHR '':'' # ws @ CHR '':'' # hs"
    and sep: "CHR '':'' \<notin> set img" "CHR '':'' \<notin> set ws" "CHR '':'' \<notin> set hs"
    and num: "py_int ws = Inr w" "py_int hs = Inr h" "0 \<le> w" "w < 2 ^ 32" "0 \<le> h" "h < 2 ^ 32"
    and ext: "py_lower (splitext_ext img) \<in> {''.jpg'', ''.png''}"
    and found: "fs0 img = Some data" "length data + 208 < 2 ^ 32"
  shows "\<exists>fs'. cli_run env opts [f] [f] (fst (itc_write st f fs0)) = Some (fs', [], Some Exit)
           \<and> (\<exists>r. itc_read fs' f lo st' = Some (Inr r)
                  \<and> images r = map (roundtrip_image lo) (images st @ [added_image img w h data])
                  \<and> library r = library st \<and> track r = track st)"
proof -
  let ?fs = "fst (itc_write st f fs0)"
  let ?st0 = "itc_init ITUNES_9 (opt_quiet opts)"
  obtain r where rd: "itc_read ?fs f False ?st0 = Some (Inr r)"
      and r: "images r = map (roundtrip_image False) (images st)" "itc_filename r = f"
        "library r = library st" "track r = track st" "image_offset r = ITUNES_9"
        "info_preamble r = info_preamble st"
    using itc_write_read9 [OF wf(1,2) fn(1), of fs0 False ?st0] wf(3) by blast
  have "roundtrip_image False i = i" if "i \<in> set (images st)" for i
    using that png wf(2) by (intro roundtrip_png) (auto simp: list_all_iff writable_image_def split: option.splits)
  then have imgs: "images r = images st"
    using r(1) by (simp add: map_idI)
  have fs: "?fs = fs0(f \<mapsto> root_header @ nuls 256 @
           fst (run_writes (map (\<lambda>(x, info). write_image st x info) (enumerate 0 (images st)))))"
    by (rule itc_write_fs [OF fn(1)])
  have ch: "can_handle ?fs f = Inr True"
    by (rule can_handle_root) (simp add: fs)
  let ?r1 = "r\<lparr>images := images st @ [added_image img w h data]\<rparr>"
  have add: "add_image ?fs img w h r = Inr ?r1"
    using add_image_Inr [OF ext, of ?fs data w h r] fs fn(2) found(1) imgs by simp
  have wf1: "writable9 ?r1"
    using wf(1) r by (simp add: writable9_def)
  have wf2: "list_all writable_image (images ?r1)"
    using wf(2) num(3-6) found(2) ext by (auto simp: writable_image_def added_image_def)
  obtain r2 where w: "snd (itc_write ?r1 f ?fs) = None"
      and rd2: "itc_read (fst (itc_write ?r1 f ?fs)) f lo st' = Some (Inr r2)"
      "images r2 = map (roundtrip_image lo) (images ?r1)"
      "library r2 = library ?r1" "track r2 = track ?r1"
    using itc_write_read9 [OF wf1 wf2 fn(1), of ?fs lo st'] by auto
  have wr: "itc_write ?r1 [] ?fs = (fst (itc_write ?r1 f ?fs), None)"
    using w r(2) by (simp add: itc_write_default prod_eq_iff)
  have "split_on CHR '':'' (opt_add opts) = [img, ws, hs]"
    using opts(2) sep by (simp add: split_on_three)
  then have "cli_run env opts [f] [f] ?fs = Some (fst (itc_write ?r1 f ?fs), [], Some Exit)"
    using ch rd opts add wr num(1,2) by (simp add: cli_file_def cli_add_def Let_def)
  with rd2 r show ?thesis
    by auto
qed

theorem add_image_appends_witness:
  "\<exists>fs'. cli_run example_env (example_opts\<lparr>opt_add := ''p.png:2:3''\<rparr>) [''a.itc''] [''a.itc'']
           (fst (itc_write example_png_itc ''a.itc'' [''p.png'' \<mapsto> [1, 2, 3, 4]])) = Some (fs', [], Some Exit)
     \<and> (\<exists>r. itc_read fs' ''a.itc'' False (itc_init ITUNES_9 True) = Some (Inr r)
            \<and> images r = map (roundtrip_image False)
                 (images example_png_itc @ [added_image ''p.png'' 2 3 [1, 2, 3, 4]])
            \<and> library r = library example_png_itc \<and> track r = track example_png_itc)"
  using add_image_appends [of example_png_itc "''a.itc''" "''p.png''"
      "example_opts\<lparr>opt_add := ''p.png:2:3''\<rparr>" "''2''" "''3''" 2 3 "[''p.png'' \<mapsto> [1, 2, 3, 4]]"
      "[1, 2, 3, 4]" example_env False "itc_init ITUNES_9 True"]
  by (simp add: example_png_itc_def example_opts_def writable9_def writable_image_def ITUNES_9_def
      py_int_def py_strip_def is_space_def is_digit_def dec_val_def py_lower_def splitext_ext_def
      path_basename_def)

section \<open>Runs over several files\<close>

lemma cli_file_list:
  "opt_list opts \<Longrightarrow> cli_file env opts files f fs = Some (fs', out, r) \<Longrightarrow> fs' = fs \<and> r \<noteq> Some Exit"
  by (auto simp: cli_file_def split: sum.splits option.splits bool.splits)

lemma cli_file_add_multi:
  assumes "opt_add opts \<noteq> []" "\<not> opt_list opts" "1 < length files"
    and "cli_file env opts files f fs = Some (fs', out, r)"
  shows "fs' = fs \<and> (out = [] \<and> r \<noteq> Some Exit \<or> out = [''Cannot add image to multiple files''] \<and> r = Some Exit)"
  using assms by (auto simp: cli_file_def split: sum.splits option.splits bool.splits)

lemma cli_file_no_stop:
  "opt_list opts \<or> opt_add opts \<noteq> [] \<Longrightarrow> cli_file env opts files f fs = Some (fs', out, None) \<Longrightarrow> fs' = fs"
  by (auto simp: cli_file_def Let_def case_prod_beta split: sum.splits option.splits bool.splits if_splits)

lemma cli_run_Cons_stop:
  "cli_file env opts files f fs = Some (fs1, out1, Some stop) \<Longrightarrow>
   cli_run env opts files (f # rest) fs = Some (fs1, out1, Some stop)"
  by simp

lemma cli_run_Cons_continue:
  "cli_file env opts files f fs = Some (fs1, out1, None) \<Longrightarrow>
   cli_run env opts files (f # rest) fs =
     map_option (\<lambda>(fs2, out2, r). (fs2, out1 @ out2, r)) (cli_run env opts files rest fs1)"
  by simp

lemma cli_run_Cons_Some:
  assumes "cli_run env opts files (f # rest) fs = Some (fs', out, r)"
  obtains fs1 out1 stop where "cli_file env opts files f fs = Some (fs1, out1, Some stop)"
      "fs' = fs1" "out = out1" "r = Some stop"
    | fs1 out1 out2 where "cli_file env opts files f fs = Some (fs1, out1, None)"
      "cli_run env opts files rest fs1 = Some (fs', out2, r)" "out = out1 @ out2"
  using assms by (auto split: option.splits prod.splits)

text \<open>A run keeps the file system and never exits when every file's step does.\<close>

lemma cli_run_keeps:
  assumes step: "\<And>f fs fs' out r. cli_file env opts files f fs = Some (fs', out, r) \<Longrightarrow> fs' = fs \<and> r \<noteq> Some Exit"
    and run: "cli_run env opts files fl fs = Some (fs', out, r)"
  shows "fs' = fs \<and> r \<noteq> Some Exit"
  using run
proof (induction fl arbitrary: fs out)
  case Nil
  then show ?case by simp
next
  case (Cons f rest)
  from Cons.prems show ?case
  proof (cases rule: cli_run_Cons_Some)
    case 1
    with step show ?thesis by blast
  next
    case 2
    with step Cons.IH show ?thesis by blast
  qed
qed

text \<open>
  C18. In list mode (\<open>-l\<close>) the tool changes no file and never exits early:
  whatever the files, a run that returns leaves the file system as it was and
  ends without \<open>sys.exit()\<close>.
\<close>

theorem list_mode_read_only:
  assumes "opt_list opts" "cli_run env opts files fl fs = Some (fs', out, r)"
  shows "fs' = fs \<and> r \<noteq> Some Exit"
  using cli_run_keeps [OF cli_file_list [OF assms(1)] assms(2)] .

text \<open>
  C19. \<open>-a\<close> with more than one matched file changes no file: the run prints
  nothing or the single line \<open>Cannot add image to multiple files\<close>, and
  then exits.
\<close>

theorem add_multiple_files_refused:
  assumes "opt_add opts \<noteq> []" "\<not> opt_list opts" "1 < length files"
    and "cli_run env opts files fl fs = Some (fs', out, r)"
  shows "fs' = fs \<and> (out = [] \<or> out = [''Cannot add image to multiple files''] \<and> r = Some Exit)"
  using assms(4)
proof (induction fl arbitrary: fs out)
  case Nil
  then show ?case by simp
next
  case (Cons f rest)
  from Cons.prems show ?case
  proof (cases rule: cli_run_Cons_Some)
    case 1
    with cli_file_add_multi [OF assms(1-3)] show ?thesis by blast
  next
    case 2
    with cli_file_add_multi [OF assms(1-3)] Cons.IH show ?thesis by fastforce
  qed
qed

theorem add_to_empty_file_fails_witness:
  "cli_run example_env (example_opts\<lparr>opt_add := ''p.png:2:3''\<rparr>) [''a.itc''] [''a.itc''] empty_itc_fs
   = Some (empty_itc_fs, [''Unable to add image p.png to ITC file a.itc'', ''error''], Some Exit)"
  using add_to_empty_file_fails [of empty_itc_fs "''a.itc''" "example_opts\<lparr>opt_add := ''p.png:2:3''\<rparr>"
      "''p.png''" "''2''" "''3''" 2 3 "[1, 2, 3, 4]" example_env]
  by (simp add: empty_itc_fs_def example_opts_def example_env_def py_int_def py_strip_def is_space_def
      is_digit_def dec_val_def py_lower_def splitext_ext_def path_basename_def ITUNES_9_def)

theorem list_mode_read_only_witness:
  "opt_list (example_opts\<lparr>opt_list := True\<rparr>) \<and>
   cli_run example_env (example_opts\<lparr>opt_list := True\<rparr>) [''a.itc''] [''a.itc''] empty_itc_fs
     = Some (empty_itc_fs, [''ITC File Information for a.itc''], None) \<and>
   empty_itc_fs = empty_itc_fs \<and> None \<noteq> Some Exit"
proof -
  have run: "cli_run example_env (example_opts\<lparr>opt_list := True\<rparr>) [''a.itc''] [''a.itc''] empty_itc_fs
     = Some (empty_itc_fs, [''ITC File Information for a.itc''], None)"
    by (simp add: cli_file_def empty_itc_fs_handle empty_itc_fs_read list_lines_def example_opts_def)
  show ?thesis
    using list_mode_read_only [OF _ run] run by (simp add: example_opts_def)
qed

theorem add_multiple_files_refused_witness:
  "opt_add (example_opts\<lparr>opt_add := ''p.png:2:3''\<rparr>) \<noteq> [] \<and> \<not> opt_list (example_opts\<lparr>opt_add := ''p.png:2:3''\<rparr>) \<and>
   1 < length [''a.itc'', ''b.itc''] \<and>
   cli_run example_env (example_opts\<lparr>opt_add := ''p.png:2:3''\<rparr>) [''a.itc'', ''b.itc''] [''a.itc'', ''b.itc''] empty_itc_fs
     = Some (empty_itc_fs, [''Cannot add image to multiple files''], Some Exit) \<and>
   (empty_itc_fs = empty_itc_fs \<and> ([''Cannot add image to multiple files''] = [] \<or>
      [''Cannot add image to multiple files''] = [''Cannot add image to multiple files''] \<and> Some Exit = Some Exit))"
proof -
  have run: "cli_run example_env (example_opts\<lparr>opt_add := ''p.png:2:3''\<rparr>) [''a.itc'', ''b.itc''] [''a.itc'', ''b.itc''] empty_itc_fs
     = Some (empty_itc_fs, [''Cannot add image to multiple files''], Some Exit)"
    by (simp add: cli_file_def empty_itc_fs_handle empty_itc_fs_read example_opts_def)
  show ?thesis
    using add_multiple_files_refused [OF _ _ _ run] run by (simp add: example_opts_def)
qed

section \<open>Termination\<close>

lemma itc_read_returns_on:
  "fs f = Some c \<Longrightarrow> \<forall>p. take (length (zero_item_frame lo)) (drop p c) \<noteq> zero_item_frame lo \<Longrightarrow>
   \<exists>r. itc_read fs f lo st = Some r"
  using read_loop_returns [of lo "\<lparr>content = c, pos = 0\<rparr>"] by (auto simp: itc_read_def)

lemma cli_file_returns:
  assumes "\<forall>c. fs f = Some c \<longrightarrow>
             (\<forall>p. take (length (zero_item_frame (opt_list opts))) (drop p c) \<noteq> zero_item_frame (opt_list opts))"
  shows "\<exists>r. cli_file env opts files f fs = Some r"
proof (cases "can_handle fs f")
  case (Inl e)
  then show ?thesis by (simp add: cli_file_def)
next
  case (Inr b)
  show ?thesis
  proof (cases b)
    case True
    with Inr obtain c where c: "fs f = Some c"
      by (auto simp: can_handle_def split: option.splits)
    with assms obtain r where "itc_read fs f (opt_list opts) (itc_init ITUNES_9 (opt_quiet opts)) = Some r"
      using itc_read_returns_on by blast
    with Inr True have "cli_file env opts files f fs \<noteq> None"
      by (cases r) (simp_all add: cli_file_def)
    then show ?thesis by blast
  next
    case False
    with Inr show ?thesis by (simp add: cli_file_def)
  qed
qed

lemma cli_run_returns:
  assumes "opt_list opts \<or> opt_add opts \<noteq> []"
    and "\<forall>f\<in>set fl. \<forall>c. fs f = Some c \<longrightarrow>
           (\<forall>p. take (length (zero_item_frame (opt_list opts))) (drop p c) \<noteq> zero_item_frame (opt_list opts))"
  shows "\<exists>r. cli_run env opts files fl fs = Some r"
  using assms(2)
proof (induction fl)
  case Nil
  then show ?case by simp
next
  case (Cons f rest)
  obtain fs1 out1 stop where f: "cli_file env opts files f fs = Some (fs1, out1, stop)"
    using cli_file_returns [of fs f opts env files] Cons.prems by auto
  show ?case
  proof (cases stop)
    case None
    with f cli_file_no_stop [OF assms(1)] have "fs1 = fs" by blast
    with f None Cons show ?thesis by auto
  next
    case (Some s)
    with f show ?thesis by simp
  qed
qed

text \<open>
  C21. In list mode and in add mode the tool returns on every command line
  whose matched files hold no zero-size \<open>item\<close> frame (with image offset 0
  unless listing): neither mode writes a file before its last read, so the
  termination of \<open>read\<close> carries over to the whole run.
\<close>

theorem cli_returns:
  assumes "opt_list opts \<or> opt_add opts \<noteq> []"
    and "\<forall>f\<in>set (concat (map (env_glob env) args)). \<forall>c. fs f = Some c \<longrightarrow>
           (\<forall>p. take (length (zero_item_frame (opt_list opts))) (drop p c) \<noteq> zero_item_frame (opt_list opts))"
  shows "\<exists>r. cli_main env opts args fs = Some r"
  using cli_run_returns [OF assms] by (simp add: cli_main_def Let_def)

theorem cli_returns_witness:
  "opt_list (example_opts\<lparr>opt_list := True\<rparr>) \<and>
   (\<exists>r. cli_main example_env (example_opts\<lparr>opt_list := True\<rparr>) [''a.itc'', ''b.itc''] empty_itc_fs = Some r)"
proof -
  have files: "\<forall>f\<in>set (concat (map (env_glob example_env) [''a.itc'', ''b.itc''])). \<forall>c. empty_itc_fs f = Some c \<longrightarrow>
      (\<forall>p. take (length (zero_item_frame (opt_list (example_opts\<lparr>opt_list := True\<rparr>)))) (drop p c)
             \<noteq> zero_item_frame (opt_list (example_opts\<lparr>opt_list := True\<rparr>)))"
    using empty_itc_no_frame by (simp add: example_env_def empty_itc_fs_def)
  show ?thesis
    using cli_returns [OF _ files] files by (simp add: example_opts_def)
qed

section \<open>Choosing an image to export\<close>

text \<open>
  C20. \<open>-n NUMBER\<close> naming no image of the container (below 1 or above the
  number of images, \<open>-n -1\<close> included: the option is then the string
  \<open>'-1'\<close>, not the default \<open>-1\<close>) writes no file and prints
  \<open>Error: \<close> and the message of the \<open>IndexError\<close>; the run goes on.
\<close>

theorem export_number_out_of_range:
  assumes "opt_number opts = Some n" "py_int n = Inr k" "k < 1 \<or> int (length (images st)) < k"
  shows "cli_export env opts st name fs = (fs, [''Error: '' @ env_arg_first env (Raised IndexError)], None)"
  using assms by (auto simp: cli_export_def export_image_def)

theorem export_number_out_of_range_witness:
  "opt_number (example_opts\<lparr>opt_number := Some ''-1''\<rparr>) = Some ''-1'' \<and> py_int ''-1'' = Inr (-1) \<and>
   ((-1 :: int) < 1 \<or> int (length (images (itc_init ITUNES_9 True))) < -1) \<and>
   cli_export example_env (example_opts\<lparr>opt_number := Some ''-1''\<rparr>) (itc_init ITUNES_9 True) ''a'' empty_itc_fs
     = (empty_itc_fs, [''Error: error''], None)"
proof -
  have n: "py_int ''-1'' = Inr (-1)"
    by (simp add: py_int_def py_strip_def is_space_def is_digit_def dec_val_def)
  show ?thesis
    using export_number_out_of_range [of "example_opts\<lparr>opt_number := Some ''-1''\<rparr>" "''-1''" "-1"
        "itc_init ITUNES_9 True" example_env "''a''" empty_itc_fs] n
    by (simp add: example_env_def)
qed

end
