(* ===== verification/ITC_Options.thy ===== *)
theory ITC_Options
  imports ITC_CLI "HOL-Library.Sublist" "HOL-Library.List_Lexorder" "HOL-Library.Char_ord"
begin

text \<open>
  The front of the command line of \<open>src/scripts/itc.py\<close>: the option table
  built by the \<open>add_option\<close> calls, \<open>OptionParser.parse_args\<close> over it, and
  the script as a whole, from \<open>sys.argv\<close> to the lines printed, the files
  written and the exit status. The parser follows Python 2's \<open>optparse\<close>
  (\<open>_process_args\<close>, \<open>_process_long_opt\<close>, \<open>_process_short_opts\<close>,
  \<open>_match_abbrev\<close>), the library the script calls; the text \<open>print_help\<close>
  formats is a parameter.
\<close>

section \<open>The option table\<close>

text \<open>
  The destinations the options store to, split by the kind of value: the two
  \<open>store_true\<close> flags and the five \<open>store\<close> options (no \<open>type\<close> is given, so
  optparse keeps the argument as a string). \<open>OptionParser\<close> adds \<open>-h\<close>/\<open>--help\<close>.
\<close>

datatype flag_dest = DList | DQuiet

datatype value_dest = DNumber | DBasename | DDirectory | DAdd | DSet

datatype opt_action = StoreTrue flag_dest | Store value_dest | PrintHelp

record opt_decl =
  opt_short :: string
  opt_long :: string
  opt_act :: opt_action

definition itc_options :: "opt_decl list" where
  "itc_options =
     [\<lparr>opt_short = ''-h'', opt_long = ''--help'', opt_act = PrintHelp\<rparr>,
      \<lparr>opt_short = ''-l'', opt_long = ''--list'', opt_act = StoreTrue DList\<rparr>,
      \<lparr>opt_short = ''-n'', opt_long = ''--number'', opt_act = Store DNumber\<rparr>,
      \<lparr>opt_short = ''-b'', opt_long = ''--basename'', opt_act = Store DBasename\<rparr>,
      \<lparr>opt_short = ''-d'', opt_long = ''--directory'', opt_act = Store DDirectory\<rparr>,
      \<lparr>opt_short = ''-a'', opt_long = ''--add'', opt_act = Store DAdd\<rparr>,
      \<lparr>opt_short = ''-s'', opt_long = ''--set'', opt_act = Store DSet\<rparr>,
      \<lparr>opt_short = ''-q'', opt_long = ''--quiet'', opt_act = StoreTrue DQuiet\<rparr>]"

text \<open>
  The \<open>Values\<close> object \<open>parse_args\<close> returns: the options the file loop reads
  (\<open>cli_opts\<close>) and \<open>set\<close>, which it never reads. The defaults are the
  \<open>default=\<close> arguments; \<open>opt_number = None\<close> is the integer \<open>-1\<close>.
\<close>

record opt_values = cli_opts +
  opt_set :: string

definition itc_defaults :: opt_values where
  "itc_defaults =
     \<lparr>opt_list = False, opt_number = None, opt_basename = [], opt_directory = [],
      opt_add = [], opt_quiet = False, opt_set = []\<rparr>"

text \<open>\<open>setattr(values, dest, True)\<close> and \<open>setattr(values, dest, value)\<close>.\<close>

fun set_flag :: "flag_dest \<Rightarrow> opt_values \<Rightarrow> opt_values" where
  "set_flag DList vals = vals\<lparr>opt_list := True\<rparr>"
| "set_flag DQuiet vals = vals\<lparr>opt_quiet := True\<rparr>"

fun store_value :: "value_dest \<Rightarrow> string \<Rightarrow> opt_values \<Rightarrow> opt_values" where
  "store_value DNumber v vals = vals\<lparr>opt_number := Some v\<rparr>"
| "store_value DBasename v vals = vals\<lparr>opt_basename := v\<rparr>"
| "store_value DDirectory v vals = vals\<lparr>opt_directory := v\<rparr>"
| "store_value DAdd v vals = vals\<lparr>opt_add := v\<rparr>"
| "store_value DSet v vals = vals\<lparr>opt_set := v\<rparr>"

section \<open>The parser\<close>

text \<open>
  Why \<open>parse_args\<close> stops early: \<open>-h\<close> (\<open>print_help\<close>, then \<open>exit()\<close>) or a
  call of \<open>parser.error\<close> with its message.
\<close>

datatype opt_stop = StopHelp | StopError string

definition join_comma :: "string list \<Rightarrow> string" where
  "join_comma ws = concat (case ws of [] \<Rightarrow> [] | w # rest \<Rightarrow> w # map (\<lambda>x. '', '' @ x) rest)"

text \<open>
  \<open>_match_abbrev(s, self._long_opt)\<close>: the option named \<open>s\<close>, else the only
  one whose name starts with \<open>s\<close>; none is \<open>BadOptionError\<close>, several is
  \<open>AmbiguousOptionError\<close> listing them sorted.
\<close>

definition match_abbrev :: "opt_decl list \<Rightarrow> string \<Rightarrow> string + opt_decl" where
  "match_abbrev table s =
     (case find (\<lambda>od. opt_long od = s) table of
        Some od \<Rightarrow> Inr od
      | None \<Rightarrow>
          (case filter (\<lambda>od. prefix s (opt_long od)) table of
             [] \<Rightarrow> Inl (''no such option: '' @ s)
           | [od] \<Rightarrow> Inr od
           | os \<Rightarrow> Inl (''ambiguous option: '' @ s @ '' ('' @ join_comma (sort (map opt_long os)) @ ''?)'')))"

definition find_short :: "opt_decl list \<Rightarrow> char \<Rightarrow> opt_action option" where
  "find_short table ch = map_option opt_act (find (\<lambda>od. opt_short od = [CHR ''-'', ch]) table)"

text \<open>\<open>arg.split("=", 1)\<close> when \<open>"=" in arg\<close>.\<close>

definition split_eq :: "string \<Rightarrow> string \<times> string option" where
  "split_eq arg =
     (if CHR ''='' \<in> set arg
      then (takeWhile (\<lambda>c. c \<noteq> CHR ''='') arg, Some (tl (dropWhile (\<lambda>c. c \<noteq> CHR ''='') arg)))
      else (arg, None))"

text \<open>
  \<open>_process_long_opt\<close>: the argument \<open>--name\<close> or \<open>--name=value\<close> has been
  popped; the result is the new values and the arguments left.
\<close>

definition process_long_opt :: "opt_decl list \<Rightarrow> string \<Rightarrow> string list \<Rightarrow> opt_values \<Rightarrow>
    opt_stop + opt_values \<times> string list" where
  "process_long_opt table arg rargs vals =
     (let (opt, explicit) = split_eq arg;
          rargs = (case explicit of Some v \<Rightarrow> v # rargs | None \<Rightarrow> rargs)
      in case match_abbrev table opt of
           Inl msg \<Rightarrow> Inl (StopError msg)
         | Inr od \<Rightarrow>
             (case opt_act od of
                Store d \<Rightarrow>
                  (case rargs of
                     [] \<Rightarrow> Inl (StopError (opt_long od @ '' option requires an argument''))
                   | v # rest \<Rightarrow> Inr (store_value d v vals, rest))
              | StoreTrue d \<Rightarrow>
                  (if explicit \<noteq> None then Inl (StopError (opt_long od @ '' option does not take a value''))
                   else Inr (set_flag d vals, rargs))
              | PrintHelp \<Rightarrow>
                  (if explicit \<noteq> None then Inl (StopError (opt_long od @ '' option does not take a value''))
                   else Inl StopHelp)))"

text \<open>
  \<open>_process_short_opts\<close> over the characters after the \<open>-\<close> of a popped
  argument: flags are set one by one; an option taking a value takes the rest
  of the characters if there are any (\<open>rargs.insert(0, arg[i:])\<close>, then
  \<open>stop\<close>), else the next argument.
\<close>

fun process_short_opts :: "opt_decl list \<Rightarrow> string \<Rightarrow> string list \<Rightarrow> opt_values \<Rightarrow>
    opt_stop + opt_values \<times> string list" where
  "process_short_opts table [] rargs vals = Inr (vals, rargs)"
| "process_short_opts table (ch # cs) rargs vals =
     (case find_short table ch of
        None \<Rightarrow> Inl (StopError (''no such option: -'' @ [ch]))
      | Some (Store d) \<Rightarrow>
          (case (if cs \<noteq> [] then cs # rargs else rargs) of
             [] \<Rightarrow> Inl (StopError ([CHR ''-'', ch] @ '' option requires an argument''))
           | v # rest \<Rightarrow> Inr (store_value d v vals, rest))
      | Some (StoreTrue d) \<Rightarrow> process_short_opts table cs rargs (set_flag d vals)
      | Some PrintHelp \<Rightarrow> Inl StopHelp)"

text \<open>
  \<open>_process_args\<close>: \<open>--\<close> ends the options; \<open>--...\<close> is a long option,
  \<open>-x...\<close> a cluster of short ones, anything else (\<open>-\<close> included) a positional
  argument, kept in order (interspersed arguments are allowed). The result is
  \<open>(values, largs + rargs)\<close>.
\<close>

function process_args :: "opt_decl list \<Rightarrow> opt_values \<Rightarrow> string list \<Rightarrow> string list \<Rightarrow>
    opt_stop + opt_values \<times> string list" where
  "process_args table vals largs [] = Inr (vals, largs)"
| "process_args table vals largs (arg # rargs) =
     (if arg = ''--'' then Inr (vals, largs @ rargs)
      else if take 2 arg = ''--'' then
        (case process_long_opt table arg rargs vals of
           Inl s \<Rightarrow> Inl s
         | Inr (vals', rargs') \<Rightarrow> process_args table vals' largs rargs')
      else if take 1 arg = ''-'' \<and> 1 < length arg then
        (case process_short_opts table (tl arg) rargs vals of
           Inl s \<Rightarrow> Inl s
         | Inr (vals', rargs') \<Rightarrow> process_args table vals' largs rargs')
      else process_args table vals (largs @ [arg]) rargs)"
  by pat_completeness auto
termination
proof -
  have long: "length rargs' \<le> length rargs"
    if "process_long_opt table arg rargs vals = Inr (vals', rargs')" for table arg rargs vals vals' rargs'
    using that by (auto simp: process_long_opt_def Let_def split: prod.splits option.splits sum.splits
        opt_action.splits list.splits if_splits)
  have short: "process_short_opts table cs rargs vals = Inr (vals', rargs') \<Longrightarrow> length rargs' \<le> length rargs"
    for table cs rargs vals vals' rargs'
    by (induction table cs rargs vals rule: process_short_opts.induct)
       (auto split: option.splits opt_action.splits list.splits if_splits)
  show ?thesis
    by (relation "measure (\<lambda>(_, _, _, rargs). length rargs)") (auto dest: long short)
qed

definition parse_args :: "opt_decl list \<Rightarrow> opt_values \<Rightarrow> string list \<Rightarrow> opt_stop + opt_values \<times> string list" where
  "parse_args table defaults args = process_args table defaults [] args"

section \<open>The script\<close>

text \<open>
  How the process ends: falling off the end of the script, \<open>sys.exit(n)\<close>
  (\<open>sys.exit()\<close> and \<open>parser.exit()\<close> are \<open>0\<close>, \<open>parser.error\<close> is \<open>2\<close>), or an
  exception nothing catches (its traceback is not modelled).
\<close>

datatype script_end = Finished | SysExit nat | Uncaught cli_error

primrec script_end_of :: "cli_stop option \<Rightarrow> script_end" where
  "script_end_of None = Finished"
| "script_end_of (Some s) = (case s of Exit \<Rightarrow> SysExit 0 | Crash e \<Rightarrow> Uncaught e)"

text \<open>\<open>parser.error(msg)\<close>: the usage line and a blank line, then the message.\<close>

definition usage_error :: "string \<Rightarrow> string \<Rightarrow> string list" where
  "usage_error prog msg =
     [''Usage: python '' @ prog @ '' [options] filespec'', [], path_basename prog @ '': error: '' @ msg]"

text \<open>
  The script run as \<open>sys.argv = prog # args\<close>, with the lines \<open>print_help\<close>
  writes: the file system after the run, the lines on standard output, the
  lines on standard error and how it ended; \<open>None\<close> when a \<open>read\<close> never returns.
\<close>

definition itc_script :: "cli_env \<Rightarrow> string list \<Rightarrow> string \<Rightarrow> string list \<Rightarrow> fs \<Rightarrow>
    (fs \<times> string list \<times> string list \<times> script_end) option" where
  "itc_script env help prog args fs =
     (if args = [] then Some (fs, help, [], SysExit 0)
      else case parse_args itc_options itc_defaults args of
             Inl StopHelp \<Rightarrow> Some (fs, help, [], SysExit 0)
           | Inl (StopError msg) \<Rightarrow> Some (fs, [], usage_error prog msg, SysExit 2)
           | Inr (vals, files) \<Rightarrow>
               map_option (\<lambda>(fs', out, r). (fs', out, [], script_end_of r))
                 (cli_main env (cli_opts.truncate vals) files fs))"

section \<open>Arguments and command lines\<close>

text \<open>An argument \<open>_process_args\<close> keeps as positional.\<close>

definition is_positional :: "string \<Rightarrow> bool" where
  "is_positional a \<longleftrightarrow> a = [] \<or> hd a \<noteq> CHR ''-'' \<or> a = ''-''"

text \<open>The command line that sets every option to the value it has in \<open>v\<close>.\<close>

definition render_opts :: "opt_values \<Rightarrow> string list" where
  "render_opts v =
     (if opt_list v then [''-l''] else []) @
     (case opt_number v of None \<Rightarrow> [] | Some n \<Rightarrow> [''-n'', n]) @
     [''-b'', opt_basename v, ''-d'', opt_directory v, ''-a'', opt_add v, ''-s'', opt_set v] @
     (if opt_quiet v then [''-q''] else [])"

section \<open>Lemmas\<close>

lemma positional_not_opt:
  "is_positional a \<Longrightarrow> a \<noteq> ''--'' \<and> take 2 a \<noteq> ''--'' \<and> \<not> (take 1 a = ''-'' \<and> 1 < length a)"
  by (cases a) (auto simp: is_positional_def)

lemma process_args_positional:
  "is_positional a \<Longrightarrow> process_args table vals largs (a # rargs) = process_args table vals (largs @ [a]) rargs"
  using positional_not_opt [of a] by auto

lemma process_args_flag:
  "ch \<noteq> CHR ''-'' \<Longrightarrow> find_short table ch = Some (StoreTrue d) \<Longrightarrow>
   process_args table vals largs ([CHR ''-'', ch] # rargs) = process_args table (set_flag d vals) largs rargs"
  by simp

lemma process_args_store:
  "ch \<noteq> CHR ''-'' \<Longrightarrow> find_short table ch = Some (Store d) \<Longrightarrow>
   process_args table vals largs ([CHR ''-'', ch] # v # rargs) = process_args table (store_value d v vals) largs rargs"
  by simp

lemma process_args_end: "process_args table vals largs (''--'' # rargs) = Inr (vals, largs @ rargs)"
  by simp

lemma find_short_itc:
  "find_short itc_options (CHR ''l'') = Some (StoreTrue DList)"
  "find_short itc_options (CHR ''q'') = Some (StoreTrue DQuiet)"
  "find_short itc_options (CHR ''n'') = Some (Store DNumber)"
  "find_short itc_options (CHR ''b'') = Some (Store DBasename)"
  "find_short itc_options (CHR ''d'') = Some (Store DDirectory)"
  "find_short itc_options (CHR ''a'') = Some (Store DAdd)"
  "find_short itc_options (CHR ''h'') = Some PrintHelp"
  by (simp_all add: find_short_def itc_options_def)

lemma find_short_set: "find_short itc_options (CHR ''s'') = Some (Store DSet)"
  by (simp add: find_short_def itc_options_def)

lemmas itc_short_steps =
  process_args_flag [OF _ find_short_itc(1)] process_args_flag [OF _ find_short_itc(2)]
  process_args_store [OF _ find_short_itc(3)] process_args_store [OF _ find_short_itc(4)]
  process_args_store [OF _ find_short_itc(5)] process_args_store [OF _ find_short_itc(6)]

text \<open>A property of the values that every \<open>setattr\<close> keeps holds after parsing.\<close>

lemma process_long_opt_inv:
  assumes "\<And>d v. P v \<Longrightarrow> P (set_flag d v)" "\<And>d x v. P v \<Longrightarrow> P (store_value d x v)"
    and "process_long_opt table arg rargs vals = Inr (vals', rargs')" "P vals"
  shows "P vals'"
  using assms by (auto simp: process_long_opt_def Let_def split: prod.splits option.splits sum.splits
      opt_action.splits list.splits if_splits)

lemma process_short_opts_inv:
  assumes "\<And>d v. P v \<Longrightarrow> P (set_flag d v)" "\<And>d x v. P v \<Longrightarrow> P (store_value d x v)"
  shows "process_short_opts table cs rargs vals = Inr (vals', rargs') \<Longrightarrow> P vals \<Longrightarrow> P vals'"
  by (induction table cs rargs vals rule: process_short_opts.induct)
     (auto intro: assms split: option.splits opt_action.splits list.splits if_splits)

lemma process_args_inv:
  assumes "\<And>d v. P v \<Longrightarrow> P (set_flag d v)" "\<And>d x v. P v \<Longrightarrow> P (store_value d x v)"
  shows "process_args table vals largs rargs = Inr (vals', as) \<Longrightarrow> P vals \<Longrightarrow> P vals'"
proof (induction table vals largs rargs rule: process_args.induct)
  case (1 table vals largs)
  then show ?case by simp
next
  case (2 table vals largs arg rargs)
  then show ?case
    using process_long_opt_inv [OF assms, of table arg rargs vals]
      process_short_opts_inv [OF assms, of table "tl arg" rargs vals]
    by (auto split: if_splits sum.splits prod.splits)
qed

lemma set_flag_list: "opt_list v \<Longrightarrow> opt_list (set_flag d v)"
  by (cases d) simp_all

lemma store_value_list [simp]: "opt_list (store_value d x v) = opt_list v"
  by (cases d) simp_all

text \<open>Two values the file loop cannot tell apart (they differ at most in \<open>set\<close>) stay so.\<close>

lemma set_flag_truncate:
  "cli_opts.truncate v1 = cli_opts.truncate v2 \<Longrightarrow>
   cli_opts.truncate (set_flag d v1) = cli_opts.truncate (set_flag d v2)"
  by (cases d) (simp_all add: cli_opts.truncate_def)

lemma store_value_truncate:
  "cli_opts.truncate v1 = cli_opts.truncate v2 \<Longrightarrow>
   cli_opts.truncate (store_value d x v1) = cli_opts.truncate (store_value d x v2)"
  by (cases d) (simp_all add: cli_opts.truncate_def)

lemma process_long_opt_truncate:
  "cli_opts.truncate v1 = cli_opts.truncate v2 \<Longrightarrow>
   map_sum id (apfst cli_opts.truncate) (process_long_opt table arg rargs v1) =
   map_sum id (apfst cli_opts.truncate) (process_long_opt table arg rargs v2)"
  unfolding process_long_opt_def Let_def
  by (cases "split_eq arg"; cases "match_abbrev table (fst (split_eq arg))")
     (auto split: option.splits opt_action.splits list.splits intro: set_flag_truncate store_value_truncate)

lemma process_short_opts_truncate:
  "cli_opts.truncate v1 = cli_opts.truncate v2 \<Longrightarrow>
   map_sum id (apfst cli_opts.truncate) (process_short_opts table cs rargs v1) =
   map_sum id (apfst cli_opts.truncate) (process_short_opts table cs rargs v2)"
proof (induction table cs rargs v1 arbitrary: v2 rule: process_short_opts.induct)
  case (1 table rargs vals)
  then show ?case by simp
next
  case (2 table ch cs rargs vals)
  show ?case
  proof (cases "find_short table ch")
    case None
    then show ?thesis by simp
  next
    case (Some a)
    then show ?thesis
    proof (cases a)
      case (StoreTrue d)
      with Some "2.IH" [OF Some StoreTrue set_flag_truncate [OF "2.prems"]] show ?thesis by simp
    next
      case (Store d)
      with Some "2.prems" show ?thesis
        by (cases "if cs \<noteq> [] then cs # rargs else rargs") (auto intro: store_value_truncate)
    next
      case PrintHelp
      with Some show ?thesis by simp
    qed
  qed
qed

lemma map_sum_apfst_Inr:
  "map_sum id (apfst f) a = map_sum id (apfst f) b \<Longrightarrow> a = Inr (x, r) \<Longrightarrow>
   \<exists>y. b = Inr (y, r) \<and> f x = f y"
  by (cases b) auto

lemma process_args_truncate:
  "cli_opts.truncate v1 = cli_opts.truncate v2 \<Longrightarrow>
   map_sum id (apfst cli_opts.truncate) (process_args table v1 largs rargs) =
   map_sum id (apfst cli_opts.truncate) (process_args table v2 largs rargs)"
proof (induction table v1 largs rargs arbitrary: v2 rule: process_args.induct)
  case (1 table vals largs)
  then show ?case by simp
next
  case (2 table vals largs arg rargs)
  note long = process_long_opt_truncate [OF "2.prems", of table arg rargs]
  note short = process_short_opts_truncate [OF "2.prems", of table "tl arg" rargs]
  show ?case
  proof (cases "arg = ''--''")
    case True
    with "2.prems" show ?thesis by simp
  next
    case nd: False
    show ?thesis
    proof (cases "take 2 arg = ''--''")
      case True
      show ?thesis
      proof (cases "process_long_opt table arg rargs vals")
        case (Inl s)
        with long nd True show ?thesis by (cases "process_long_opt table arg rargs v2") auto
      next
        case (Inr p)
        obtain v' r' where p: "p = (v', r')" by (cases p)
        from map_sum_apfst_Inr [OF long Inr [unfolded p]] obtain w' where
          "process_long_opt table arg rargs v2 = Inr (w', r')" "cli_opts.truncate v' = cli_opts.truncate w'"
          by blast
        with "2.IH"(1) [OF nd True Inr [unfolded p]] Inr p nd True show ?thesis by simp
      qed
    next
      case nl: False
      show ?thesis
      proof (cases "take 1 arg = ''-'' \<and> 1 < length arg")
        case True
        show ?thesis
        proof (cases "process_short_opts table (tl arg) rargs vals")
          case (Inl s)
          with short nd nl True show ?thesis by (cases "process_short_opts table (tl arg) rargs v2") auto
        next
          case (Inr p)
          obtain v' r' where p: "p = (v', r')" by (cases p)
          from map_sum_apfst_Inr [OF short Inr [unfolded p]] obtain w' where
            "process_short_opts table (tl arg) rargs v2 = Inr (w', r')" "cli_opts.truncate v' = cli_opts.truncate w'"
            by blast
          with "2.IH"(2) [OF nd nl True Inr [unfolded p]] Inr p nd nl True show ?thesis by simp
        qed
      next
        case False
        with "2.IH"(3) [OF nd nl False "2.prems"] nd nl show ?thesis by auto
      qed
    qed
  qed
qed

section \<open>Properties of the parser\<close>

text \<open>
  C29. Every value of the options is reached from the command line: the
  options written out one by one, then \<open>--\<close> and any arguments, parse back to
  those values and those arguments, whatever the arguments look like (a
  value taken by \<open>-n\<close>, \<open>-b\<close>, \<open>-d\<close>, \<open>-a\<close> or \<open>-s\<close> may itself start with \<open>-\<close>).
\<close>

theorem parse_render_roundtrip:
  "parse_args itc_options itc_defaults (render_opts v @ ''--'' # args) = Inr (v, args)"
proof -
  have "process_args itc_options itc_defaults [] (render_opts v @ ''--'' # args) =
        Inr (itc_defaults\<lparr>opt_list := opt_list v, opt_number := opt_number v,
               opt_basename := opt_basename v, opt_directory := opt_directory v, opt_add := opt_add v,
               opt_set := opt_set v, opt_quiet := opt_quiet v\<rparr>, args)"
    by (cases "opt_list v"; cases "opt_number v"; cases "opt_quiet v")
       (simp_all del: process_args.simps add: render_opts_def itc_short_steps process_args_store [OF _ find_short_set]
         process_args_end itc_defaults_def)
  then show ?thesis
    by (cases v) (simp add: parse_args_def itc_defaults_def)
qed

text \<open>
  C30. No long option of the table is ambiguous: every prefix of an option's
  name that goes past the \<open>--\<close> selects that option, so \<open>--num\<close> is
  \<open>--number\<close> and \<open>AmbiguousOptionError\<close> is raised only for \<open>--\<close> itself
  (written \<open>--=value\<close>, since a bare \<open>--\<close> ends the options).
\<close>

theorem long_abbrev_unique:
  assumes "od \<in> set itc_options" "prefix s (opt_long od)" "2 < length s"
  shows "match_abbrev itc_options s = Inr od"
proof -
  have all: "\<forall>od\<in>set itc_options. \<forall>s\<in>set (prefixes (opt_long od)).
               2 < length s \<longrightarrow> match_abbrev itc_options s = Inr od"
    by (simp add: itc_options_def match_abbrev_def)
  from assms(2) have "s \<in> set (prefixes (opt_long od))" by simp
  with all assms(1,3) show ?thesis by blast
qed

text \<open>
  C31. A short option the table does not have stops the script before it
  looks at any file: the usage and \<open>no such option\<close> on standard error,
  exit status 2, the file system unchanged.
\<close>

theorem unknown_short_option:
  assumes "ch \<notin> set ''hlnbdasq''" "ch \<noteq> CHR ''-''"
  shows "itc_script env help prog ((CHR ''-'' # ch # cs) # args) fs =
           Some (fs, [], usage_error prog (''no such option: -'' @ [ch]), SysExit 2)"
proof -
  have "find_short itc_options ch = None"
    using assms(1) by (auto simp: find_short_def itc_options_def)
  with assms(2) show ?thesis
    by (simp add: itc_script_def parse_args_def)
qed

section \<open>Properties of the script\<close>

lemma itc_script_parsed:
  "args \<noteq> [] \<Longrightarrow> parse_args itc_options itc_defaults args = Inr (vals, files) \<Longrightarrow>
   itc_script env help prog args fs =
     map_option (\<lambda>(fs', out, r). (fs', out, [], script_end_of r)) (cli_main env (cli_opts.truncate vals) files fs)"
  by (simp add: itc_script_def)

text \<open>
  C32. \<open>-l\<close> makes the whole script read-only: whatever follows it on the
  command line (\<open>-a\<close> included, and any other option, which can set
  \<open>list\<close> only to \<open>True\<close>), a run that returns leaves every file as it was.
\<close>

theorem list_option_read_only:
  assumes "itc_script env help prog (''-l'' # args) fs = Some (fs', out, err, e)"
  shows "fs' = fs"
proof (cases "parse_args itc_options itc_defaults (''-l'' # args)")
  case (Inl s)
  with assms show ?thesis
    by (cases s) (simp_all add: itc_script_def)
next
  case (Inr p)
  obtain vals files where p: "p = (vals, files)" by (cases p)
  have "process_args itc_options itc_defaults [] (''-l'' # args) =
        process_args itc_options (set_flag DList itc_defaults) [] args"
    by (rule itc_short_steps(1)) simp
  with Inr p have "process_args itc_options (set_flag DList itc_defaults) [] args = Inr (vals, files)"
    by (simp add: parse_args_def)
  moreover have "opt_list (set_flag DList itc_defaults)" by simp
  moreover have "\<And>d x v. opt_list v \<Longrightarrow> opt_list (store_value d x v)" by simp
  ultimately have "opt_list vals"
    using process_args_inv [where P = opt_list, OF set_flag_list] by blast
  then have lst: "opt_list (cli_opts.truncate vals)"
    by (simp add: cli_opts.truncate_def)
  from assms Inr p obtain r where
    run: "cli_main env (cli_opts.truncate vals) files fs = Some (fs', out, r)"
    by (auto simp: itc_script_parsed)
  show ?thesis
  proof (cases "files = []")
    case True
    with run show ?thesis by (simp add: cli_main_def)
  next
    case False
    with run have "cli_run env (cli_opts.truncate vals) (concat (map (env_glob env) files))
        (concat (map (env_glob env) files)) fs = Some (fs', out, r)"
      by (simp add: cli_main_def Let_def)
    moreover have "\<And>g a b o' r'. cli_file env (cli_opts.truncate vals) (concat (map (env_glob env) files)) g a =
        Some (b, o', r') \<Longrightarrow> b = a \<and> r' \<noteq> Some Exit"
      by (rule cli_file_list [OF lst])
    ultimately show ?thesis using cli_run_keeps by blast
  qed
qed

text \<open>
  C33. \<open>-s LIBSPEC\<close> (set the library and track ids) has no effect: with any
  other arguments, the script run with \<open>-s\<close> and a value in front prints,
  writes and ends exactly as the run without them.
\<close>

theorem set_option_ignored:
  assumes "args \<noteq> []"
  shows "itc_script env help prog (''-s'' # x # args) fs = itc_script env help prog args fs"
proof -
  have step: "parse_args itc_options itc_defaults (''-s'' # x # args) =
              process_args itc_options (store_value DSet x itc_defaults) [] args"
    by (simp add: parse_args_def find_short_def itc_options_def)
  have tr: "map_sum id (apfst cli_opts.truncate) (process_args itc_options (store_value DSet x itc_defaults) [] args) =
            map_sum id (apfst cli_opts.truncate) (parse_args itc_options itc_defaults args)"
    unfolding parse_args_def by (rule process_args_truncate) (simp add: cli_opts.truncate_def)
  show ?thesis
  proof (cases "parse_args itc_options itc_defaults args")
    case (Inl s)
    with tr have "parse_args itc_options itc_defaults (''-s'' # x # args) = Inl s"
      by (cases "process_args itc_options (store_value DSet x itc_defaults) [] args") (auto simp: step)
    with Inl assms show ?thesis by (simp add: itc_script_def)
  next
    case (Inr p)
    obtain vals files where p: "p = (vals, files)" by (cases p)
    from map_sum_apfst_Inr [OF tr [symmetric] Inr [unfolded p]] step obtain vals' where
      "parse_args itc_options itc_defaults (''-s'' # x # args) = Inr (vals', files)"
      "cli_opts.truncate vals = cli_opts.truncate vals'"
      by auto
    with Inr p assms show ?thesis by (simp add: itc_script_parsed)
  qed
qed

text \<open>
  C34. \<open>-n -1\<close> is not the default: optparse stores the string \<open>'-1'\<close>, which
  is not the integer \<open>-1\<close> the script compares it with, so instead of
  exporting every image the run prints the \<open>IndexError\<close> of image number
  \<open>-1\<close> and writes no file, for every container it reads.
\<close>

theorem number_minus_one_exports_nothing:
  assumes "is_positional f" "env_glob env f = [f]" "can_handle fs f = Inr True"
    and "itc_read fs f False (itc_init ITUNES_9 False) = Some (Inr st)"
  shows "itc_script env help prog [''-n'', ''-1'', f] fs =
           Some (fs, [''Error: '' @ env_arg_first env (Raised IndexError)], [], Finished)"
proof -
  have "process_args itc_options itc_defaults [] [''-n'', ''-1'', f] =
        process_args itc_options (store_value DNumber ''-1'' itc_defaults) [] [f]"
    by (rule itc_short_steps(3)) simp
  also have "\<dots> = Inr (store_value DNumber ''-1'' itc_defaults, [f])"
    using process_args_positional [OF assms(1)] by simp
  finally have parse: "parse_args itc_options itc_defaults [''-n'', ''-1'', f] =
      Inr (store_value DNumber ''-1'' itc_defaults, [f])"
    by (simp add: parse_args_def)
  have n: "py_int ''-1'' = Inr (-1)"
    by (simp add: py_int_def py_strip_def is_space_def is_digit_def dec_val_def)
  show ?thesis
    using assms(2-4) n
    by (simp add: itc_script_parsed [OF _ parse] cli_main_def cli_file_def cli_export_def export_image_def
        itc_defaults_def cli_opts.truncate_def)
qed

section \<open>Witnesses\<close>

theorem long_abbrev_unique_witness:
  "\<lparr>opt_short = ''-n'', opt_long = ''--number'', opt_act = Store DNumber\<rparr> \<in> set itc_options \<and>
   prefix ''--num'' ''--number'' \<and> 2 < length ''--num'' \<and>
   match_abbrev itc_options ''--num'' = Inr \<lparr>opt_short = ''-n'', opt_long = ''--number'', opt_act = Store DNumber\<rparr>"
proof -
  have mem: "\<lparr>opt_short = ''-n'', opt_long = ''--number'', opt_act = Store DNumber\<rparr> \<in> set itc_options"
    by (simp add: itc_options_def)
  have pre: "prefix ''--num'' (opt_long \<lparr>opt_short = ''-n'', opt_long = ''--number'', opt_act = Store DNumber\<rparr>)"
    by simp
  show ?thesis
    using long_abbrev_unique [OF mem pre] mem by simp
qed

theorem unknown_short_option_witness:
  "CHR ''x'' \<notin> set ''hlnbdasq'' \<and> CHR ''x'' \<noteq> CHR ''-'' \<and>
   itc_script example_env [] ''itc.py'' [''-x'', ''a.itc''] empty_itc_fs =
     Some (empty_itc_fs, [], [''Usage: python itc.py [options] filespec'', [], ''itc.py: error: no such option: -x''],
           SysExit 2)"
  using unknown_short_option [of "CHR ''x''" example_env "[]" "''itc.py''" "[]" "[''a.itc'']" empty_itc_fs]
  by (simp add: usage_error_def path_basename_def)

theorem list_option_read_only_witness:
  "itc_script example_env [] ''itc.py'' [''-l'', ''a.itc''] empty_itc_fs =
     Some (empty_itc_fs, [''ITC File Information for a.itc''], [], Finished) \<and>
   empty_itc_fs = empty_itc_fs"
proof -
  have parse: "parse_args itc_options itc_defaults [''-l'', ''a.itc''] = Inr (itc_defaults\<lparr>opt_list := True\<rparr>, [''a.itc''])"
    by (simp add: parse_args_def find_short_itc)
  have run: "itc_script example_env [] ''itc.py'' [''-l'', ''a.itc''] empty_itc_fs =
     Some (empty_itc_fs, [''ITC File Information for a.itc''], [], Finished)"
    by (simp add: itc_script_parsed [OF _ parse] cli_main_def cli_file_def empty_itc_fs_handle empty_itc_fs_read
        list_lines_def example_env_def itc_defaults_def cli_opts.truncate_def)
  show ?thesis
    using list_option_read_only [OF run] run by simp
qed

theorem set_option_ignored_witness:
  "[''-l'', ''a.itc''] \<noteq> [] \<and>
   itc_script example_env [] ''itc.py'' [''-s'', ''1:2'', ''-l'', ''a.itc''] empty_itc_fs =
     itc_script example_env [] ''itc.py'' [''-l'', ''a.itc''] empty_itc_fs"
  using set_option_ignored [of "[''-l'', ''a.itc'']" example_env "[]" "''itc.py''" "''1:2''" empty_itc_fs]
  by simp

theorem number_minus_one_exports_nothing_witness:
  "is_positional ''a.itc'' \<and> env_glob example_env ''a.itc'' = [''a.itc''] \<and>
   can_handle empty_itc_fs ''a.itc'' = Inr True \<and>
   itc_read empty_itc_fs ''a.itc'' False (itc_init ITUNES_9 False) =
     Some (Inr ((itc_init ITUNES_9 False)\<lparr>itc_filename := ''a.itc'', library := None, track := None, images := []\<rparr>)) \<and>
   itc_script example_env [] ''itc.py'' [''-n'', ''-1'', ''a.itc''] empty_itc_fs =
     Some (empty_itc_fs, [''Error: error''], [], Finished)"
proof -
  have pos: "is_positional ''a.itc''" by (simp add: is_positional_def)
  have glob: "env_glob example_env ''a.itc'' = [''a.itc'']" by (simp add: example_env_def)
  have h: "can_handle empty_itc_fs ''a.itc'' = Inr True" by (simp add: empty_itc_fs_handle)
  have r: "itc_read empty_itc_fs ''a.itc'' False (itc_init ITUNES_9 False) =
     Some (Inr ((itc_init ITUNES_9 False)\<lparr>itc_filename := ''a.itc'', library := None, track := None, images := []\<rparr>))"
    by (simp add: empty_itc_fs_read)
  show ?thesis
    using number_minus_one_exports_nothing [OF pos glob h r, of "[]" "''itc.py''"] pos glob h r
    by (simp add: example_env_def)
qed

end
