(* ===== verification/Spec2Isabelle.thy ===== *)
theory Spec2Isabelle
  imports ITC_Roundtrip ITC_Export ITC_Reader_Inv ITC_Reader_Term ITC_Reader_Types ITC_Reader_Modes ITC_Spec ITC_CLI ITC_Options
begin

text \<open>
  \<^bold>\<open>A verification development of the ITC artwork container codec\<close>
  (\<open>src/scripts/itc.py\<close>, a Python 2 script).

  \<^bold>\<open>The program.\<close> \<open>ITCFile\<close> reads and writes iTunes \<open>.itc\<close> artwork
  containers: a root frame \<open>itch\<close> whose nested \<open>artw\<close> frame is a 256-byte
  placeholder, followed by one \<open>item\<close> frame per image. Frames are
  \<open>(size: u32 BE, tag: 4 bytes, body)\<close>. An \<open>item\<close> body starts with a u32
  \<open>image_offset\<close> whose value selects the layout (208: ITUNES_9, 16-byte
  preamble; 216: ITUNES_OLD, 20-byte preamble), then library and track ids
  (u64), a storage tag and a format tag, width and height; the payload starts
  \<open>image_offset\<close> bytes after the frame start and is \<open>size - image_offset\<close>
  bytes long. \<open>EasyPNG\<close> turns a raw ARGB payload into a PNG file on export.
  The command line (\<open>__main__\<close>) parses options and globs and calls \<open>read\<close>,
  \<open>add_image\<close>, \<open>write\<close> and \<open>export_image\<close>.

  \<^bold>\<open>Library layout.\<close>
  \<^item> \<open>ITC_Prelude\<close>: bytes as \<open>8 word\<close> lists, Python exceptions as the datatype
    \<open>error\<close>, results as \<open>error + 'a\<close> threaded by \<open>rbind\<close>, the \<open>struct\<close>
    encodings (\<open>pack_uint\<close>, \<open>unpack_uint\<close>, \<open>pack_str\<close>) with their
    round-trip laws, Python indexing (\<open>py_index\<close>), file writes that stop at the
    first exception (\<open>run_writes\<close>).
  \<^item> \<open>ITC_Stream\<close>: the Python 2 file object the reader walks: \<open>py_read\<close>
    (short reads at the end, \<open>read(-n)\<close> reads everything), \<open>py_seek\<close>,
    \<open>py_seek_cur\<close> (\<open>IOError\<close> for a negative position).
  \<^item> \<open>ITC_Model\<close>: the container record model: the image tuple as the record
    \<open>image\<close>, the object's attributes as the record \<open>itc\<close> (\<open>ITCFile.__init__\<close>),
    the tag tables of \<open>_parse_item\<close> (\<open>decode_format\<close>, \<open>decode_method\<close>) and
    \<open>_write_image\<close> (\<open>encode_format\<close>, \<open>encode_method\<close>), \<open>add_image\<close>, the
    \<open>_ImageData\<close> proxy, \<open>can_handle\<close>.
  \<^item> \<open>ITC_Reader\<close>: \<open>_parse_item\<close> (\<open>parse_item\<close> with its pieces),
    \<open>_handle_frame\<close>/\<open>_parse_itch\<close> (mutually recursive \<open>handle_frame\<close> and
    \<open>parse_itch\<close>, terminating because every nested \<open>itch\<close> consumes 20 bytes),
    \<open>_parse_artw\<close>, \<open>_read_frame\<close> (\<open>read_frame\<close>) and the loop of \<open>read\<close>
    (\<open>read_loop\<close>, a \<open>partial_function (option)\<close>: that loop need not end, and
    \<open>None\<close> is the call that never returns), \<open>read\<close> itself (\<open>itc_read\<close>).
    Each operation maps the object and the stream to the updated pair or to the
    exception the source raises.
  \<^item> \<open>ITC_Writer\<close>: \<open>write\<close> (\<open>itc_write\<close>, the file system after the call
    together with the exception, if any: the file has been truncated and partly
    written when an image raises) and \<open>_write_image\<close> (\<open>write_image\<close>).
  \<^item> \<open>ITC_Roundtrip\<close>: what the reader makes of the writer's bytes
    (\<open>written_frame\<close> lays out a written item frame, \<open>read_frame_written\<close>
    reads it back on every branch, \<open>read_loop_written9\<close> reads a whole
    ITUNES_9 image list).
  \<^item> \<open>ITC_Reader_Inv\<close>: the read loop as the transition system
    \<open>read_steps\<close> (an \<open>inductive\<close> relation over \<open>_read_frame\<close> steps);
    \<open>read_loop_steps\<close> (fixpoint induction on \<open>read_loop\<close>) turns a returning
    loop into a run of steps, and rule induction carries the invariant
    \<open>read_inv\<close> through it.
  \<^item> \<open>ITC_Reader_Term\<close>: when the read loop terminates. Every step that does
    not end the loop moves the position forward unless it stands at a
    zero-size \<open>item\<close> frame with image offset 0 (\<open>zero_item_frame\<close>),
    so \<open>read\<close> returns on every file without one.
  \<^item> \<open>ITC_Reader_Types\<close>: the records \<open>read\<close> returns carry the fields
    they were unpacked from (\<open>typed_image\<close>: width and height are the two
    32-bit words of one 8-byte field of the file, width first, and the recorded
    length fits the difference of two such words), by rule induction over the
    loop's steps, along which the stream keeps its bytes.
  \<^item> \<open>ITC_Reader_Modes\<close>: list-only against full reads: \<open>_parse_item\<close>
    factored into the work both modes share (\<open>item_prefix\<close>) and the
    payload step, and a lockstep simulation of the two loops (\<open>pos_rel\<close>,
    \<open>strip_itc\<close>) when no recorded length is negative.
  \<^item> \<open>ITC_Spec\<close>: the container as the specification describes it
    (\<open>container\<close>: records with an encoding and a storage kind, ids, layout
    variant, preamble), the abstraction \<open>abs_itc\<close> of \<open>ITCFile\<close>'s
    attributes, the specification's writer \<open>spec_write\<close> and \<open>addImage\<close>
    (\<open>spec_add\<close>), and the refinement lemmas: \<open>write_image_spec\<close> for one frame, \<open>itc_write\<close> and
    \<open>add_image\<close> against their specifications.
  \<^item> \<open>ITC_CLI\<close>: the command line after \<open>parse_args\<close>: the options as the
    record \<open>cli_opts\<close>, the file loop (\<open>cli_run\<close>, one \<open>cli_file\<close> per
    matched file: \<open>can_handle\<close>, a fresh \<open>ITCFile\<close>, \<open>read\<close>), the listing
    (\<open>list_lines\<close>), \<open>-a\<close> (\<open>cli_add\<close>: \<open>split\<close>, \<open>int()\<close> as
    \<open>py_int\<close>, \<open>add_image\<close>, \<open>write\<close>, the messages of the two
    \<open>except\<close> clauses, \<open>sys.exit\<close>) and the export (\<open>cli_name\<close> from
    \<open>-b\<close>/\<open>-d\<close> and \<open>os.path\<close>, \<open>cli_export\<close>). A run returns the file
    system, the printed lines and how it ended (\<open>cli_stop\<close>), or \<open>None\<close>
    when a \<open>read\<close> never returns. \<open>glob.glob\<close> and the text of exception
    arguments are parameters (\<open>cli_env\<close>).
  \<^item> \<open>ITC_Options\<close>: the script from \<open>sys.argv\<close>: the option table of the
    \<open>add_option\<close> calls (\<open>itc_options\<close>) and their defaults
    (\<open>itc_defaults\<close>, the record \<open>opt_values\<close>: \<open>cli_opts\<close> and the unused
    \<open>set\<close>), Python 2's \<open>optparse\<close> over it (\<open>parse_args\<close>,
    \<open>process_args\<close>, \<open>process_long_opt\<close> with prefix matching
    \<open>match_abbrev\<close>, \<open>process_short_opts\<close>; modelled from the library's
    documented behaviour), and \<open>itc_script\<close>: help and exit on no argument,
    \<open>parser.error\<close> (\<open>usage_error\<close>, status 2), then \<open>cli_main\<close>; a run
    returns the files, standard output, standard error and how the process
    ended (\<open>script_end\<close>). The text \<open>print_help\<close> formats is a parameter.
  \<^item> \<open>ITC_PNG\<close>: \<open>EasyPNG\<close>: \<open>png_write\<close> (\<open>write\<close>), \<open>write_box\<close>,
    \<open>write_header\<close>, \<open>write_data\<close>, \<open>write_argb_data\<close> with its loop
    \<open>argb_rows\<close>/\<open>argb_pixel\<close>, \<open>write_end\<close>; \<open>zlib.crc32\<close> as the
    CRC-32 it computes (\<open>crc32\<close>, on \<open>32 word\<close>; Python 2 returns it signed,
    \<open>py_crc32\<close>) and \<open>zlib.compressobj\<close> as a parameter \<open>compress\<close>: the
    split of the stored deflate blocks at level 0 depends on the zlib version,
    while every claim holds for any compressor. The reference definitions
    \<open>png_chunk\<close> (a chunk as the PNG specification lays it out) and
    \<open>scanlines\<close> (rows sliced from the buffer, pixels rotated by \<open>rotate1\<close>)
    state what the code computes.
  \<^item> \<open>ITC_Export\<close>: \<open>export_image\<close> and \<open>_export_image_data\<close> over the
    file-system map \<open>fs\<close> (a file opened for writing is emptied first), with
    \<open>'%02d'\<close> (\<open>fmt02\<close>) and the extension table (\<open>export_ext\<close>); the
    decimal reading \<open>dec_val\<close> inverts \<open>fmt02\<close>, which makes the exported
    file names pairwise distinct.
  \<^item> this theory: the properties that span the reader and the writer
    (round trips, files the reader mishandles, fields the writer cannot pack),
    and the witnesses that need both.

  \<^bold>\<open>Modelling choices.\<close> Python integers are \<open>int\<close>/\<open>nat\<close> (they do not
  overflow); where the code packs them, the range check of \<open>struct.pack\<close> is
  written out and raises \<open>StructError\<close>; the CRC is a 32-bit word whose signed
  reading is what Python 2 packs with \<open>'l'\<close>. The attribute \<open>library\<close> holding
  \<open>''\<close> is \<open>None\<close>; the missing attribute \<open>info_preamble\<close> is \<open>None\<close> and
  reading it raises \<open>AttributeError\<close>. On an exception the model returns only the
  exception and, for operations that write files, the files as they were left:
  the half-updated object the source leaves behind is not used by any caller.
  \<open>can_handle\<close> answers \<open>True\<close> for \<open>'itc'\<close> and \<open>False\<close> for \<open>None\<close>.

  \<^bold>\<open>Proof structure.\<close> The reader is proved on byte layouts: \<open>read_frame_item\<close>
  describes \<open>_read_frame\<close> on any laid-out item frame on every branch, and the
  claims instantiate it. Termination: \<open>handle_frame\<close>/\<open>parse_itch\<close> by a
  measure on the bytes left; \<open>read_loop\<close> need not terminate, so returning is
  proved on every file without a zero-size item frame (C16, by induction on
  the bytes left after the position) and divergence on the file with one (C4,
  by fixpoint induction); \<open>nat_dec\<close> and \<open>chunks\<close> by their decreasing arguments;
  \<open>process_args\<close> by the number of arguments left, since an option step never
  leaves more than it was given. Properties of parsing go through
  \<open>process_args_inv\<close> (a property every \<open>setattr\<close> keeps holds after parsing)
  and \<open>process_args_truncate\<close> (values equal up to \<open>set\<close> stay so).
  Properties of whole reads go through \<open>itc_read_run\<close>: a returning read is a
  run of \<open>read_steps\<close> and a final frame, and invariants (C13, C23) and the
  simulation of list-only by full reads (C26) follow the run by rule
  induction. The refinement lemmas compare \<open>itc_write\<close> frame by frame with
  the specification's layout through the abstraction \<open>abs_itc\<close>.

  \<^bold>\<open>Not modelled.\<close> Of the command line: the layout of the help text
  \<open>print_help\<close> formats, \<open>glob.glob\<close> and the messages carried by
  exceptions (parameters of the run), and the tracebacks of uncaught
  exceptions (the run ends in \<open>Uncaught\<close>). The
  console output of \<open>export_image\<close> and \<open>_export_image_data\<close> (\<open>print\<close>
  unless \<open>quiet\<close>). The byte layout of zlib's deflate stream (a parameter).

  \<^bold>\<open>Properties.\<close> The claims are numbered as in the manifest. In this
  theory: C1, C2, C5 to C7, C27 and C28; in \<open>ITC_Writer\<close>: C3 and C14; in
  \<open>ITC_Reader\<close>: C4; in \<open>ITC_PNG\<close>: C8 and C9; in \<open>ITC_Export\<close>: C10 to
  C12 and C15; in \<open>ITC_Reader_Inv\<close>: C13; in \<open>ITC_Reader_Term\<close>: C16; in
  \<open>ITC_CLI\<close>: C17 to C22; in \<open>ITC_Reader_Types\<close>: C23; in \<open>ITC_Spec\<close>:
  C24 and C25; in \<open>ITC_Reader_Modes\<close>: C26; in \<open>ITC_Options\<close>: C29 to C34.
  They cover the round trip through writer and reader (C1, C2), the size
  field (C3), divergence (C4), the error paths (C5 to C7, C11, C12), the pixel
  encoder against its references (C8, C9), the export (C10, C15), the
  reader's invariant (C13), \<open>can_handle\<close> on written files (C14), termination
  of \<open>read\<close> (C16); the command line: \<open>-a\<close> on an empty container and on
  several files (C17, C19), listing without writing (C18), \<open>-n\<close> out of range
  (C20), termination of a run (C21) and \<open>-a\<close> appending an image (C22); the
  width and height of the records read as the fields they were unpacked from
  (C23); \<open>write\<close> and \<open>add_image\<close> as refinements of the specification's
  writer and \<open>addImage\<close> (C24, C25); list-only mode reporting the full read's
  records (C26); a truncated payload read without an exception (C27) and a
  width that does not fit its field (C28); the option parser: every value of
  the options reached from a command line and parsed back (C29), no long
  option ambiguous (C30), an unknown option ending the run with status 2
  (C31); the script: \<open>-l\<close> in front making it read-only (C32), \<open>-s\<close>
  without effect (C33) and \<open>-n -1\<close> exporting nothing (C34).
\<close>

text \<open>An ITUNES_9 container with one PNG image, as \<open>read\<close> leaves it.\<close>

definition example_itc9 :: itc where
  "example_itc9 =
     \<lparr>itc_filename = ''a.itc'', library = Some 1, track = Some 2,
      images = [\<lparr>img_width = 3, img_height = 4, img_data = Some [7, 8], img_format = FmtPNG,
                 img_method = Local, img_len = 2\<rparr>],
      image_offset = 208, info_preamble = Some (replicate 16 5), quiet = True\<rparr>"

text \<open>The same container in the ITUNES_OLD layout (offset 216, 20-byte preamble).\<close>

definition example_itc_old :: itc where
  "example_itc_old = example_itc9\<lparr>image_offset := 216, info_preamble := Some (replicate 20 5)\<rparr>"

text \<open>
  A 64-byte file holding one item frame that declares size 0, offset 208, library
  id 1, track id 2, a local PNG of 1 by 1 pixels and no payload.
\<close>

definition zero_item_file :: bytes where
  "zero_item_file = be_bytes 4 0 @ tag_item @ be_bytes 4 208 @ replicate 16 0 @
     be_bytes 8 1 @ be_bytes 8 2 @ tag_locl @ tag_PNGf @ replicate 4 0 @ be_bytes 4 1 @ be_bytes 4 1"

section \<open>Round trip through the writer and the reader\<close>

text \<open>
  C1. Writing an ITUNES_9 container whose images are all writable raises nothing,
  and reading the file back (in either mode) gives the same images in the same
  order with the same width, height, storage method and recorded length, the same
  library and track ids, the payload byte for byte in full mode and no payload in
  list-only mode; only the format is mapped through the tag tables
  (\<open>reread_format\<close>: PNG stays PNG, JPG comes back as JPEG, ARGB as unclassified).
\<close>

theorem write_read_roundtrip9:
  assumes wf: "writable9 st" "list_all writable_image (images st)" and fn: "fname \<noteq> []"
  shows "snd (itc_write st fname fs) = None
         \<and> (\<exists>r. itc_read (fst (itc_write st fname fs)) fname lo st0 = Some (Inr r)
                \<and> images r = map (roundtrip_image lo) (images st)
                \<and> (images st \<noteq> [] \<longrightarrow> library r = library st \<and> track r = track st))"
proof -
  obtain Fs where Fs: "map (\<lambda>(x, i). write_image st x i) (enumerate 0 (images st)) = map Inr Fs"
    using write_images_writable9 [OF wf] by blast
  let ?c = "root_header @ nuls 256 @ concat Fs"
  have wr: "itc_write st fname fs = (fs(fname \<mapsto> ?c), None)"
  proof -
    have "[Inr root_header, Inr (nuls 256)] @ map Inr Fs = map Inr ([root_header, nuls 256] @ Fs)"
      by simp
    then show ?thesis
      using fn Fs by (simp add: itc_write_def del: map_append)
  qed
  let ?st0 = "st0\<lparr>itc_filename := fname, library := None, track := None, images := []\<rparr>"
  let ?s = "\<lparr>content = ?c, pos = 0\<rparr>"
  have hdr: "read_frame lo ?st0 ?s = Inr (False, ?st0, ?s\<lparr>pos := 284\<rparr>)"
    by (rule read_root_header) simp_all
  have d284: "drop (pos (?s\<lparr>pos := 284\<rparr>)) (content (?s\<lparr>pos := 284\<rparr>)) = concat Fs"
    by (simp add: root_header_def tag_itch_def tag_artw_def bstr_def nuls_def)
  obtain r where r: "read_loop lo ?st0 (?s\<lparr>pos := 284\<rparr>) =
        Some (Inr (r, ?s\<lparr>pos := 284 + length (concat Fs)\<rparr>))"
      "images r = map (roundtrip_image lo) (images st)"
      "library r = (if images st = [] then None else library st)"
      "track r = (if images st = [] then None else track st)"
    using read_loop_written9 [OF wf(1) wf(2) Fs d284, of ?st0 lo] by auto
  have "itc_read (fst (itc_write st fname fs)) fname lo st0 = Some (Inr r)"
    using wr r(1) read_loop_continue [OF hdr] by (simp add: itc_read_def)
  with wr r show ?thesis
    by auto
qed

theorem write_read_roundtrip9_witness:
  "writable9 example_itc9 \<and> list_all writable_image (images example_itc9) \<and> ''a.itc'' \<noteq> []
   \<and> snd (itc_write example_itc9 ''a.itc'' Map.empty) = None
   \<and> (\<exists>r. itc_read (fst (itc_write example_itc9 ''a.itc'' Map.empty)) ''a.itc'' False
              (itc_init 208 True) = Some (Inr r)
          \<and> images r = map (roundtrip_image False) (images example_itc9)
          \<and> (images example_itc9 \<noteq> [] \<longrightarrow>
               library r = library example_itc9 \<and> track r = track example_itc9))"
proof -
  have wf: "writable9 example_itc9" "list_all writable_image (images example_itc9)"
    by (simp_all add: example_itc9_def writable9_def writable_image_def ITUNES_9_def)
  show ?thesis
    using wf write_read_roundtrip9 [OF wf, of "''a.itc''" Map.empty False "itc_init 208 True"]
    by simp
qed

text \<open>
  C2. For the ITUNES_OLD layout the round trip corrupts the payload: after writing
  a one-image container and reading it back, the image's payload is the written
  payload preceded by the writer's 4 extra zero bytes and cut to its recorded
  length, i.e. its last 4 bytes are lost (for a 2-byte payload \<open>[7, 8]\<close> the
  reader returns \<open>[0, 0]\<close>).
\<close>

theorem write_read_old_single:
  assumes wf: "writable_layout st" "image_offset st = ITUNES_OLD" "images st = [i]" "writable_image i"
    and sz: "img_len i + ITUNES_OLD < 2 ^ 32" and fn: "fname \<noteq> []"
  shows "snd (itc_write st fname fs) = None
         \<and> (\<exists>r. itc_read (fst (itc_write st fname fs)) fname False st0 = Some (Inr r)
                \<and> images r = [(roundtrip_image False i)\<lparr>img_data :=
                                  map_option (\<lambda>d. take (length d) (nuls 4 @ d)) (img_data i)\<rparr>])"
proof -
  obtain F where F: "write_image st 0 i = Inr F"
    using write_image_writable [OF wf(1) wf(4)] sz wf(2) by auto
  obtain d where d: "img_data i = Some d" "img_len i = int (length d)"
    using wf(4) by (rule writable_imageE)
  obtain pre where pre: "info_preamble st = Some pre" "length pre = 20"
    using wf(1,2) by (auto simp: writable_layout_def ITUNES_9_def ITUNES_OLD_def split: option.splits)
  have lay: "length F = 220 + length d" "drop 216 F = nuls 4 @ d"
    using write_image_layout [OF F d(1) pre(1)] pre(2) wf(2) by (simp_all add: ITUNES_OLD_def)
  let ?c = "root_header @ nuls 256 @ F"
  have wr: "itc_write st fname fs = (fs(fname \<mapsto> ?c), None)"
    using fn F wf(3) by (simp add: itc_write_def)
  let ?st0 = "st0\<lparr>itc_filename := fname, library := None, track := None, images := []\<rparr>"
  let ?s = "\<lparr>content = ?c, pos = 0\<rparr>"
  have hdr: "read_frame False ?st0 ?s = Inr (False, ?st0, ?s\<lparr>pos := 284\<rparr>)"
    by (rule read_root_header) simp_all
  have d284: "drop (pos (?s\<lparr>pos := 284\<rparr>)) (content (?s\<lparr>pos := 284\<rparr>)) = F @ []"
    by (simp add: root_header_def tag_itch_def tag_artw_def bstr_def nuls_def)
  let ?r = "?st0\<lparr>image_offset := image_offset st, info_preamble := info_preamble st,
                  library := library st, track := track st,
                  images := [(roundtrip_image False i)\<lparr>img_data := Some (take (length d) (nuls 4 @ d))\<rparr>]\<rparr>"
  have fr: "read_frame False ?st0 (?s\<lparr>pos := 284\<rparr>) = Inr (False, ?r, ?s\<lparr>pos := 500 + length d\<rparr>)"
    using read_frame_written [OF wf(1) wf(4) d(1) _ F d284, of False ?st0] sz wf(2) lay
    by (simp add: ITUNES_OLD_def)
  have "read_frame False ?r (?s\<lparr>pos := 500 + length d\<rparr>) =
        Inr (True, ?r, snd (py_read 8 (?s\<lparr>pos := 500 + length d\<rparr>)))"
    using lay(1) by (intro read_frame_end) (simp add: root_header_def tag_itch_def tag_artw_def bstr_def nuls_def)
  then have "itc_read (fst (itc_write st fname fs)) fname False st0 = Some (Inr ?r)"
    using wr hdr fr by (simp add: itc_read_def read_loop_continue read_loop_stop)
  with wr d show ?thesis
    by simp
qed

theorem write_read_old_single_witness:
  "writable_layout example_itc_old \<and> image_offset example_itc_old = ITUNES_OLD
   \<and> images example_itc_old = [hd (images example_itc9)]
   \<and> writable_image (hd (images example_itc9))
   \<and> img_len (hd (images example_itc9)) + ITUNES_OLD < 2 ^ 32 \<and> ''a.itc'' \<noteq> []
   \<and> snd (itc_write example_itc_old ''a.itc'' Map.empty) = None
   \<and> (\<exists>r. itc_read (fst (itc_write example_itc_old ''a.itc'' Map.empty)) ''a.itc'' False
              (itc_init 208 True) = Some (Inr r)
          \<and> images r = [(roundtrip_image False (hd (images example_itc9)))\<lparr>img_data := Some [0, 0]\<rparr>])"
proof -
  have h: "writable_layout example_itc_old" "image_offset example_itc_old = ITUNES_OLD"
    "images example_itc_old = [hd (images example_itc9)]"
    "writable_image (hd (images example_itc9))"
    "img_len (hd (images example_itc9)) + ITUNES_OLD < 2 ^ 32"
    by (simp_all add: example_itc_old_def example_itc9_def writable_layout_def
        writable_image_def ITUNES_OLD_def)
  have data: "img_data (hd (images example_itc9)) = Some [7, 8]"
    by (simp add: example_itc9_def)
  have tk: "take (length [7, 8 :: byte]) (nuls 4 @ [7, 8]) = [0, 0]"
    by (simp add: nuls_def numeral_eq_Suc)
  obtain r where w: "snd (itc_write example_itc_old ''a.itc'' Map.empty) = None"
    and r: "itc_read (fst (itc_write example_itc_old ''a.itc'' Map.empty)) ''a.itc'' False
              (itc_init 208 True) = Some (Inr r)"
    and imgs: "images r = [(roundtrip_image False (hd (images example_itc9)))\<lparr>img_data :=
                  map_option (\<lambda>d. take (length d) (nuls 4 @ d)) (img_data (hd (images example_itc9)))\<rparr>]"
    using write_read_old_single [OF h, of "''a.itc''" Map.empty "itc_init 208 True"] by blast
  from imgs have "images r = [(roundtrip_image False (hd (images example_itc9)))\<lparr>img_data := Some [0, 0]\<rparr>]"
    by (simp only: data option.map tk)
  with h w r show ?thesis
    by blast
qed

text \<open>A witness for C3 (\<open>ITC_Writer.write_image_declared_size\<close>) on the ITUNES_OLD example.\<close>

theorem write_image_declared_size_witness:
  "\<exists>F. write_image example_itc_old 0 (hd (images example_itc9)) = Inr F
       \<and> img_data (hd (images example_itc9)) = Some [7, 8]
       \<and> img_len (hd (images example_itc9)) = int (length [7, 8 :: byte])
       \<and> info_preamble example_itc_old = Some (replicate 20 5)
       \<and> int (length (replicate 20 (5 :: byte))) + 63 \<le> image_offset example_itc_old
       \<and> length F = be_val (take 4 F) + 4"
proof -
  have h: "writable_layout example_itc_old" "writable_image (hd (images example_itc9))"
    "img_len (hd (images example_itc9)) + image_offset example_itc_old < 2 ^ 32"
    by (simp_all add: example_itc_old_def example_itc9_def writable_layout_def
        writable_image_def ITUNES_OLD_def)
  obtain F where F: "write_image example_itc_old 0 (hd (images example_itc9)) = Inr F"
    using write_image_writable [OF h] by blast
  have d: "img_data (hd (images example_itc9)) = Some [7, 8]"
    "img_len (hd (images example_itc9)) = int (length [7, 8 :: byte])"
    "info_preamble example_itc_old = Some (replicate 20 5)"
    "int (length (replicate 20 (5 :: byte))) + 63 \<le> image_offset example_itc_old"
    "image_offset example_itc_old = ITUNES_OLD"
    by (simp_all add: example_itc_old_def example_itc9_def ITUNES_OLD_def)
  show ?thesis
    using F d write_image_declared_size [OF F d(1-4)] by auto
qed

section \<open>Conflicting ids abort the read\<close>

text \<open>
  C5. A file whose first item frame (ITUNES_9) and second item frame carry
  different library ids, both as \<open>_write_image\<close> writes them, cannot be read at
  all: \<open>read\<close> raises \<open>ITCWarning\<close> at the second frame and returns no container,
  where the specification says the reader warns and keeps the first id.
\<close>

theorem read_conflicting_library_ids:
  assumes wf1: "writable9 st1" "writable_image i1"
    and wf2: "writable_layout st2" "writable_image i2" "img_len i2 + image_offset st2 < 2 ^ 32"
    and ne: "library st1 \<noteq> library st2"
    and w1: "write_image st1 n1 i1 = Inr F1" and w2: "write_image st2 n2 i2 = Inr F2"
  shows "itc_read (fs(fname \<mapsto> root_header @ nuls 256 @ F1 @ F2)) fname lo st =
           Some (Inl (ITCWarning MultipleLibraryIds))"
proof -
  let ?st0 = "st\<lparr>itc_filename := fname, library := None, track := None, images := []\<rparr>"
  let ?s0 = "\<lparr>content = root_header @ nuls 256 @ F1 @ F2, pos = 0\<rparr>"
  obtain d2 where d2: "img_data i2 = Some d2"
    using wf2(2) by (auto simp: writable_image_def split: option.splits)
  have l1: "library st1 \<noteq> None"
    using wf1(1) by (auto simp: writable9_def split: option.splits)
  have r0: "read_frame lo ?st0 ?s0 = Inr (False, ?st0, ?s0\<lparr>pos := 284\<rparr>)"
    by (rule read_root_header) simp_all
  have lh: "length root_header = 28" "length (nuls 256) = 256"
    by (simp_all add: root_header_def nuls_def itc_tags)
  have at1: "drop (pos (?s0\<lparr>pos := 284\<rparr>)) (content (?s0\<lparr>pos := 284\<rparr>)) = F1 @ F2"
    using lh by simp
  obtain rst1 where r1: "read_frame lo ?st0 (?s0\<lparr>pos := 284\<rparr>) = Inr (False, rst1, ?s0\<lparr>pos := 284 + length F1\<rparr>)"
      and lib1: "library rst1 = library st1"
    using read_frame_written9 [OF wf1 w1 at1, of ?st0 lo] by auto
  have at2: "drop (pos (?s0\<lparr>pos := 284 + length F1\<rparr>)) (content ?s0) = F2 @ []"
    using lh by simp
  have r2: "read_frame lo rst1 (?s0\<lparr>pos := 284 + length F1\<rparr>) = Inl (ITCWarning MultipleLibraryIds)"
    using read_frame_written [OF wf2(1,2) d2 wf2(3) w2, of "?s0\<lparr>pos := 284 + length F1\<rparr>" "[]" lo rst1]
      at2 lib1 l1 ne by simp
  show ?thesis
    using read_loop_continue [OF r0] read_loop_continue [OF r1] read_loop_error [OF r2]
    by (simp add: itc_read_def)
qed

theorem read_conflicting_library_ids_witness:
  "\<exists>F1 F2. write_image example_itc9 0 (hd (images example_itc9)) = Inr F1
     \<and> write_image (example_itc9\<lparr>library := Some 7\<rparr>) 0 (hd (images example_itc9)) = Inr F2
     \<and> itc_read (Map.empty(''a.itc'' \<mapsto> root_header @ nuls 256 @ F1 @ F2)) ''a.itc'' False
          (itc_init ITUNES_9 True) = Some (Inl (ITCWarning MultipleLibraryIds))"
proof -
  let ?i = "hd (images example_itc9)" and ?st2 = "example_itc9\<lparr>library := Some 7\<rparr>"
  have wf: "writable9 example_itc9" "writable_image ?i" "writable_layout ?st2"
      "img_len ?i + image_offset ?st2 < 2 ^ 32" "library example_itc9 \<noteq> library ?st2"
    by (simp_all add: example_itc9_def writable9_def writable_image_def writable_layout_def ITUNES_9_def)
  obtain F1 F2 where "write_image example_itc9 0 ?i = Inr F1" "write_image ?st2 0 ?i = Inr F2"
    using write_image_writable [of example_itc9 ?i 0] write_image_writable [OF wf(3) wf(2) wf(4), of 0] wf
    by (auto simp: writable9_def writable_layout_def ITUNES_9_def ITUNES_OLD_def split: option.splits)
  with read_conflicting_library_ids [OF wf(1,2) wf(3) wf(2) wf(4) wf(5)] show ?thesis
    by blast
qed

section \<open>Records the writer refuses\<close>

text \<open>
  C6. An image whose format is the one the reader decodes from the format tag
  \<open>_write_image\<close> wrote for a JPG or an ARGB image (\<open>'JPEG'\<close>, or
  unclassified for the empty ARGB tag) cannot be written again: \<open>_write_image\<close>
  raises \<open>ITCException\<close> (invalid format). A container read from a file with such
  an image cannot be saved.
\<close>

theorem reread_format_not_rewritable:
  assumes "encode_format f = Inr t" "f \<noteq> FmtPNG" "img_data i = Some d"
    and "img_format i = decode_format (pack_str 4 t)"
  shows "write_image st n i = Inl (ITCException InvalidFormat)"
proof -
  have "encode_format (decode_format (pack_str 4 t)) = Inl (ITCException InvalidFormat)"
    using assms(1,2) by (cases f) (auto simp: decode_format_def itc_tags pack_str_def nuls4_eq [unfolded nuls_def])
  then show ?thesis
    using write_image_format_error [OF assms(3)] assms(4) by simp
qed

theorem reread_format_not_rewritable_witness:
  "write_image example_itc9 0 ((hd (images example_itc9))\<lparr>img_format := decode_format (pack_str 4 tag_jpeg_num)\<rparr>)
     = Inl (ITCException InvalidFormat)"
  by (rule reread_format_not_rewritable [of FmtJPG tag_jpeg_num _ "[7, 8]"])
     (simp_all add: example_itc9_def)

text \<open>
  C7. A container that was never read has no \<open>info_preamble\<close> attribute: after
  \<open>ITCFile()\<close> and a successful \<open>add_image\<close>, \<open>write\<close> leaves a file holding only
  the root frame and its padding and raises \<open>AttributeError\<close>, where the
  specification asks for a zero-filled preamble for newly added records.
\<close>

theorem add_image_then_write_fails:
  assumes add: "add_image fs0 path w h (itc_init mode q) = Inr st"
    and found: "fs0 path = Some data"
    and mode: "0 \<le> mode" "int (length data) + mode < 2 ^ 32"
    and fname: "fname \<noteq> []"
  shows "itc_write st fname fs = (fs(fname \<mapsto> root_header @ nuls 256), Some AttributeError)"
  by (rule write_added_no_preamble [OF add _ _ found]) (use mode fname in \<open>simp_all add: itc_init_def\<close>)

theorem add_image_then_write_fails_witness:
  "\<exists>st. add_image (Map.empty(''cover.png'' \<mapsto> [1, 2, 3])) ''cover.png'' 10 20 (itc_init ITUNES_9 False) = Inr st
     \<and> itc_write st ''out.itc'' Map.empty = (Map.empty(''out.itc'' \<mapsto> root_header @ nuls 256), Some AttributeError)"
proof -
  have ok: "\<exists>st. add_image (Map.empty(''cover.png'' \<mapsto> [1, 2, 3])) ''cover.png'' 10 20 (itc_init ITUNES_9 False) = Inr st"
    by (simp add: add_image_def splitext_ext_def path_basename_def py_lower_def)
  then obtain st where st: "add_image (Map.empty(''cover.png'' \<mapsto> [1, 2, 3])) ''cover.png'' 10 20 (itc_init ITUNES_9 False) = Inr st"
    by blast
  have "itc_write st ''out.itc'' Map.empty = (Map.empty(''out.itc'' \<mapsto> root_header @ nuls 256), Some AttributeError)"
    by (rule add_image_then_write_fails [OF st, where data = "[1, 2, 3]"]) (simp_all add: ITUNES_9_def)
  with st show ?thesis by blast
qed

section \<open>Reading a container that never ends\<close>

text \<open>
  A witness for C4 (\<open>ITC_Reader.read_loop_size_zero_item_diverges\<close>): listing
  the images of \<open>zero_item_file\<close> never returns.
\<close>

theorem read_loop_size_zero_item_diverges_witness:
  "itc_read (\<lambda>_. Some zero_item_file) ''art.itc'' True (itc_init ITUNES_9 False) = None"
proof -
  have "read_loop True ((itc_init ITUNES_9 False)\<lparr>itc_filename := ''art.itc'', library := None, track := None, images := []\<rparr>)
          \<lparr>content = zero_item_file, pos = 0\<rparr> = None"
    by (rule read_loop_size_zero_item_diverges [where off = 208 and pre = "replicate 16 0" and lib = 1 and trk = 2
          and m = tag_locl and f = tag_PNGf and skip = "replicate 4 0" and w = 1 and h = 1 and rest = "[]"])
       (simp_all add: zero_item_file_def itc_tags itc_init_def)
  then show ?thesis by (simp add: itc_read_def)
qed

section \<open>The reader's invariant on a file\<close>

text \<open>
  A witness for C13 (\<open>ITC_Reader_Inv.read_result_inv\<close>): a file holding only the
  root frame and its padding reads, in list-only mode, as a container with no
  records and no ids.
\<close>

theorem read_result_inv_witness:
  "itc_read (Map.empty(''a.itc'' \<mapsto> root_header @ nuls 256)) ''a.itc'' True (itc_init ITUNES_9 True)
     = Some (Inr ((itc_init ITUNES_9 True)\<lparr>itc_filename := ''a.itc''\<rparr>))
   \<and> read_inv True ((itc_init ITUNES_9 True)\<lparr>itc_filename := ''a.itc''\<rparr>)"
proof -
  let ?st = "(itc_init ITUNES_9 True)\<lparr>itc_filename := ''a.itc'', library := None, track := None, images := []\<rparr>"
  let ?s = "\<lparr>content = root_header @ nuls 256, pos = 0\<rparr>"
  have st: "?st = (itc_init ITUNES_9 True)\<lparr>itc_filename := ''a.itc''\<rparr>"
    by (simp add: itc_init_def)
  have r0: "read_frame True ?st ?s = Inr (False, ?st, ?s\<lparr>pos := 284\<rparr>)"
    by (rule read_root_header [where rest = "[]"]) simp_all
  have len: "length root_header = 28" "length (nuls 256) = 256"
    by (simp_all add: root_header_def nuls_def itc_tags)
  have r1: "read_frame True ?st (?s\<lparr>pos := 284\<rparr>) = Inr (True, ?st, snd (py_read 8 (?s\<lparr>pos := 284\<rparr>)))"
    by (rule read_frame_end) (simp add: len)
  have rd: "itc_read (Map.empty(''a.itc'' \<mapsto> root_header @ nuls 256)) ''a.itc'' True (itc_init ITUNES_9 True)
     = Some (Inr ((itc_init ITUNES_9 True)\<lparr>itc_filename := ''a.itc''\<rparr>))"
    using read_loop_continue [OF r0] read_loop_stop [OF r1] st by (simp add: itc_read_def)
  with read_result_inv [OF rd] show ?thesis
    by blast
qed

section \<open>The types of the records read\<close>


section \<open>The writer against the specification\<close>

text \<open>
  A witness for C24 (\<open>ITC_Spec.write_refines_spec\<close>): writing the example
  container leaves the file the specification lays out for it.
\<close>

theorem write_refines_spec_witness:
  "itc_write example_itc9 ''a.itc'' Map.empty = (Map.empty(''a.itc'' \<mapsto> spec_write (abs_itc example_itc9)), None)"
  using write_refines_spec [of example_itc9 "''a.itc''" Map.empty]
  by (simp add: example_itc9_def writable_layout_def writable_image_def ITUNES_9_def)

section \<open>List-only and full reads\<close>

text \<open>
  A witness for C26 (\<open>ITC_Reader_Modes.read_list_only_same\<close>): the file
  \<open>write\<close> makes of the example container, read in both modes.
\<close>

theorem read_list_only_same_witness:
  "\<exists>r. itc_read (fst (itc_write example_itc9 ''a.itc'' Map.empty)) ''a.itc'' False (itc_init ITUNES_9 True)
          = Some (Inr r) \<and> list_all (\<lambda>i. 0 \<le> img_len i) (images r)
       \<and> itc_read (fst (itc_write example_itc9 ''a.itc'' Map.empty)) ''a.itc'' True (itc_init ITUNES_9 True)
          = Some (Inr (strip_itc r))"
proof -
  have wf: "writable9 example_itc9" "list_all writable_image (images example_itc9)"
    by (simp_all add: example_itc9_def writable9_def writable_image_def ITUNES_9_def)
  obtain r where rd: "itc_read (fst (itc_write example_itc9 ''a.itc'' Map.empty)) ''a.itc'' False
      (itc_init ITUNES_9 True) = Some (Inr r)" and im: "images r = map (roundtrip_image False) (images example_itc9)"
    using itc_write_read9 [OF wf, of "''a.itc''" Map.empty False "itc_init ITUNES_9 True"] by auto
  have q: "\<forall>img\<in>set (images r). 0 \<le> img_len img"
    using im by (simp add: example_itc9_def roundtrip_image_def)
  show ?thesis
    using rd q read_list_only_same [OF rd q] by (simp add: list_all_iff)
qed

section \<open>A truncated payload\<close>

text \<open>
  C27. A file that ends inside an item's payload is read without an exception:
  the full read returns the record with the bytes that were there as its data
  and the declared length as its recorded length, where the specification asks
  for a loud failure on an incomplete declared frame body.
\<close>

theorem read_truncated_payload:
  assumes stored: "fs f = Some (be_bytes 4 (208 + n) @ tag_item @ be_bytes 4 208 @ pre @ be_bytes 8 lib @ be_bytes 8 trk
                   @ m @ fmt @ skip @ be_bytes 4 w @ be_bytes 4 h @ replicate 144 0 @ d)"
    and lens: "length pre = 16" "length m = 4" "length fmt = 4" "length skip = 4"
    and bounds: "208 + n < 2 ^ 32" "lib < 2 ^ 64" "trk < 2 ^ 64" "w < 2 ^ 32" "h < 2 ^ 32"
    and short: "length d < n"
  shows "\<exists>r. itc_read fs f False st = Some (Inr r) \<and>
           images r = [\<lparr>img_width = int w, img_height = int h, img_data = Some d, img_format = decode_format fmt,
                        img_method = decode_method m, img_len = int n\<rparr>]"
proof -
  let ?c = "be_bytes 4 (208 + n) @ tag_item @ be_bytes 4 208 @ pre @ be_bytes 8 lib @ be_bytes 8 trk
                   @ m @ fmt @ skip @ be_bytes 4 w @ be_bytes 4 h @ replicate 144 0 @ d"
  let ?st0 = "st\<lparr>itc_filename := f, library := None, track := None, images := []\<rparr>"
  let ?s0 = "\<lparr>content = ?c, pos = 0\<rparr>"
  have at: "drop (pos ?s0) (content ?s0) = be_bytes 4 (208 + n) @ tag_item @ be_bytes 4 208 @ pre @
      be_bytes 8 lib @ be_bytes 8 trk @ m @ fmt @ skip @ be_bytes 4 w @ be_bytes 4 h @ (replicate 144 0 @ d)"
    by simp
  have pre: "((208::nat) = 208 \<and> length pre = 16) \<or> (208 = 216 \<and> length pre = 20) \<or>
             (208 \<noteq> 208 \<and> 208 \<noteq> 216 \<and> pre = [])"
    using lens(1) by simp
  have drop208: "drop 208 ?c = d"
    using lens by (simp add: itc_tags bstr_def)
  let ?img = "\<lparr>img_width = int w, img_height = int h, img_data = Some d, img_format = decode_format fmt,
               img_method = decode_method m, img_len = int (208 + n) - int 208\<rparr>"
  let ?st1 = "?st0\<lparr>image_offset := int 208, info_preamble := Some pre, library := Some lib,
               track := Some trk, images := [?img]\<rparr>"
  have pl: "read_payload False (int (208 + n) - int 208) (?s0\<lparr>pos := pos ?s0 + 208\<rparr>)
            = Inr (Some d, ?s0\<lparr>pos := 208 + length d\<rparr>)"
    using drop208 short by (simp add: read_payload_def py_read_def)
  have f1: "read_frame False ?st0 ?s0 = Inr (False, ?st1, ?s0\<lparr>pos := 208 + length d\<rparr>)"
  proof -
    have "pre \<noteq> []"
      using lens(1) by auto
    then show ?thesis
      using read_frame_item [OF at pre bounds(1) _ bounds(2,3) lens(2,3,4) bounds(4,5), of False ?st0] pl
      by simp
  qed
  have f2: "read_frame False ?st1 (?s0\<lparr>pos := 208 + length d\<rparr>)
            = Inr (True, ?st1, snd (py_read 8 (?s0\<lparr>pos := 208 + length d\<rparr>)))"
    by (rule read_frame_end) (simp add: lens itc_tags bstr_def)
  have "itc_read fs f False st = Some (Inr ?st1)"
    using stored read_loop_continue [OF f1] read_loop_stop [OF f2] by (simp add: itc_read_def)
  then show ?thesis
    by simp
qed

theorem read_truncated_payload_witness:
  "\<exists>r. itc_read (\<lambda>_. Some (be_bytes 4 218 @ tag_item @ be_bytes 4 208 @ replicate 16 0 @ be_bytes 8 1 @ be_bytes 8 2
                   @ tag_locl @ tag_PNGf @ replicate 4 0 @ be_bytes 4 1 @ be_bytes 4 1 @ replicate 144 0 @ [1, 2, 3]))
          ''a.itc'' False (itc_init ITUNES_9 True) = Some (Inr r) \<and>
        images r = [\<lparr>img_width = 1, img_height = 1, img_data = Some [1, 2, 3], img_format = decode_format tag_PNGf,
                     img_method = decode_method tag_locl, img_len = 10\<rparr>]"
  using read_truncated_payload [of "\<lambda>_. Some (be_bytes 4 218 @ tag_item @ be_bytes 4 208 @ replicate 16 0 @ be_bytes 8 1
      @ be_bytes 8 2 @ tag_locl @ tag_PNGf @ replicate 4 0 @ be_bytes 4 1 @ be_bytes 4 1 @ replicate 144 0 @ [1, 2, 3])"
      "''a.itc''" 10 "replicate 16 0" 1 2 tag_locl tag_PNGf "replicate 4 0" 1 1 "[1, 2, 3]" "itc_init ITUNES_9 True"]
  by (simp add: itc_tags bstr_def)

section \<open>Fields that do not fit\<close>

text \<open>
  C28. \<open>struct.pack('!L', ...)\<close> checks its range: writing a one-image
  container whose image has a width outside \<open>[0, 2^32)\<close> raises
  \<open>StructError\<close> after the root frame and its padding, which is all the file
  then holds.
\<close>

theorem write_width_overflow:
  assumes wf: "writable_layout st" and one: "images st = [i]" and d: "img_data i = Some d"
    and tags: "img_format i \<in> {FmtPNG, FmtJPG, FmtARGB}" "img_method i \<noteq> MethodNone"
    and sz: "img_len i + image_offset st < 2 ^ 32" "0 \<le> img_len i"
    and w: "img_width i < 0 \<or> 2 ^ 32 \<le> img_width i" and fn: "fname \<noteq> []"
  shows "itc_write st fname fs = (fs(fname \<mapsto> root_header @ nuls 256), Some StructError)"
proof -
  obtain pre lib trk off where l: "info_preamble st = Some pre" "library st = Some lib" "lib < 2 ^ 64"
    "track st = Some trk" "trk < 2 ^ 64" "image_offset st = int off"
    using wf by (rule writable_layoutE) blast
  obtain iformat imethod where t: "encode_format (img_format i) = Inr iformat"
    "encode_method (img_method i) = Inr imethod"
    using tags by (cases "img_format i"; cases "img_method i") auto
  have "write_image st 0 i = Inl StructError"
    using d t l sz w by (auto simp: write_image_def pack_uint_def get_preamble_def pack_opt_u64_def)
  then show ?thesis
    using one fn by (simp add: itc_write_def)
qed

theorem write_width_overflow_witness:
  "itc_write (example_itc9\<lparr>images := [\<lparr>img_width = 4294967296, img_height = 4, img_data = Some [7, 8],
       img_format = FmtPNG, img_method = Local, img_len = 2\<rparr>]\<rparr>) ''a.itc'' Map.empty
   = (Map.empty(''a.itc'' \<mapsto> root_header @ nuls 256), Some StructError)"
  using write_width_overflow [of "example_itc9\<lparr>images := [\<lparr>img_width = 4294967296, img_height = 4,
      img_data = Some [7, 8], img_format = FmtPNG, img_method = Local, img_len = 2\<rparr>]\<rparr>"]
  by (simp add: example_itc9_def writable_layout_def ITUNES_9_def)

end
